(* ===== verification/Json.thy ===== *)
theory Json
  imports Prelude
begin

text \<open>
  The part of package \<^verbatim>\<open>encoding/json\<close> that the source uses, on syntax trees: a JSON text
  is represented by the tree it denotes (white space and the spelling of literals are not
  represented), integer literals by their value, literals with a fraction or an exponent by
  their spelling, and string literals in RFC 3339 form, which is how \<^verbatim>\<open>time.Time\<close> is written,
  by the instant they denote (a text in this form that is meant as a plain string is outside the
  representation). Objects keep the order and the repetitions of their fields.
  Strings are taken to be valid UTF-8 (the package replaces other bytes).

  Decoding into a struct visits the fields of the object in order, matches names without
  regard to (ASCII) case, lets later fields overwrite earlier ones, ignores unknown fields and
  treats \<^verbatim>\<open>null\<close> as "leave unchanged" except for pointers and maps, which it clears.
\<close>

section \<open>Syntax trees\<close>

datatype json =
    JNull
  | JBool bool
  | JInt int
  | JDec string
  | JStr string
  | JTime time
  | JArr "json list"
  | JObj "(string \<times> json) list"

section \<open>Maps keyed by strings\<close>

text \<open>
  A Go \<^verbatim>\<open>map[string]V\<close> is represented by its entries in key order, the order in which
  \<^verbatim>\<open>json.Marshal\<close> writes them; a nil map and an empty map are both \<open>[]\<close>.
\<close>

type_synonym 'v smap = "(string \<times> 'v) list"

fun sm_put :: "string \<Rightarrow> 'v \<Rightarrow> 'v smap \<Rightarrow> 'v smap" where
  "sm_put k v [] = [(k, v)]"
| "sm_put k v ((k', v') # m) =
     (if k < k' then (k, v) # (k', v') # m
      else if k = k' then (k, v) # m
      else (k', v') # sm_put k v m)"

abbreviation sm_get :: "'v smap \<Rightarrow> string \<Rightarrow> 'v option" where
  "sm_get \<equiv> map_of"

definition sm_wf :: "'v smap \<Rightarrow> bool" where
  "sm_wf m \<longleftrightarrow> sorted_wrt (<) (map fst m)"

lemma sm_wf_Nil [simp]: "sm_wf []"
  by (simp add: sm_wf_def)

lemma sm_get_put [simp]: "sm_get (sm_put k v m) = (sm_get m)(k \<mapsto> v)"
  by (induction m) (auto simp: fun_eq_iff)

lemma set_keys_sm_put: "set (map fst (sm_put k v m)) = insert k (set (map fst m))"
proof (induction m)
  case (Cons e m)
  then show ?case by (cases e) (simp add: insert_commute)
qed simp

lemma sm_wf_put [simp]: "sm_wf m \<Longrightarrow> sm_wf (sm_put k v m)"
proof (induction m)
  case Nil
  then show ?case by (simp add: sm_wf_def)
next
  case (Cons e m)
  obtain k' v' where e: "e = (k', v')" by (cases e)
  have later: "\<forall>x \<in> set (map fst m). k' < x"
    using Cons.prems by (simp add: sm_wf_def e)
  have "\<forall>x \<in> set (map fst (sm_put k v m)). k' < x" if "\<not> k < k'" "k \<noteq> k'"
    using later that unfolding set_keys_sm_put by (simp add: not_less le_less)
  then show ?case
    using Cons later by (auto simp: sm_wf_def e intro: less_trans)
qed

lemma sm_put_last: "sm_wf (m @ [(k, v)]) \<Longrightarrow> sm_put k v m = m @ [(k, v)]"
proof (induction m)
  case (Cons e m)
  then have "fst e < k" by (simp add: sm_wf_def sorted_wrt_append)
  moreover have "sm_wf (m @ [(k, v)])" using Cons.prems by (simp add: sm_wf_def)
  ultimately show ?case using Cons.IH by (cases e) auto
qed simp

section \<open>Decoding\<close>

definition to_lower :: "char \<Rightarrow> char" where
  "to_lower c = (if 65 \<le> (of_char c :: nat) \<and> (of_char c :: nat) \<le> 90
     then char_of ((of_char c :: nat) + 32) else c)"

definition same_name :: "string \<Rightarrow> string \<Rightarrow> bool" where
  "same_name a b \<longleftrightarrow> map to_lower a = map to_lower b"

fun dec_string :: "json \<Rightarrow> string \<Rightarrow> string option" where
  "dec_string (JStr s) old = Some s"
| "dec_string JNull old = Some old"
| "dec_string _ old = None"

fun dec_int64 :: "json \<Rightarrow> 64 word \<Rightarrow> 64 word option" where
  "dec_int64 (JInt n) old =
     (if - (2 ^ 63) \<le> n \<and> n < 2 ^ 63 then Some (word_of_int n) else None)"
| "dec_int64 JNull old = Some old"
| "dec_int64 _ old = None"

fun dec_uint64 :: "json \<Rightarrow> uint64 \<Rightarrow> uint64 option" where
  "dec_uint64 (JInt n) old = (if 0 \<le> n \<and> n < 2 ^ 64 then Some (word_of_int n) else None)"
| "dec_uint64 JNull old = Some old"
| "dec_uint64 _ old = None"

fun dec_time :: "json \<Rightarrow> time \<Rightarrow> time option" where
  "dec_time (JTime t) old = Some t"
| "dec_time JNull old = Some old"
| "dec_time _ old = None"

fun dec_entries :: "(json \<Rightarrow> 'v option) \<Rightarrow> (string \<times> json) list \<Rightarrow> 'v smap \<Rightarrow> 'v smap option" where
  "dec_entries dec [] m = Some m"
| "dec_entries dec ((k, j) # es) m =
     (case dec j of None \<Rightarrow> None | Some v \<Rightarrow> dec_entries dec es (sm_put k v m))"

fun dec_smap :: "(json \<Rightarrow> 'v option) \<Rightarrow> json \<Rightarrow> 'v smap \<Rightarrow> 'v smap option" where
  "dec_smap dec (JObj es) old = dec_entries dec es old"
| "dec_smap dec JNull old = Some []"
| "dec_smap dec _ old = None"

text \<open>The fields of a struct, with the decoding step of one field as argument.\<close>

fun dec_fields :: "('a \<Rightarrow> string \<Rightarrow> json \<Rightarrow> 'a option) \<Rightarrow> 'a \<Rightarrow> (string \<times> json) list \<Rightarrow> 'a option" where
  "dec_fields step x [] = Some x"
| "dec_fields step x ((k, j) # es) =
     (case step x k j of None \<Rightarrow> None | Some y \<Rightarrow> dec_fields step y es)"

fun dec_struct :: "('a \<Rightarrow> string \<Rightarrow> json \<Rightarrow> 'a option) \<Rightarrow> json \<Rightarrow> 'a \<Rightarrow> 'a option" where
  "dec_struct step (JObj es) x = dec_fields step x es"
| "dec_struct step JNull x = Some x"
| "dec_struct step _ x = None"

lemma dec_fields_append:
  "dec_fields step x (es @ fs) =
     (case dec_fields step x es of None \<Rightarrow> None | Some y \<Rightarrow> dec_fields step y fs)"
  by (induction es arbitrary: x) (auto split: option.splits)

lemma sint_64_bounds:
  "- (2 ^ 63) \<le> sint (w :: 64 word)" "sint (w :: 64 word) < 2 ^ 63"
  using sint_greater_eq [of w] sint_lt [of w] by simp_all

lemma uint_64_bound: "uint (w :: 64 word) < 2 ^ 64"
  using uint_lt2p [of w] by simp

lemma word_64_bounds [simp]:
  "- 9223372036854775808 \<le> sint (w :: 64 word)" "sint (w :: 64 word) < 9223372036854775808"
  "uint (w :: 64 word) < 18446744073709551616"
  using sint_64_bounds [of w] uint_64_bound [of w] by simp_all

lemma dec_int64_sint [simp]: "dec_int64 (JInt (sint w)) old = Some w"
  using sint_64_bounds [of w] by simp

lemma dec_uint64_uint [simp]: "dec_uint64 (JInt (uint w)) old = Some w"
  using uint_64_bound [of w] by simp

lemma dec_entries_sorted:
  assumes "\<And>v. dec (enc v) = Some v" and "sm_wf (acc @ m)"
  shows "dec_entries dec (map (\<lambda>(k, v). (k, enc v)) m) acc = Some (acc @ m)"
  using assms(2)
proof (induction m arbitrary: acc)
  case (Cons e m)
  obtain k v where e: "e = (k, v)" by (cases e)
  have "sm_wf ((acc @ [(k, v)]) @ m)" and "sm_wf (acc @ [(k, v)])"
    using Cons.prems e by (auto simp: sm_wf_def sorted_wrt_append)
  then show ?case
    using Cons.IH [of "acc @ [(k, v)]"] by (simp add: e assms(1) sm_put_last)
qed simp

lemma dec_smap_sorted:
  "(\<And>v. dec (enc v) = Some v) \<Longrightarrow> sm_wf m \<Longrightarrow>
     dec_smap dec (JObj (map (\<lambda>(k, v). (k, enc v)) m)) [] = Some m"
  using dec_entries_sorted [of dec enc "[]" m] by simp

lemma dec_entries_wf: "dec_entries dec es m = Some m' \<Longrightarrow> sm_wf m \<Longrightarrow> sm_wf m'"
  by (induction dec es m rule: dec_entries.induct) (auto split: option.splits)

lemma dec_smap_wf: "dec_smap dec j m = Some m' \<Longrightarrow> sm_wf m \<Longrightarrow> sm_wf m'"
  by (induction dec j m rule: dec_smap.induct) (auto intro: dec_entries_wf)

text \<open>A field whose zero value \<^verbatim>\<open>omitempty\<close> leaves out.\<close>

definition omitempty :: "bool \<Rightarrow> string \<Rightarrow> json \<Rightarrow> (string \<times> json) list" where
  "omitempty zero k j = (if zero then [] else [(k, j)])"

text \<open>
  \<^verbatim>\<open>Time.MarshalJSON\<close> fails for years outside 0 to 9999; the bounds are the first instants of
  the years 0 and 10000.
\<close>

definition time_marshals :: "time \<Rightarrow> bool" where
  "time_marshals t \<longleftrightarrow> - 62167219200 * second \<le> t \<and> t < 253402300800 * second"

text \<open>The zero \<^verbatim>\<open>time.Time\<close>: January 1 of the year 1.\<close>

definition zero_time :: time where
  "zero_time = - 62135596800 * second"

lemma time_marshals_zero [simp]: "time_marshals zero_time"
  by (simp add: time_marshals_def zero_time_def)

end
