(* ===== verification/Store.thy ===== *)
theory Store
  imports Json
begin

text \<open>
  \<^verbatim>\<open>internal/store/store.go\<close>: the persistent records and the errors of the store, with
  the JSON documents that represent the records in the bucket. A Go \<^verbatim>\<open>int\<close> or \<^verbatim>\<open>int64\<close> of a
  record is a 64-bit word read with sign, a \<^verbatim>\<open>uint64\<close> one read without; both wrap around.
\<close>

section \<open>Records\<close>

type_synonym int64 = "64 word"

record lock =
  l_UpdateID :: string
  l_Owner :: string
  l_ExpiresAt :: time
  l_Generation :: uint64
  l_etag :: string

record stack =
  st_Org :: string
  st_Project :: string
  st_Name :: string
  st_Version :: int64
  st_Created :: time
  st_LastUpdate :: time
  st_Incarnation :: string
  st_LockProtocol :: int64
  st_Fence :: uint64
  st_Lock :: "lock option"
  st_LatestCheckpointKey :: string
  st_CheckpointVersions :: "string smap"
  st_etag :: string

record update =
  u_ID :: string
  u_Kind :: string
  u_Status :: string
  u_Version :: int64
  u_Incarnation :: string
  u_Message :: string
  u_ResourceChanges :: "int64 smap"
  u_StartTime :: int64
  u_EndTime :: int64
  u_etag :: string

definition zero_lock :: lock where
  "zero_lock = \<lparr>l_UpdateID = '''', l_Owner = '''', l_ExpiresAt = zero_time, l_Generation = 0,
     l_etag = ''''\<rparr>"

definition zero_stack :: stack where
  "zero_stack = \<lparr>st_Org = '''', st_Project = '''', st_Name = '''', st_Version = 0,
     st_Created = zero_time, st_LastUpdate = zero_time, st_Incarnation = '''', st_LockProtocol = 0,
     st_Fence = 0, st_Lock = None, st_LatestCheckpointKey = '''', st_CheckpointVersions = [],
     st_etag = ''''\<rparr>"

definition zero_update :: update where
  "zero_update = \<lparr>u_ID = '''', u_Kind = '''', u_Status = '''', u_Version = 0, u_Incarnation = '''',
     u_Message = '''', u_ResourceChanges = [], u_StartTime = 0, u_EndTime = 0, u_etag = ''''\<rparr>"

text \<open>\<^verbatim>\<open>Lock.Expired\<close>: a lease ends at the instant \<^verbatim>\<open>ExpiresAt\<close> itself.\<close>

definition Expired :: "lock \<Rightarrow> time \<Rightarrow> bool" where
  "Expired l now \<longleftrightarrow> \<not> now < l_ExpiresAt l"

section \<open>Errors\<close>

text \<open>
  Errors of the AWS client: the typed \<^verbatim>\<open>NoSuchKey\<close>, an HTTP response with a status code, and
  everything else; each carries the text that the SDK gives it.
\<close>

datatype s3_error =
    NoSuchKey string
  | ResponseError nat string
  | ClientError string

text \<open>
  A Go error value: the sentinels of \<^verbatim>\<open>store.go\<close>, the unexported \<^verbatim>\<open>errNotFound\<close>, the typed
  \<^verbatim>\<open>LockHeldError\<close>, an S3 error, \<^verbatim>\<open>errors.New\<close>, \<^verbatim>\<open>fmt.Errorf\<close> with one \<^verbatim>\<open>%w\<close> (its text
  before the wrapped error), and \<^verbatim>\<open>errors.Join\<close>.
\<close>

datatype error =
    ErrStackNotFound
  | ErrStackExists
  | ErrUpdateNotFound
  | ErrCheckpointNotFound
  | ErrNoLock
  | ErrInvalidUpdateState
  | ErrConcurrentMutation
  | errNotFound
  | LockHeldError lock
  | S3Error s3_error
  | NewError string
  | Wrap string error
  | Join error error

fun errors_Is :: "error \<Rightarrow> error \<Rightarrow> bool" where
  "errors_Is (Wrap m e) target = (Wrap m e = target \<or> errors_Is e target)"
| "errors_Is (Join e1 e2) target =
     (Join e1 e2 = target \<or> errors_Is e1 target \<or> errors_Is e2 target)"
| "errors_Is e target = (e = target)"

text \<open>\<^verbatim>\<open>errors.As\<close> with a \<^verbatim>\<open>*LockHeldError\<close>, and with an S3 error, target.\<close>

fun errors_As_held :: "error \<Rightarrow> lock option" where
  "errors_As_held (LockHeldError l) = Some l"
| "errors_As_held (Wrap m e) = errors_As_held e"
| "errors_As_held (Join e1 e2) =
     (case errors_As_held e1 of Some l \<Rightarrow> Some l | None \<Rightarrow> errors_As_held e2)"
| "errors_As_held _ = None"

fun errors_As_s3 :: "(s3_error \<Rightarrow> bool) \<Rightarrow> error \<Rightarrow> bool" where
  "errors_As_s3 P (S3Error e) = P e"
| "errors_As_s3 P (Wrap m e) = errors_As_s3 P e"
| "errors_As_s3 P (Join e1 e2) = (errors_As_s3 P e1 \<or> errors_As_s3 P e2)"
| "errors_As_s3 P _ = False"

fun s3_error_text :: "s3_error \<Rightarrow> string" where
  "s3_error_text (NoSuchKey t) = t"
| "s3_error_text (ResponseError n t) = t"
| "s3_error_text (ClientError t) = t"

text \<open>The method \<^verbatim>\<open>Error\<close>.\<close>

fun error_text :: "error \<Rightarrow> string" where
  "error_text ErrStackNotFound = ''stack not found''"
| "error_text ErrStackExists = ''stack already exists''"
| "error_text ErrUpdateNotFound = ''update not found''"
| "error_text ErrCheckpointNotFound = ''checkpoint not found''"
| "error_text ErrNoLock = ''no lock held''"
| "error_text ErrInvalidUpdateState = ''invalid update state''"
| "error_text ErrConcurrentMutation = ''concurrent state mutation''"
| "error_text errNotFound = ''object not found''"
| "error_text (LockHeldError l) = ''stack is locked by another update''"
| "error_text (S3Error e) = s3_error_text e"
| "error_text (NewError m) = m"
| "error_text (Wrap m e) = m @ error_text e"
| "error_text (Join e1 e2) = error_text e1 @ [CHR 0x0A] @ error_text e2"

section \<open>JSON documents\<close>

subsection \<open>Writing\<close>

definition lock_json :: "lock \<Rightarrow> json" where
  "lock_json l = JObj
     [(''updateID'', JStr (l_UpdateID l)), (''owner'', JStr (l_Owner l)),
      (''expiresAt'', JTime (l_ExpiresAt l)), (''generation'', JInt (uint (l_Generation l)))]"

definition stack_json :: "stack \<Rightarrow> json" where
  "stack_json st = JObj
     ([(''org'', JStr (st_Org st)), (''project'', JStr (st_Project st)), (''name'', JStr (st_Name st)),
       (''version'', JInt (sint (st_Version st))), (''created'', JTime (st_Created st)),
       (''lastUpdate'', JTime (st_LastUpdate st))]
      @ omitempty (st_Incarnation st = '''') ''incarnation'' (JStr (st_Incarnation st))
      @ omitempty (st_LockProtocol st = 0) ''lockProtocol'' (JInt (sint (st_LockProtocol st)))
      @ omitempty (st_Fence st = 0) ''fence'' (JInt (uint (st_Fence st)))
      @ (case st_Lock st of None \<Rightarrow> [] | Some l \<Rightarrow> [(''lock'', lock_json l)])
      @ omitempty (st_LatestCheckpointKey st = '''') ''latestCheckpointKey''
          (JStr (st_LatestCheckpointKey st))
      @ omitempty (st_CheckpointVersions st = []) ''checkpointVersions''
          (JObj (map (\<lambda>(k, v). (k, JStr v)) (st_CheckpointVersions st))))"

definition update_json :: "update \<Rightarrow> json" where
  "update_json u = JObj
     ([(''id'', JStr (u_ID u)), (''kind'', JStr (u_Kind u)), (''status'', JStr (u_Status u)),
       (''version'', JInt (sint (u_Version u)))]
      @ omitempty (u_Message u = '''') ''message'' (JStr (u_Message u))
      @ omitempty (u_ResourceChanges u = []) ''resourceChanges''
          (JObj (map (\<lambda>(k, v). (k, JInt (sint v))) (u_ResourceChanges u)))
      @ [(''startTime'', JInt (sint (u_StartTime u)))]
      @ omitempty (u_EndTime u = 0) ''endTime'' (JInt (sint (u_EndTime u))))"

text \<open>\<^verbatim>\<open>json.Marshal\<close> of the two records that are written; only a time can make it fail.\<close>

definition marshal_stack :: "stack \<Rightarrow> json option" where
  "marshal_stack st =
     (if time_marshals (st_Created st) \<and> time_marshals (st_LastUpdate st)
         \<and> (case st_Lock st of None \<Rightarrow> True | Some l \<Rightarrow> time_marshals (l_ExpiresAt l))
      then Some (stack_json st) else None)"

definition marshal_update :: "update \<Rightarrow> json option" where
  "marshal_update u = Some (update_json u)"

subsection \<open>Reading\<close>

definition lock_field :: "lock \<Rightarrow> string \<Rightarrow> json \<Rightarrow> lock option" where
  "lock_field l k j =
     (if same_name k ''updateID'' then
        map_option (\<lambda>x. l\<lparr>l_UpdateID := x\<rparr>) (dec_string j (l_UpdateID l))
      else if same_name k ''owner'' then map_option (\<lambda>x. l\<lparr>l_Owner := x\<rparr>) (dec_string j (l_Owner l))
      else if same_name k ''expiresAt'' then
        map_option (\<lambda>x. l\<lparr>l_ExpiresAt := x\<rparr>) (dec_time j (l_ExpiresAt l))
      else if same_name k ''generation'' then
        map_option (\<lambda>x. l\<lparr>l_Generation := x\<rparr>) (dec_uint64 j (l_Generation l))
      else Some l)"

definition unmarshal_lock :: "json \<Rightarrow> lock option" where
  "unmarshal_lock j = dec_struct lock_field j zero_lock"

definition dec_lock_ptr :: "json \<Rightarrow> lock option \<Rightarrow> lock option option" where
  "dec_lock_ptr j old =
     (if j = JNull then Some None
      else map_option Some
        (dec_struct lock_field j (case old of None \<Rightarrow> zero_lock | Some l \<Rightarrow> l)))"

definition stack_field :: "stack \<Rightarrow> string \<Rightarrow> json \<Rightarrow> stack option" where
  "stack_field st k j =
     (if same_name k ''org'' then map_option (\<lambda>x. st\<lparr>st_Org := x\<rparr>) (dec_string j (st_Org st))
      else if same_name k ''project'' then
        map_option (\<lambda>x. st\<lparr>st_Project := x\<rparr>) (dec_string j (st_Project st))
      else if same_name k ''name'' then map_option (\<lambda>x. st\<lparr>st_Name := x\<rparr>) (dec_string j (st_Name st))
      else if same_name k ''version'' then
        map_option (\<lambda>x. st\<lparr>st_Version := x\<rparr>) (dec_int64 j (st_Version st))
      else if same_name k ''created'' then
        map_option (\<lambda>x. st\<lparr>st_Created := x\<rparr>) (dec_time j (st_Created st))
      else if same_name k ''lastUpdate'' then
        map_option (\<lambda>x. st\<lparr>st_LastUpdate := x\<rparr>) (dec_time j (st_LastUpdate st))
      else if same_name k ''incarnation'' then
        map_option (\<lambda>x. st\<lparr>st_Incarnation := x\<rparr>) (dec_string j (st_Incarnation st))
      else if same_name k ''lockProtocol'' then
        map_option (\<lambda>x. st\<lparr>st_LockProtocol := x\<rparr>) (dec_int64 j (st_LockProtocol st))
      else if same_name k ''fence'' then
        map_option (\<lambda>x. st\<lparr>st_Fence := x\<rparr>) (dec_uint64 j (st_Fence st))
      else if same_name k ''lock'' then
        map_option (\<lambda>x. st\<lparr>st_Lock := x\<rparr>) (dec_lock_ptr j (st_Lock st))
      else if same_name k ''latestCheckpointKey'' then
        map_option (\<lambda>x. st\<lparr>st_LatestCheckpointKey := x\<rparr>) (dec_string j (st_LatestCheckpointKey st))
      else if same_name k ''checkpointVersions'' then
        map_option (\<lambda>x. st\<lparr>st_CheckpointVersions := x\<rparr>)
          (dec_smap (\<lambda>v. dec_string v '''') j (st_CheckpointVersions st))
      else Some st)"

definition unmarshal_stack :: "json \<Rightarrow> stack option" where
  "unmarshal_stack j = dec_struct stack_field j zero_stack"

definition update_field :: "update \<Rightarrow> string \<Rightarrow> json \<Rightarrow> update option" where
  "update_field u k j =
     (if same_name k ''id'' then map_option (\<lambda>x. u\<lparr>u_ID := x\<rparr>) (dec_string j (u_ID u))
      else if same_name k ''kind'' then map_option (\<lambda>x. u\<lparr>u_Kind := x\<rparr>) (dec_string j (u_Kind u))
      else if same_name k ''status'' then map_option (\<lambda>x. u\<lparr>u_Status := x\<rparr>) (dec_string j (u_Status u))
      else if same_name k ''version'' then map_option (\<lambda>x. u\<lparr>u_Version := x\<rparr>) (dec_int64 j (u_Version u))
      else if same_name k ''message'' then
        map_option (\<lambda>x. u\<lparr>u_Message := x\<rparr>) (dec_string j (u_Message u))
      else if same_name k ''resourceChanges'' then
        map_option (\<lambda>x. u\<lparr>u_ResourceChanges := x\<rparr>)
          (dec_smap (\<lambda>v. dec_int64 v 0) j (u_ResourceChanges u))
      else if same_name k ''startTime'' then
        map_option (\<lambda>x. u\<lparr>u_StartTime := x\<rparr>) (dec_int64 j (u_StartTime u))
      else if same_name k ''endTime'' then
        map_option (\<lambda>x. u\<lparr>u_EndTime := x\<rparr>) (dec_int64 j (u_EndTime u))
      else Some u)"

definition unmarshal_update :: "json \<Rightarrow> update option" where
  "unmarshal_update j = dec_struct update_field j zero_update"

subsection \<open>Round trips\<close>

text \<open>What a record looks like after it was written and read back: unexported fields are gone.\<close>

definition persisted_lock :: "lock \<Rightarrow> lock" where
  "persisted_lock l = l\<lparr>l_etag := ''''\<rparr>"

definition persisted_stack :: "stack \<Rightarrow> stack" where
  "persisted_stack st = st\<lparr>st_Lock := map_option persisted_lock (st_Lock st), st_etag := ''''\<rparr>"

definition persisted_update :: "update \<Rightarrow> update" where
  "persisted_update u = u\<lparr>u_Incarnation := '''', u_etag := ''''\<rparr>"

lemma lock_field_names:
  "lock_field l ''updateID'' j = map_option (\<lambda>x. l\<lparr>l_UpdateID := x\<rparr>) (dec_string j (l_UpdateID l))"
  "lock_field l ''owner'' j = map_option (\<lambda>x. l\<lparr>l_Owner := x\<rparr>) (dec_string j (l_Owner l))"
  "lock_field l ''expiresAt'' j = map_option (\<lambda>x. l\<lparr>l_ExpiresAt := x\<rparr>) (dec_time j (l_ExpiresAt l))"
  "lock_field l ''generation'' j =
     map_option (\<lambda>x. l\<lparr>l_Generation := x\<rparr>) (dec_uint64 j (l_Generation l))"
  by (simp_all add: lock_field_def same_name_def to_lower_def)

lemma lock_roundtrip: "unmarshal_lock (lock_json l) = Some (persisted_lock l)"
  by (simp add: unmarshal_lock_def lock_json_def lock_field_names persisted_lock_def zero_lock_def)

lemma dec_lock_ptr_json [simp]: "dec_lock_ptr (lock_json l) None = Some (Some (persisted_lock l))"
  using lock_roundtrip [of l] by (simp add: dec_lock_ptr_def unmarshal_lock_def lock_json_def)

lemma stack_field_names:
  "stack_field st ''org'' j = map_option (\<lambda>x. st\<lparr>st_Org := x\<rparr>) (dec_string j (st_Org st))"
  "stack_field st ''project'' j = map_option (\<lambda>x. st\<lparr>st_Project := x\<rparr>) (dec_string j (st_Project st))"
  "stack_field st ''name'' j = map_option (\<lambda>x. st\<lparr>st_Name := x\<rparr>) (dec_string j (st_Name st))"
  "stack_field st ''version'' j = map_option (\<lambda>x. st\<lparr>st_Version := x\<rparr>) (dec_int64 j (st_Version st))"
  "stack_field st ''created'' j = map_option (\<lambda>x. st\<lparr>st_Created := x\<rparr>) (dec_time j (st_Created st))"
  "stack_field st ''lastUpdate'' j =
     map_option (\<lambda>x. st\<lparr>st_LastUpdate := x\<rparr>) (dec_time j (st_LastUpdate st))"
  "stack_field st ''incarnation'' j =
     map_option (\<lambda>x. st\<lparr>st_Incarnation := x\<rparr>) (dec_string j (st_Incarnation st))"
  "stack_field st ''lockProtocol'' j =
     map_option (\<lambda>x. st\<lparr>st_LockProtocol := x\<rparr>) (dec_int64 j (st_LockProtocol st))"
  "stack_field st ''fence'' j = map_option (\<lambda>x. st\<lparr>st_Fence := x\<rparr>) (dec_uint64 j (st_Fence st))"
  "stack_field st ''lock'' j = map_option (\<lambda>x. st\<lparr>st_Lock := x\<rparr>) (dec_lock_ptr j (st_Lock st))"
  "stack_field st ''latestCheckpointKey'' j =
     map_option (\<lambda>x. st\<lparr>st_LatestCheckpointKey := x\<rparr>) (dec_string j (st_LatestCheckpointKey st))"
  "stack_field st ''checkpointVersions'' j =
     map_option (\<lambda>x. st\<lparr>st_CheckpointVersions := x\<rparr>)
       (dec_smap (\<lambda>v. dec_string v '''') j (st_CheckpointVersions st))"
  by (simp_all add: stack_field_def same_name_def to_lower_def)

lemma dec_fields_opt:
  assumes "step x k j = Some y" and "z \<Longrightarrow> y = x"
  shows "dec_fields step x (omitempty z k j @ es) = dec_fields step y es"
  using assms by (auto simp: omitempty_def)

lemma stack_fields_opt:
  "st_Incarnation x = '''' \<Longrightarrow>
     dec_fields stack_field x (omitempty (v = '''') ''incarnation'' (JStr v) @ es) =
     dec_fields stack_field (x\<lparr>st_Incarnation := v\<rparr>) es"
  "st_LockProtocol x = 0 \<Longrightarrow>
     dec_fields stack_field x (omitempty (p = 0) ''lockProtocol'' (JInt (sint p)) @ es) =
     dec_fields stack_field (x\<lparr>st_LockProtocol := p\<rparr>) es"
  "st_Fence x = 0 \<Longrightarrow>
     dec_fields stack_field x (omitempty (p = 0) ''fence'' (JInt (uint p)) @ es) =
     dec_fields stack_field (x\<lparr>st_Fence := p\<rparr>) es"
  "st_Lock x = None \<Longrightarrow>
     dec_fields stack_field x ((case lo of None \<Rightarrow> [] | Some l \<Rightarrow> [(''lock'', lock_json l)]) @ es) =
     dec_fields stack_field (x\<lparr>st_Lock := map_option persisted_lock lo\<rparr>) es"
  "st_LatestCheckpointKey x = '''' \<Longrightarrow>
     dec_fields stack_field x (omitempty (v = '''') ''latestCheckpointKey'' (JStr v) @ es) =
     dec_fields stack_field (x\<lparr>st_LatestCheckpointKey := v\<rparr>) es"
  by (cases x; auto intro!: dec_fields_opt simp: stack_field_names split: option.split)+

lemma stack_fields_versions:
  assumes "sm_wf m" and "st_CheckpointVersions x = []"
  shows "dec_fields stack_field x
     (omitempty (m = []) ''checkpointVersions'' (JObj (map (\<lambda>(k, v). (k, JStr v)) m))) =
     Some (x\<lparr>st_CheckpointVersions := m\<rparr>)"
proof -
  have "dec_smap (\<lambda>v. dec_string v '''') (JObj (map (\<lambda>(k, v). (k, JStr v)) m)) [] = Some m"
    by (rule dec_smap_sorted [OF _ assms(1)]) simp
  with assms(2) show ?thesis
    by (cases x) (simp add: omitempty_def stack_field_names del: dec_smap.simps)
qed

lemma stack_roundtrip:
  assumes "sm_wf (st_CheckpointVersions st)"
  shows "unmarshal_stack (stack_json st) = Some (persisted_stack st)"
  by (cases st)
    (use assms in \<open>simp add: unmarshal_stack_def stack_json_def stack_field_names stack_fields_opt
      stack_fields_versions persisted_stack_def zero_stack_def del: dec_smap.simps\<close>)

lemma update_field_names:
  "update_field u ''id'' j = map_option (\<lambda>x. u\<lparr>u_ID := x\<rparr>) (dec_string j (u_ID u))"
  "update_field u ''kind'' j = map_option (\<lambda>x. u\<lparr>u_Kind := x\<rparr>) (dec_string j (u_Kind u))"
  "update_field u ''status'' j = map_option (\<lambda>x. u\<lparr>u_Status := x\<rparr>) (dec_string j (u_Status u))"
  "update_field u ''version'' j = map_option (\<lambda>x. u\<lparr>u_Version := x\<rparr>) (dec_int64 j (u_Version u))"
  "update_field u ''message'' j = map_option (\<lambda>x. u\<lparr>u_Message := x\<rparr>) (dec_string j (u_Message u))"
  "update_field u ''resourceChanges'' j =
     map_option (\<lambda>x. u\<lparr>u_ResourceChanges := x\<rparr>) (dec_smap (\<lambda>v. dec_int64 v 0) j (u_ResourceChanges u))"
  "update_field u ''startTime'' j =
     map_option (\<lambda>x. u\<lparr>u_StartTime := x\<rparr>) (dec_int64 j (u_StartTime u))"
  "update_field u ''endTime'' j = map_option (\<lambda>x. u\<lparr>u_EndTime := x\<rparr>) (dec_int64 j (u_EndTime u))"
  by (simp_all add: update_field_def same_name_def to_lower_def)

lemma update_fields_opt:
  "u_Message x = '''' \<Longrightarrow>
     dec_fields update_field x (omitempty (v = '''') ''message'' (JStr v) @ es) =
     dec_fields update_field (x\<lparr>u_Message := v\<rparr>) es"
  "u_EndTime x = 0 \<Longrightarrow>
     dec_fields update_field x (omitempty (p = 0) ''endTime'' (JInt (sint p))) =
     Some (x\<lparr>u_EndTime := p\<rparr>)"
  by (cases x; auto intro!: dec_fields_opt simp: update_field_names omitempty_def)+

lemma update_fields_changes:
  assumes "sm_wf m" and "u_ResourceChanges x = []"
  shows "dec_fields update_field x
     (omitempty (m = []) ''resourceChanges'' (JObj (map (\<lambda>(k, v). (k, JInt (sint v))) m)) @ es) =
     dec_fields update_field (x\<lparr>u_ResourceChanges := m\<rparr>) es"
proof -
  have "dec_smap (\<lambda>v. dec_int64 v 0) (JObj (map (\<lambda>(k, v). (k, JInt (sint v))) m)) [] = Some m"
    by (rule dec_smap_sorted [OF _ assms(1)]) simp
  with assms(2) show ?thesis
    by (cases x) (auto intro!: dec_fields_opt simp: update_field_names simp del: dec_smap.simps)
qed

lemma update_roundtrip:
  assumes "sm_wf (u_ResourceChanges u)"
  shows "unmarshal_update (update_json u) = Some (persisted_update u)"
  by (cases u)
    (use assms in \<open>simp add: unmarshal_update_def update_json_def update_field_names update_fields_opt
      update_fields_changes persisted_update_def zero_update_def del: dec_smap.simps\<close>)

text \<open>
  Every document that can be read gives a record that is as if it had been written: maps in key
  order, unexported fields empty.
\<close>

lemma dec_fields_keeps:
  assumes "\<And>x k j y. step x k j = Some y \<Longrightarrow> P x \<Longrightarrow> P y"
    and "dec_struct step j x = Some y" and "P x"
  shows "P y"
proof -
  have "dec_fields step x es = Some y \<Longrightarrow> P x \<Longrightarrow> P y" for es
  proof (induction es arbitrary: x)
    case (Cons e es)
    obtain k v where e: "e = (k, v)" by (cases e)
    from Cons.prems e obtain z where z: "step x k v = Some z" "dec_fields step z es = Some y"
      by (auto split: option.splits)
    from z(1) Cons.prems(2) have "P z" by (rule assms(1))
    with z(2) show ?case by (rule Cons.IH)
  qed simp
  with assms(2,3) show ?thesis by (cases j) auto
qed

definition clean_lock :: "lock option \<Rightarrow> bool" where
  "clean_lock lk \<longleftrightarrow> map_option persisted_lock lk = lk"

lemma lock_field_clean:
  "lock_field l k j = Some l' \<Longrightarrow> persisted_lock l = l \<Longrightarrow> persisted_lock l' = l'"
  by (cases l) (auto simp: lock_field_def persisted_lock_def split: if_splits)

lemma dec_lock_ptr_clean:
  assumes "dec_lock_ptr j old = Some lk" and "clean_lock old"
  shows "clean_lock lk"
proof (cases "j = JNull")
  case False
  with assms(1) obtain l where
    l: "dec_struct lock_field j (case old of None \<Rightarrow> zero_lock | Some l \<Rightarrow> l) = Some l" and lk: "lk = Some l"
    by (auto simp: dec_lock_ptr_def)
  have "persisted_lock (case old of None \<Rightarrow> zero_lock | Some l \<Rightarrow> l) =
      (case old of None \<Rightarrow> zero_lock | Some l \<Rightarrow> l)"
    using assms(2) by (auto simp: clean_lock_def persisted_lock_def zero_lock_def split: option.split)
  with lock_field_clean l have "persisted_lock l = l" by (rule dec_fields_keeps)
  with lk show ?thesis by (simp add: clean_lock_def)
qed (use assms in \<open>auto simp: dec_lock_ptr_def clean_lock_def\<close>)

definition clean_stack :: "stack \<Rightarrow> bool" where
  "clean_stack st \<longleftrightarrow> sm_wf (st_CheckpointVersions st) \<and> st_etag st = '''' \<and> clean_lock (st_Lock st)"

lemma stack_field_clean:
  "stack_field st k j = Some st' \<Longrightarrow> clean_stack st \<Longrightarrow> clean_stack st'"
  unfolding clean_stack_def
  by (auto simp: stack_field_def dec_smap_wf dec_lock_ptr_clean split: if_splits)

lemma unmarshal_stack_clean: "unmarshal_stack j = Some st \<Longrightarrow> clean_stack st"
  unfolding unmarshal_stack_def
  by (rule dec_fields_keeps [of stack_field clean_stack j zero_stack, OF stack_field_clean])
    (auto simp: zero_stack_def clean_stack_def clean_lock_def)

lemma persisted_clean_stack: "clean_stack st \<Longrightarrow> persisted_stack (st\<lparr>st_etag := e\<rparr>) = st"
  by (cases st) (simp add: clean_stack_def clean_lock_def persisted_stack_def)

text \<open>
  C27. JSON round trip of the documents. What \<^verbatim>\<open>json.Unmarshal\<close> reads from the encoding of a
  stack, an update or a lock is the value itself, but for the fields that are never encoded
  (the ETags, and the incarnation of an update); encoding fails exactly when a time lies
  outside the years 0 to 9999.
\<close>

theorem documents_roundtrip:
  assumes "sm_wf (st_CheckpointVersions st)" "sm_wf (u_ResourceChanges u)"
  shows "(case marshal_stack st of
       None \<Rightarrow> \<not> time_marshals (st_Created st) \<or> \<not> time_marshals (st_LastUpdate st) \<or>
         (\<exists>l. st_Lock st = Some l \<and> \<not> time_marshals (l_ExpiresAt l))
     | Some j \<Rightarrow> unmarshal_stack j = Some (st\<lparr>st_Lock := map_option (\<lambda>l. l\<lparr>l_etag := ''''\<rparr>) (st_Lock st), st_etag := ''''\<rparr>)) \<and>
     unmarshal_update (update_json u) = Some (u\<lparr>u_Incarnation := '''', u_etag := ''''\<rparr>) \<and>
     unmarshal_lock (lock_json l) = Some (l\<lparr>l_etag := ''''\<rparr>)"
  using stack_roundtrip [OF assms(1)] update_roundtrip [OF assms(2)] lock_roundtrip [of l]
  by (auto simp: marshal_stack_def persisted_stack_def persisted_update_def persisted_lock_def [abs_def]
      split: option.splits if_splits)

theorem documents_roundtrip_witness:
  "unmarshal_update (update_json (zero_update\<lparr>u_ID := ''u'', u_Version := - 3, u_ResourceChanges := [(''a'', 2)]\<rparr>)) =
     Some (zero_update\<lparr>u_ID := ''u'', u_Version := - 3, u_ResourceChanges := [(''a'', 2)]\<rparr>)"
  using documents_roundtrip [of zero_stack "zero_update\<lparr>u_ID := ''u'', u_Version := - 3, u_ResourceChanges := [(''a'', 2)]\<rparr>" zero_lock]
  by (simp add: zero_stack_def zero_update_def sm_wf_def)

end
