(* ===== verification/S3_Client.thy ===== *)
theory S3_Client
  imports Store "HOL-Library.Countable"
begin

text \<open>
  The interface between the store and the world it runs in. The AWS S3 service and its SDK are
  not part of the repository: a routine of the store is modelled as a \<^emph>\<open>program\<close>, a tree whose
  inner nodes are the requests that the routine sends (to the bucket, the clock or the random
  number generator) and whose branches say how it goes on for each possible reply. What the
  replies are is a parameter, a \<^emph>\<open>handler\<close> over a world of any type; what the code may rely on
  about it is stated by two locales: \<open>s3_service\<close> for any number of concurrent clients
  and faulty replies, \<open>s3_ideal\<close> for one client and a service without faults.
\<close>

section \<open>Objects, requests and programs\<close>

text \<open>The body of an object: a JSON text, or bytes that are not one.\<close>

datatype body = Doc json | Blob

text \<open>A per-key failure in the reply to \<^verbatim>\<open>DeleteObjects\<close>: key, code and message.\<close>

type_synonym del_error = "string \<times> string \<times> string"

datatype 'a prog =
    Return 'a
  | GetObject string "s3_error + body \<times> string \<Rightarrow> 'a prog"
      \<comment> \<open>key; the body and its ETag\<close>
  | PutObject string body bool "string option" "s3_error + string \<Rightarrow> 'a prog"
      \<comment> \<open>key, body, \<^verbatim>\<open>If-None-Match: *\<close>, \<^verbatim>\<open>If-Match\<close>; the new ETag\<close>
  | DeleteObject string string "s3_error + unit \<Rightarrow> 'a prog"
      \<comment> \<open>key, \<^verbatim>\<open>If-Match\<close>\<close>
  | DeleteObjects "string list" "s3_error + del_error list \<Rightarrow> 'a prog"
  | ListObjects string "string list list \<times> s3_error option \<Rightarrow> 'a prog"
      \<comment> \<open>prefix; the pages that the SDK's paginator yields and the failure that ends them, if any.
        The node stands for the whole loop over the pages, one request each; that the service
        ends a listing at some page is assumed\<close>
  | TimeNow "time \<Rightarrow> 'a prog"
  | RandRead nat "string \<Rightarrow> 'a prog"

text \<open>Calling a routine and going on with its result.\<close>

primrec call :: "'a prog \<Rightarrow> ('a \<Rightarrow> 'b prog) \<Rightarrow> 'b prog" where
  "call (Return x) g = g x"
| "call (GetObject k f) g = GetObject k (\<lambda>r. call (f r) g)"
| "call (PutObject k b inm im f) g = PutObject k b inm im (\<lambda>r. call (f r) g)"
| "call (DeleteObject k im f) g = DeleteObject k im (\<lambda>r. call (f r) g)"
| "call (DeleteObjects ks f) g = DeleteObjects ks (\<lambda>r. call (f r) g)"
| "call (ListObjects p f) g = ListObjects p (\<lambda>r. call (f r) g)"
| "call (TimeNow f) g = TimeNow (\<lambda>r. call (f r) g)"
| "call (RandRead n f) g = RandRead n (\<lambda>r. call (f r) g)"

text \<open>Go's \<^verbatim>\<open>x, err := f(); if err != nil { return err }\<close>.\<close>

definition check :: "('e + 'a) prog \<Rightarrow> ('a \<Rightarrow> ('e + 'b) prog) \<Rightarrow> ('e + 'b) prog" where
  "check p g = call p (\<lambda>r. case r of Inl e \<Rightarrow> Return (Inl e) | Inr x \<Rightarrow> g x)"

lemma call_assoc: "call (call p f) g = call p (\<lambda>x. call (f x) g)"
  by (induction p) simp_all

lemma call_Return [simp]: "call p Return = p"
  by (induction p) simp_all

section \<open>Running a program\<close>

record 'w handler =
  h_get :: "string \<Rightarrow> 'w \<Rightarrow> (s3_error + body \<times> string) \<times> 'w"
  h_put :: "string \<Rightarrow> body \<Rightarrow> bool \<Rightarrow> string option \<Rightarrow> 'w \<Rightarrow> (s3_error + string) \<times> 'w"
  h_delete :: "string \<Rightarrow> string \<Rightarrow> 'w \<Rightarrow> (s3_error + unit) \<times> 'w"
  h_delete_many :: "string list \<Rightarrow> 'w \<Rightarrow> (s3_error + del_error list) \<times> 'w"
  h_list :: "string \<Rightarrow> 'w \<Rightarrow> (string list list \<times> s3_error option) \<times> 'w"
  h_now :: "'w \<Rightarrow> time \<times> 'w"
  h_rand :: "nat \<Rightarrow> 'w \<Rightarrow> string \<times> 'w"

primrec run :: "'w handler \<Rightarrow> 'a prog \<Rightarrow> 'w \<Rightarrow> 'a \<times> 'w" where
  "run h (Return x) = (\<lambda>w. (x, w))"
| "run h (GetObject k f) = (\<lambda>w. case h_get h k w of (r, w') \<Rightarrow> run h (f r) w')"
| "run h (PutObject k b inm im f) = (\<lambda>w. case h_put h k b inm im w of (r, w') \<Rightarrow> run h (f r) w')"
| "run h (DeleteObject k im f) = (\<lambda>w. case h_delete h k im w of (r, w') \<Rightarrow> run h (f r) w')"
| "run h (DeleteObjects ks f) = (\<lambda>w. case h_delete_many h ks w of (r, w') \<Rightarrow> run h (f r) w')"
| "run h (ListObjects p f) = (\<lambda>w. case h_list h p w of (r, w') \<Rightarrow> run h (f r) w')"
| "run h (TimeNow f) = (\<lambda>w. case h_now h w of (r, w') \<Rightarrow> run h (f r) w')"
| "run h (RandRead n f) = (\<lambda>w. case h_rand h n w of (r, w') \<Rightarrow> run h (f r) w')"

lemma run_call [simp]:
  "run h (call p g) w = (case run h p w of (x, w') \<Rightarrow> run h (g x) w')"
  by (induction p arbitrary: w) (simp_all split: prod.split)

lemma run_check [simp]:
  "run h (check p g) w =
     (case run h p w of (r, w') \<Rightarrow> (case r of Inl e \<Rightarrow> (Inl e, w') | Inr x \<Rightarrow> run h (g x) w'))"
  by (simp add: check_def split: prod.split sum.split)

section \<open>One request at a time\<close>

text \<open>The reply to the next request of a program; a finished program stays as it is.\<close>

primrec step :: "'w handler \<Rightarrow> 'a prog \<Rightarrow> 'w \<Rightarrow> 'a prog \<times> 'w" where
  "step h (Return x) = (\<lambda>w. (Return x, w))"
| "step h (GetObject k f) = (\<lambda>w. case h_get h k w of (r, w') \<Rightarrow> (f r, w'))"
| "step h (PutObject k b inm im f) = (\<lambda>w. case h_put h k b inm im w of (r, w') \<Rightarrow> (f r, w'))"
| "step h (DeleteObject k im f) = (\<lambda>w. case h_delete h k im w of (r, w') \<Rightarrow> (f r, w'))"
| "step h (DeleteObjects ks f) = (\<lambda>w. case h_delete_many h ks w of (r, w') \<Rightarrow> (f r, w'))"
| "step h (ListObjects p f) = (\<lambda>w. case h_list h p w of (r, w') \<Rightarrow> (f r, w'))"
| "step h (TimeNow f) = (\<lambda>w. case h_now h w of (r, w') \<Rightarrow> (f r, w'))"
| "step h (RandRead n f) = (\<lambda>w. case h_rand h n w of (r, w') \<Rightarrow> (f r, w'))"

lemma run_step: "run h p w = (case step h p w of (p', w') \<Rightarrow> run h p' w')"
  by (cases p) (simp_all split: prod.split)

section \<open>The writes a program may issue\<close>

text \<open>
  A \<^emph>\<open>policy\<close> says what a reply may tell a client and which writes are permitted, given the
  clock readings \<open>T\<close> that the client has made so far. \<open>wp P p T Q\<close>: whatever replies
  \<open>p\<close> receives, within what \<open>P\<close> says of replies, each write it issues is permitted by
  \<open>P\<close>, and \<open>Q\<close> holds of its clock readings and its result.
\<close>

record policy =
  may_read :: "string \<Rightarrow> body \<Rightarrow> string \<Rightarrow> bool"
  may_put :: "time set \<Rightarrow> string \<Rightarrow> body \<Rightarrow> bool \<Rightarrow> string option \<Rightarrow> bool"
  may_delete :: "time set \<Rightarrow> string \<Rightarrow> string \<Rightarrow> bool"
  may_delete_many :: "string list \<Rightarrow> bool"

primrec wp :: "policy \<Rightarrow> 'a prog \<Rightarrow> time set \<Rightarrow> (time set \<Rightarrow> 'a \<Rightarrow> bool) \<Rightarrow> bool" where
  "wp P (Return x) = (\<lambda>T Q. Q T x)"
| "wp P (GetObject k f) = (\<lambda>T Q. (\<forall>e. wp P (f (Inl e)) T Q) \<and>
     (\<forall>b e. may_read P k b e \<longrightarrow> wp P (f (Inr (b, e))) T Q))"
| "wp P (PutObject k b inm im f) = (\<lambda>T Q. may_put P T k b inm im \<and> (\<forall>r. wp P (f r) T Q))"
| "wp P (DeleteObject k im f) = (\<lambda>T Q. may_delete P T k im \<and> (\<forall>r. wp P (f r) T Q))"
| "wp P (DeleteObjects ks f) = (\<lambda>T Q. may_delete_many P ks \<and> (\<forall>r. wp P (f r) T Q))"
| "wp P (ListObjects p f) = (\<lambda>T Q. \<forall>pages e.
     list_all (\<lambda>k. HasPrefix k p) (concat pages) \<longrightarrow> wp P (f (pages, e)) T Q)"
| "wp P (TimeNow f) = (\<lambda>T Q. \<forall>t. wp P (f t) (insert t T) Q)"
| "wp P (RandRead n f) = (\<lambda>T Q. \<forall>s. length s = n \<longrightarrow> wp P (f s) T Q)"

lemma wp_call [simp]: "wp P (call p g) T Q \<longleftrightarrow> wp P p T (\<lambda>T' x. wp P (g x) T' Q)"
  by (induction p arbitrary: T) simp_all

lemma wp_check [simp]:
  "wp P (check p g) T Q \<longleftrightarrow>
     wp P p T (\<lambda>T' r. case r of Inl e \<Rightarrow> Q T' (Inl e) | Inr x \<Rightarrow> wp P (g x) T' Q)"
proof -
  have "(\<lambda>T' r. wp P (case r of Inl e \<Rightarrow> Return (Inl e) | Inr x \<Rightarrow> g x) T' Q) =
      (\<lambda>T' r. case r of Inl e \<Rightarrow> Q T' (Inl e) | Inr x \<Rightarrow> wp P (g x) T' Q)"
    by (auto simp: fun_eq_iff split: sum.split)
  then show ?thesis by (simp add: check_def)
qed

lemma wp_mono:
  assumes "wp P p T Q" and "\<And>T' x. T \<subseteq> T' \<Longrightarrow> Q T' x \<Longrightarrow> R T' x"
  shows "wp P p T R"
  using assms
proof (induction p arbitrary: T)
  case (TimeNow f)
  then show ?case by simp (meson insert_subset rangeI)
qed auto

section \<open>The service, with any number of clients and with faults\<close>

text \<open>
  What the store relies on in every execution. \<open>objs w\<close> are the objects of the bucket with
  their ETags, \<open>clock w\<close> is the true time. A request may fail at any time, a failed write may
  or may not have taken effect (whatever the error says), listings may be stale; but a successful read returns
  the object as it is stored, a conditional write takes effect only if its condition holds at
  that moment, and the ETag of an object determines its content (\<open>content\<close>), so that an
  \<^verbatim>\<open>If-Match\<close> that succeeds finds the very content that was read with that ETag. Clocks
  are never ahead of the true time.
\<close>

locale s3_service =
  fixes h :: "'w handler"
    and objs :: "'w \<Rightarrow> string \<Rightarrow> (body \<times> string) option"
    and content :: "string \<Rightarrow> string \<Rightarrow> body"
    and clock :: "'w \<Rightarrow> time"
  assumes etag_content: "objs w k = Some (b, e) \<Longrightarrow> content k e = b"
    and serve_get: "h_get h k w = (r, w') \<Longrightarrow>
      objs w' = objs w \<and> clock w \<le> clock w' \<and> (\<forall>b e. r = Inr (b, e) \<longrightarrow> objs w k = Some (b, e))"
    and serve_put: "h_put h k b inm im w = (rp, w') \<Longrightarrow>
      clock w \<le> clock w' \<and> (objs w' = objs w \<or>
        (\<exists>e. objs w' = (objs w)(k \<mapsto> (b, e))) \<and> (inm \<longrightarrow> objs w k = None) \<and>
        (\<forall>e0. im = Some e0 \<longrightarrow> (\<exists>b0. objs w k = Some (b0, e0))))"
    and serve_delete: "h_delete h k e w = (rd, w') \<Longrightarrow>
      clock w \<le> clock w' \<and> (objs w' = objs w \<or>
        objs w' = (objs w)(k := None) \<and> (\<exists>b0. objs w k = Some (b0, e)))"
    and serve_delete_many: "h_delete_many h ks w = (rm, w') \<Longrightarrow>
      clock w \<le> clock w' \<and> (\<exists>D \<subseteq> set ks. objs w' = (objs w) |` (- D))"
    and serve_list: "h_list h p w = (rl, w') \<Longrightarrow>
      objs w' = objs w \<and> clock w \<le> clock w' \<and> list_all (\<lambda>k. HasPrefix k p) (concat (fst rl))"
    and serve_now: "h_now h w = (t, w') \<Longrightarrow> objs w' = objs w \<and> clock w \<le> clock w' \<and> t \<le> clock w'"
    and serve_rand: "h_rand h n w = (s, w') \<Longrightarrow>
      objs w' = objs w \<and> clock w \<le> clock w' \<and> length s = n"
begin

text \<open>
  The effect of one request of a client whose program only issues permitted writes: the rest of
  the program still does, and the bucket changes by a permitted write, if at all.
\<close>

definition permitted :: "policy \<Rightarrow> time set \<Rightarrow> 'w \<Rightarrow> 'w \<Rightarrow> bool" where
  "permitted P T w w' \<longleftrightarrow> objs w' = objs w \<or>
     (\<exists>k b inm im e. may_put P T k b inm im \<and> objs w' = (objs w)(k \<mapsto> (b, e)) \<and>
        (inm \<longrightarrow> objs w k = None) \<and> (\<forall>e0. im = Some e0 \<longrightarrow> objs w k = Some (content k e0, e0))) \<or>
     (\<exists>k e. may_delete P T k e \<and> objs w' = (objs w)(k := None) \<and> objs w k = Some (content k e, e)) \<or>
     (\<exists>ks D. may_delete_many P ks \<and> D \<subseteq> set ks \<and> objs w' = (objs w) |` (- D))"

lemma step_permitted:
  assumes wp: "wp P p T Q" and reads: "may_read P = (\<lambda>k b e. content k e = b)"
    and past: "\<forall>t \<in> T. t \<le> clock w" and step: "step h p w = (p', w')"
  shows "permitted P T w w' \<and> clock w \<le> clock w' \<and>
     (\<exists>T'. wp P p' T' Q \<and> T \<subseteq> T' \<and> (\<forall>t \<in> T'. t \<le> clock w'))"
proof (cases p)
  case (Return x)
  with assms show ?thesis by (auto simp: permitted_def)
next
  case (GetObject k f)
  with step obtain r where r: "h_get h k w = (r, w')" "p' = f r" by (auto split: prod.splits)
  have "wp P (f r) T Q"
    using wp serve_get [OF r(1)] reads GetObject etag_content [of w k]
    by (cases r) (auto simp: all_conj_distrib)
  with r serve_get [OF r(1)] past show ?thesis by (auto simp: permitted_def intro: order_trans)
next
  case (PutObject k b inm im f)
  with step obtain r where r: "h_put h k b inm im w = (r, w')" "p' = f r" by (auto split: prod.splits)
  have may: "may_put P T k b inm im" using wp PutObject by simp
  have "\<forall>e0. im = Some e0 \<longrightarrow> objs w k = Some (content k e0, e0)" if "objs w' \<noteq> objs w"
    using that serve_put [OF r(1)] etag_content [of w k] by auto
  with may serve_put [OF r(1)] have "permitted P T w w'" unfolding permitted_def by metis
  with wp PutObject r serve_put [OF r(1)] past show ?thesis by (auto intro: order_trans)
next
  case (DeleteObject k e f)
  with step obtain r where r: "h_delete h k e w = (r, w')" "p' = f r" by (auto split: prod.splits)
  have may: "may_delete P T k e" using wp DeleteObject by simp
  have "objs w k = Some (content k e, e)" if "objs w' \<noteq> objs w"
    using that serve_delete [OF r(1)] etag_content [of w k] by auto
  with may serve_delete [OF r(1)] have "permitted P T w w'" unfolding permitted_def by metis
  with wp DeleteObject r serve_delete [OF r(1)] past show ?thesis by (auto intro: order_trans)
next
  case (DeleteObjects ks f)
  with step obtain r where r: "h_delete_many h ks w = (r, w')" "p' = f r" by (auto split: prod.splits)
  have may: "may_delete_many P ks" using wp DeleteObjects by simp
  with serve_delete_many [OF r(1)] have "permitted P T w w'" unfolding permitted_def by metis
  with wp DeleteObjects r serve_delete_many [OF r(1)] past show ?thesis by (auto intro: order_trans)
next
  case (ListObjects q f)
  with step obtain r where r: "h_list h q w = (r, w')" "p' = f r" by (auto split: prod.splits)
  have "wp P (f r) T Q"
    using wp serve_list [OF r(1)] ListObjects by (cases r) auto
  with r serve_list [OF r(1)] past show ?thesis by (auto simp: permitted_def intro: order_trans)
next
  case (TimeNow f)
  with step obtain t where t: "h_now h w = (t, w')" "p' = f t" by (auto split: prod.splits)
  have "wp P (f t) (insert t T) Q" using wp TimeNow by simp
  moreover have "\<forall>x \<in> insert t T. x \<le> clock w'"
    using serve_now [OF t(1)] past by (auto intro: order_trans)
  ultimately show ?thesis
    using t serve_now [OF t(1)] by (auto simp: permitted_def)
next
  case (RandRead n f)
  with step obtain s where s: "h_rand h n w = (s, w')" "p' = f s" by (auto split: prod.splits)
  have "wp P (f s) T Q" using wp RandRead serve_rand [OF s(1)] by simp
  with s serve_rand [OF s(1)] past show ?thesis by (auto simp: permitted_def intro: order_trans)
qed

end

section \<open>An ideal service with a single client\<close>

text \<open>
  The contract under which the results of the routines are computed: every request is answered
  from the objects \<open>objs w\<close>, \<open>store k v w\<close> is the world after object \<open>k\<close> was set to
  \<open>v\<close> (or removed), the ETag is an injective function of the body, listings are exact,
  the clock stands still and the random generator changes nothing else.
\<close>

locale s3_ideal =
  fixes h :: "'w handler"
    and objs :: "'w \<Rightarrow> string \<Rightarrow> body option"
    and store :: "string \<Rightarrow> body option \<Rightarrow> 'w \<Rightarrow> 'w"
    and etag :: "body \<Rightarrow> string"
    and pages :: "string \<Rightarrow> 'w \<Rightarrow> string list list"
    and clock :: "'w \<Rightarrow> time"
    and rand :: "nat \<Rightarrow> 'w \<Rightarrow> string"
    and reseed :: "nat \<Rightarrow> 'w \<Rightarrow> 'w"
    and nf pf :: string
  assumes etag_inject: "etag b = etag b' \<longleftrightarrow> b = b'"
    and etag_nonempty: "etag b \<noteq> ''''"
    and objs_store: "objs (store k v w) = (objs w)(k := v)"
    and clock_store: "clock (store k v w) = clock w"
    and objs_reseed: "objs (reseed n w) = objs w"
    and clock_reseed: "clock (reseed n w) = clock w"
    and ideal_get: "h_get h k w =
      ((case objs w k of None \<Rightarrow> Inl (NoSuchKey nf) | Some b \<Rightarrow> Inr (b, etag b)), w)"
    and ideal_put: "h_put h k b inm im w =
      (if inm \<and> objs w k \<noteq> None then (Inl (ResponseError 412 pf), w)
       else case im of None \<Rightarrow> (Inr (etag b), store k (Some b) w)
         | Some e \<Rightarrow> (case objs w k of None \<Rightarrow> (Inl (NoSuchKey nf), w)
             | Some b0 \<Rightarrow> if etag b0 = e then (Inr (etag b), store k (Some b) w)
                 else (Inl (ResponseError 412 pf), w)))"
    and ideal_delete: "h_delete h k e w =
      (case objs w k of None \<Rightarrow> (Inl (NoSuchKey nf), w)
       | Some b0 \<Rightarrow> if etag b0 = e then (Inr (), store k None w)
           else (Inl (ResponseError 412 pf), w))"
    and ideal_delete_many: "h_delete_many h ks w = (Inr [], fold (\<lambda>k. store k None) ks w)"
    and ideal_list: "h_list h p w = ((pages p w, None), w)"
    and pages_exact: "set (concat (pages p w)) = {k. objs w k \<noteq> None \<and> HasPrefix k p}"
    and pages_distinct: "distinct (concat (pages p w))"
    and ideal_now: "h_now h w = (clock w, w)"
    and ideal_rand: "h_rand h n w = (rand n w, reseed n w)"
    and rand_length: "length (rand n w) = n"
begin

lemmas ideal_simps [simp] = etag_inject etag_nonempty objs_store clock_store objs_reseed
  clock_reseed ideal_get ideal_put ideal_delete ideal_delete_many ideal_list ideal_now ideal_rand

lemma pages_prefix: "ks \<in> set (pages p w) \<Longrightarrow> k \<in> set ks \<Longrightarrow> HasPrefix k p"
  using pages_exact [of p w] by auto

lemma objs_fold_delete [simp]:
  "objs (fold (\<lambda>k. store k None) ks w) k = (if k \<in> set ks then None else objs w k)"
  by (induction ks arbitrary: w) auto

lemma clock_fold_delete [simp]: "clock (fold (\<lambda>k. store k None) ks w) = clock w"
  by (induction ks arbitrary: w) auto

end

text \<open>
  An ideal service is a service: its objects carry their ETags, and the content that belongs to
  an ETag is the body it was computed from.
\<close>

definition with_etag :: "(body \<Rightarrow> string) \<Rightarrow> (string \<Rightarrow> body option) \<Rightarrow> string \<Rightarrow> (body \<times> string) option" where
  "with_etag etag m k = map_option (\<lambda>b. (b, etag b)) (m k)"

definition etag_body :: "(body \<Rightarrow> string) \<Rightarrow> string \<Rightarrow> string \<Rightarrow> body" where
  "etag_body etag k e = inv etag e"

lemma with_etag_upd [simp]:
  "with_etag etag (m(k := v)) = (with_etag etag m)(k := map_option (\<lambda>b. (b, etag b)) v)"
  by (auto simp: with_etag_def fun_eq_iff)

sublocale s3_ideal \<subseteq> svc: s3_service h "\<lambda>w. with_etag etag (objs w)" "etag_body etag" clock
proof
  show "etag_body etag k e = b" if "with_etag etag (objs w) k = Some (b, e)" for w k b e
    using that by (auto simp: with_etag_def etag_body_def inv_f_f inj_def)
next
  fix ks w rm w'
  assume "h_delete_many h ks w = (rm, w')"
  then have w': "w' = fold (\<lambda>k. store k None) ks w" by simp
  have "with_etag etag (objs w') = with_etag etag (objs w) |` (- set ks)"
    by (rule ext) (simp add: w' with_etag_def restrict_map_def)
  then show "clock w \<le> clock w' \<and>
      (\<exists>D \<subseteq> set ks. with_etag etag (objs w') = with_etag etag (objs w) |` (- D))"
    by (auto simp: w')
qed (auto simp: with_etag_def list_all_iff rand_length dest: pages_prefix split: option.splits if_splits)

section \<open>A reference bucket\<close>

text \<open>
  A concrete world that satisfies both contracts: objects in key order, a fixed clock, and
  random bytes computed from a counter. It shows that the contracts can be met, and the
  witnesses run on it. ETags number the countably many bodies.
\<close>

instance json :: countable
  by countable_datatype

instance body :: countable
  by countable_datatype

record bucket =
  bk_objects :: "body smap"
  bk_clock :: time
  bk_seed :: nat

definition ref_etag :: "body \<Rightarrow> string" where
  "ref_etag b = replicate (Suc (to_nat b)) CHR ''e''"

definition ref_objs :: "bucket \<Rightarrow> string \<Rightarrow> body option" where
  "ref_objs w k = map_of (bk_objects w) k"

definition ref_store :: "string \<Rightarrow> body option \<Rightarrow> bucket \<Rightarrow> bucket" where
  "ref_store k v w = w\<lparr>bk_objects := (case v of
     Some b \<Rightarrow> sm_put k b (bk_objects w)
   | None \<Rightarrow> filter (\<lambda>(k', b). k' \<noteq> k) (bk_objects w))\<rparr>"

definition ref_pages :: "string \<Rightarrow> bucket \<Rightarrow> string list list" where
  "ref_pages p w = [remdups (filter (\<lambda>k. HasPrefix k p) (map fst (bk_objects w)))]"

definition ref_rand :: "nat \<Rightarrow> bucket \<Rightarrow> string" where
  "ref_rand n w = map (\<lambda>i. char_of (bk_seed w + i)) [0..<n]"

definition ref_reseed :: "nat \<Rightarrow> bucket \<Rightarrow> bucket" where
  "ref_reseed n w = w\<lparr>bk_seed := Suc (bk_seed w)\<rparr>"

definition ref_service :: "bucket handler" where
  "ref_service = \<lparr>
     h_get = (\<lambda>k w. ((case ref_objs w k of None \<Rightarrow> Inl (NoSuchKey ''NoSuchKey'')
        | Some b \<Rightarrow> Inr (b, ref_etag b)), w)),
     h_put = (\<lambda>k b inm im w.
        if inm \<and> ref_objs w k \<noteq> None then (Inl (ResponseError 412 ''PreconditionFailed''), w)
        else case im of None \<Rightarrow> (Inr (ref_etag b), ref_store k (Some b) w)
          | Some e \<Rightarrow> (case ref_objs w k of None \<Rightarrow> (Inl (NoSuchKey ''NoSuchKey''), w)
              | Some b0 \<Rightarrow> if ref_etag b0 = e then (Inr (ref_etag b), ref_store k (Some b) w)
                  else (Inl (ResponseError 412 ''PreconditionFailed''), w))),
     h_delete = (\<lambda>k e w. case ref_objs w k of None \<Rightarrow> (Inl (NoSuchKey ''NoSuchKey''), w)
        | Some b0 \<Rightarrow> if ref_etag b0 = e then (Inr (), ref_store k None w)
            else (Inl (ResponseError 412 ''PreconditionFailed''), w)),
     h_delete_many = (\<lambda>ks w. (Inr [], fold (\<lambda>k. ref_store k None) ks w)),
     h_list = (\<lambda>p w. ((ref_pages p w, None), w)),
     h_now = (\<lambda>w. (bk_clock w, w)),
     h_rand = (\<lambda>n w. (ref_rand n w, ref_reseed n w))\<rparr>"

lemma map_of_filter_key: "map_of (filter (\<lambda>(k', b). k' \<noteq> k) m) = (map_of m)(k := None)"
  by (induction m) (auto simp: fun_eq_iff)

lemma ref_objs_store: "ref_objs (ref_store k v w) = (ref_objs w)(k := v)"
  by (auto simp: ref_objs_def ref_store_def fun_eq_iff map_of_filter_key split: option.split)

lemma ref_pages_exact: "set (concat (ref_pages p w)) = {k. ref_objs w k \<noteq> None \<and> HasPrefix k p}"
  by (auto simp: ref_pages_def ref_objs_def domIff [symmetric] dom_map_of_conv_image_fst
      simp del: not_None_eq)

interpretation ref: s3_ideal ref_service ref_objs ref_store ref_etag ref_pages bk_clock ref_rand
  ref_reseed "''NoSuchKey''" "''PreconditionFailed''"
proof
  show "ref_etag b = ref_etag b' \<longleftrightarrow> b = b'" for b b'
  proof
    assume "ref_etag b = ref_etag b'"
    then have "length (ref_etag b) = length (ref_etag b')" by simp
    then show "b = b'" by (simp add: ref_etag_def)
  qed simp
qed (simp_all only: ref_pages_exact, simp_all add: ref_objs_store ref_service_def ref_etag_def ref_rand_def,
  simp_all add: ref_store_def ref_reseed_def ref_objs_def ref_pages_def fun_eq_iff)

end
