(* ===== verification/S3_Keys.thy ===== *)
theory S3_Keys
  imports S3_Client
begin

text \<open>
  The key layout of the bucket (\<^verbatim>\<open>internal/store/s3store.go\<close>, the key functions). Path
  segments that pass the API's validation contain no slash; the lemmas show that for such
  segments the layout keeps different stacks, and the different documents of one stack, apart.
  SHA-256 is a parameter: \<open>sha\<close> gives the hexadecimal digest of a deployment's text.
\<close>

section \<open>Keys\<close>

definition stackPrefix :: "string \<Rightarrow> string \<Rightarrow> string \<Rightarrow> string" where
  "stackPrefix org project stack = org @ ''/'' @ project @ ''/'' @ stack @ ''/''"

definition stackKey :: "string \<Rightarrow> string \<Rightarrow> string \<Rightarrow> string" where
  "stackKey org project stack = stackPrefix org project stack @ ''stack.json''"

definition lockKey :: "string \<Rightarrow> string \<Rightarrow> string \<Rightarrow> string" where
  "lockKey org project stack = stackPrefix org project stack @ ''lock.json''"

definition stackDataPrefix :: "string \<Rightarrow> string \<Rightarrow> string \<Rightarrow> string \<Rightarrow> string" where
  "stackDataPrefix org project stack incarnation =
     stackPrefix org project stack @
     (if incarnation \<noteq> '''' then ''incarnations/'' @ incarnation @ ''/'' else '''')"

definition latestCheckpointKey :: "string \<Rightarrow> string \<Rightarrow> string \<Rightarrow> string \<Rightarrow> string" where
  "latestCheckpointKey org project stack incarnation =
     stackDataPrefix org project stack incarnation @ ''checkpoints/latest.json''"

definition historyCheckpointKey :: "string \<Rightarrow> string \<Rightarrow> string \<Rightarrow> string \<Rightarrow> int64 \<Rightarrow> string" where
  "historyCheckpointKey org project stack incarnation version =
     stackDataPrefix org project stack incarnation @
     ''checkpoints/history/'' @ Itoa (sint version) @ ''.json''"

definition checkpointObjectKey ::
  "(json \<Rightarrow> string) \<Rightarrow> string \<Rightarrow> string \<Rightarrow> string \<Rightarrow> string \<Rightarrow> json \<Rightarrow> string" where
  "checkpointObjectKey sha org project stack incarnation deployment =
     stackDataPrefix org project stack incarnation @ ''checkpoints/objects/'' @ sha deployment @ ''.json''"

definition updateKey :: "string \<Rightarrow> string \<Rightarrow> string \<Rightarrow> string \<Rightarrow> string \<Rightarrow> string" where
  "updateKey org project stack incarnation updateID =
     stackDataPrefix org project stack incarnation @ ''updates/'' @ updateID @ ''.json''"

section \<open>Keys of different stacks differ\<close>

definition no_slash :: "string \<Rightarrow> bool" where
  "no_slash s \<longleftrightarrow> CHR ''/'' \<notin> set s"

text \<open>A stack reference whose three segments are free of slashes.\<close>

definition ref_ok :: "string \<Rightarrow> string \<Rightarrow> string \<Rightarrow> bool" where
  "ref_ok org project stack \<longleftrightarrow> no_slash org \<and> no_slash project \<and> no_slash stack"

lemma segment_split:
  assumes "no_slash a" "no_slash b" "a @ CHR ''/'' # x = b @ CHR ''/'' # y"
  shows "a = b \<and> x = y"
  using assms
proof (induction a arbitrary: b)
  case Nil
  then show ?case by (cases b) (auto simp: no_slash_def)
next
  case (Cons c a)
  then show ?case by (cases b) (auto simp: no_slash_def)
qed

lemma stackPrefix_split:
  assumes "ref_ok o1 p1 s1" "ref_ok o2 p2 s2"
    and "stackPrefix o1 p1 s1 @ x = stackPrefix o2 p2 s2 @ y"
  shows "o1 = o2 \<and> p1 = p2 \<and> s1 = s2 \<and> x = y"
proof -
  have *: "o1 @ CHR ''/'' # (p1 @ CHR ''/'' # (s1 @ CHR ''/'' # x)) =
      o2 @ CHR ''/'' # (p2 @ CHR ''/'' # (s2 @ CHR ''/'' # y))"
    using assms(3) by (simp add: stackPrefix_def)
  from segment_split [OF _ _ *] assms(1,2)
  have 1: "o1 = o2" and **: "p1 @ CHR ''/'' # (s1 @ CHR ''/'' # x) = p2 @ CHR ''/'' # (s2 @ CHR ''/'' # y)"
    by (auto simp: ref_ok_def)
  from segment_split [OF _ _ **] assms(1,2)
  have 2: "p1 = p2" and ***: "s1 @ CHR ''/'' # x = s2 @ CHR ''/'' # y"
    by (auto simp: ref_ok_def)
  from segment_split [OF _ _ ***] assms(1,2) show ?thesis
    using 1 2 by (auto simp: ref_ok_def)
qed

lemma HasPrefix_stackPrefix:
  assumes "ref_ok o1 p1 s1" "ref_ok o2 p2 s2"
    and "HasPrefix (stackPrefix o1 p1 s1 @ x) (stackPrefix o2 p2 s2)"
  shows "o1 = o2 \<and> p1 = p2 \<and> s1 = s2"
  using assms(3) by (rule HasPrefixE) (use stackPrefix_split [OF assms(1,2)] in blast)

lemma stackDataPrefix_extends:
  "\<exists>x. stackDataPrefix org project stack inc = stackPrefix org project stack @ x"
  by (auto simp: stackDataPrefix_def)

text \<open>The document of a stack is not below the data prefix of any incarnation.\<close>

lemma stackKey_inject:
  "ref_ok o1 p1 s1 \<Longrightarrow> ref_ok o2 p2 s2 \<Longrightarrow> stackKey o1 p1 s1 = stackKey o2 p2 s2 \<longleftrightarrow>
     o1 = o2 \<and> p1 = p2 \<and> s1 = s2"
  unfolding stackKey_def using stackPrefix_split by blast

lemma stackKey_not_data:
  assumes "ref_ok o1 p1 s1" "ref_ok o2 p2 s2" "inc \<noteq> ''''"
  shows "stackKey o1 p1 s1 \<noteq> stackDataPrefix o2 p2 s2 inc @ x"
proof
  assume "stackKey o1 p1 s1 = stackDataPrefix o2 p2 s2 inc @ x"
  then have "stackPrefix o1 p1 s1 @ ''stack.json'' =
      stackPrefix o2 p2 s2 @ (''incarnations/'' @ inc @ ''/'' @ x)"
    using assms(3) by (simp add: stackKey_def stackDataPrefix_def)
  from stackPrefix_split [OF assms(1,2) this] show False by simp
qed

text \<open>Nor is it any of the other objects that the store writes, in an incarnation or outside.\<close>

lemma stackKey_neq_tail:
  assumes "ref_ok o1 p1 s1" "ref_ok o2 p2 s2" "x = [] \<or> hd x \<noteq> CHR ''s''"
  shows "stackKey o1 p1 s1 \<noteq> stackPrefix o2 p2 s2 @ x"
  using stackPrefix_split [OF assms(1,2)] assms(3) unfolding stackKey_def by fastforce

lemma stackKey_not_object:
  assumes "ref_ok o1 p1 s1" "ref_ok o2 p2 s2"
  shows "stackKey o1 p1 s1 \<noteq> lockKey o2 p2 s2"
    and "stackKey o1 p1 s1 \<noteq> latestCheckpointKey o2 p2 s2 inc"
    and "stackKey o1 p1 s1 \<noteq> historyCheckpointKey o2 p2 s2 inc v"
    and "stackKey o1 p1 s1 \<noteq> checkpointObjectKey sha o2 p2 s2 inc d"
    and "stackKey o1 p1 s1 \<noteq> updateKey o2 p2 s2 inc u"
  by (simp_all add: lockKey_def latestCheckpointKey_def historyCheckpointKey_def
      checkpointObjectKey_def updateKey_def stackDataPrefix_def
      stackKey_neq_tail [OF assms])

text \<open>
  C26. Isolation of stacks in the bucket. For path segments without a slash, no key that the
  store uses for one stack (document, lock, checkpoints, update records, of any incarnation)
  is a key of another stack: both would have to start with the same prefix.
\<close>

theorem keys_of_stacks_disjoint:
  assumes "ref_ok o1 p1 s1" "ref_ok o2 p2 s2" "(o1, p1, s1) \<noteq> (o2, p2, s2)"
    and "k1 \<in> {stackKey o1 p1 s1, lockKey o1 p1 s1, latestCheckpointKey o1 p1 s1 i1,
      historyCheckpointKey o1 p1 s1 i1 v1, checkpointObjectKey sha o1 p1 s1 i1 d1, updateKey o1 p1 s1 i1 u1}"
    and "k2 \<in> {stackKey o2 p2 s2, lockKey o2 p2 s2, latestCheckpointKey o2 p2 s2 i2,
      historyCheckpointKey o2 p2 s2 i2 v2, checkpointObjectKey sha o2 p2 s2 i2 d2, updateKey o2 p2 s2 i2 u2}"
  shows "k1 \<noteq> k2 \<and> \<not> HasPrefix k1 (stackPrefix o2 p2 s2)"
proof -
  have below: "\<exists>x. k = stackPrefix org project stack @ x"
    if "k \<in> {stackKey org project stack, lockKey org project stack, latestCheckpointKey org project stack i,
      historyCheckpointKey org project stack i v, checkpointObjectKey sha org project stack i d,
      updateKey org project stack i u}" for k org project stack i v d u
    using that by (auto simp: stackKey_def lockKey_def latestCheckpointKey_def historyCheckpointKey_def
        checkpointObjectKey_def updateKey_def stackDataPrefix_def)
  obtain x y where "k1 = stackPrefix o1 p1 s1 @ x" "k2 = stackPrefix o2 p2 s2 @ y"
    using below [OF assms(4)] below [OF assms(5)] by blast
  then show ?thesis
    using stackPrefix_split [OF assms(1,2)] HasPrefix_stackPrefix [OF assms(1,2), of x] assms(3) by auto
qed

theorem keys_of_stacks_disjoint_witness:
  "stackKey ''o'' ''p'' ''s'' \<noteq> updateKey ''o'' ''p'' ''t'' ''i'' ''u'' \<and>
   \<not> HasPrefix (stackKey ''o'' ''p'' ''s'') (stackPrefix ''o'' ''p'' ''t'')"
  using keys_of_stacks_disjoint [of "''o''" "''p''" "''s''" "''o''" "''p''" "''t''"
      "stackKey ''o'' ''p'' ''s''" "''i''" 0 "\<lambda>_. ''d''" JNull "''u''"
      "updateKey ''o'' ''p'' ''t'' ''i'' ''u''" "''i''" 0 JNull "''u''"]
  by (simp add: ref_ok_def no_slash_def)

end
