(* ===== verification/S3_Store.thy ===== *)
theory S3_Store
  imports S3_Keys
begin

text \<open>
  The operations of \<^verbatim>\<open>S3Store\<close> (\<^verbatim>\<open>internal/store/s3store.go\<close>), each as a program over the
  bucket, the clock and the random generator, with the requests in the order in which the code
  sends them. A retry loop \<^verbatim>\<open>for range n\<close> is recursion on the attempts that are left. Log
  output is not represented; the texts of \<^verbatim>\<open>encoding/json\<close> errors are not represented
  (\<open>json_error\<close>). \<^verbatim>\<open>sort.Slice\<close>, which may order equal elements in any way, is a stable
  sort here.
\<close>

section \<open>Requests\<close>

definition canonicalLockProtocol :: int64 where
  "canonicalLockProtocol = 1"

definition json_error :: error where
  "json_error = NewError ''json''"

text \<open>\<^verbatim>\<open>getWithETag\<close>; \<open>decode\<close> stands for the type of the argument \<^verbatim>\<open>out\<close>.\<close>

definition getWithETag :: "string \<Rightarrow> (json \<Rightarrow> 'a option) \<Rightarrow> (error + 'a \<times> string) prog" where
  "getWithETag key decode = GetObject key (\<lambda>r. case r of
      Inl (NoSuchKey t) \<Rightarrow> Return (Inl errNotFound)
    | Inl e \<Rightarrow> Return (Inl (Wrap (''get '' @ key @ '': '') (S3Error e)))
    | Inr (Blob, etag) \<Rightarrow> Return (Inl (Wrap (''decode '' @ key @ '': '') json_error))
    | Inr (Doc j, etag) \<Rightarrow> (case decode j of
        None \<Rightarrow> Return (Inl (Wrap (''decode '' @ key @ '': '') json_error))
      | Some x \<Rightarrow> Return (Inr (x, etag))))"

definition get_object :: "string \<Rightarrow> (json \<Rightarrow> 'a option) \<Rightarrow> (error + 'a) prog" where
  "get_object key decode = check (getWithETag key decode) (\<lambda>(x, etag). Return (Inr x))"

definition isNotFound :: "error \<Rightarrow> bool" where
  "isNotFound err \<longleftrightarrow> errors_Is err errNotFound \<or>
     errors_As_s3 (\<lambda>e. case e of NoSuchKey t \<Rightarrow> True | _ \<Rightarrow> False) err"

definition isPreconditionFailed :: "error \<Rightarrow> bool" where
  "isPreconditionFailed err \<longleftrightarrow>
     errors_As_s3 (\<lambda>e. case e of ResponseError n t \<Rightarrow> n = 412 | _ \<Rightarrow> False) err"

definition isConditionalConflict :: "error \<Rightarrow> bool" where
  "isConditionalConflict err \<longleftrightarrow>
     errors_As_s3 (\<lambda>e. case e of ResponseError n t \<Rightarrow> n = 409 | _ \<Rightarrow> False) err"

primrec put_attempts ::
  "nat \<Rightarrow> string \<Rightarrow> body \<Rightarrow> bool \<Rightarrow> string option \<Rightarrow> (s3_error + string) prog" where
  "put_attempts 0 key body ifNoneMatch ifMatch = PutObject key body ifNoneMatch ifMatch Return"
| "put_attempts (Suc n) key body ifNoneMatch ifMatch =
     PutObject key body ifNoneMatch ifMatch (\<lambda>r. case r of
       Inl e \<Rightarrow> if isConditionalConflict (S3Error e)
         then put_attempts n key body ifNoneMatch ifMatch else Return (Inl e)
     | Inr out \<Rightarrow> Return (Inr out))"

definition putConditional :: "string \<Rightarrow> body \<Rightarrow> bool \<Rightarrow> string \<Rightarrow> (error + string) prog" where
  "putConditional key body ifNoneMatch ifMatch =
     call (put_attempts 2 key body ifNoneMatch (if ifMatch \<noteq> '''' then Some ifMatch else None))
       (\<lambda>r. case r of Inl e \<Rightarrow> Return (Inl (Wrap (''put '' @ key @ '': '') (S3Error e)))
         | Inr out \<Rightarrow> Return (Inr out))"

definition put_object :: "string \<Rightarrow> body \<Rightarrow> bool \<Rightarrow> (error + unit) prog" where
  "put_object key body ifNoneMatch =
     check (putConditional key body ifNoneMatch '''') (\<lambda>_. Return (Inr ()))"

definition putIfMatch :: "string \<Rightarrow> body \<Rightarrow> string \<Rightarrow> (error + unit) prog" where
  "putIfMatch key body etag =
     (if etag = '''' then Return (Inl (NewError ''conditional write requires ETag''))
      else check (putConditional key body False etag) (\<lambda>_. Return (Inr ())))"

text \<open>The argument \<^verbatim>\<open>v any\<close> of \<^verbatim>\<open>putJSON\<close> is given by the result of marshalling it.\<close>

definition putJSON :: "string \<Rightarrow> json option \<Rightarrow> bool \<Rightarrow> (error + unit) prog" where
  "putJSON key v ifNoneMatch = (case v of
      None \<Rightarrow> Return (Inl (Wrap (''encode '' @ key @ '': '') json_error))
    | Some j \<Rightarrow> put_object key (Doc j) ifNoneMatch)"

definition putJSONIfMatch :: "string \<Rightarrow> json option \<Rightarrow> string \<Rightarrow> (error + unit) prog" where
  "putJSONIfMatch key v etag = (case v of
      None \<Rightarrow> Return (Inl (Wrap (''encode '' @ key @ '': '') json_error))
    | Some j \<Rightarrow> putIfMatch key (Doc j) etag)"

primrec delete_attempts :: "nat \<Rightarrow> string \<Rightarrow> string \<Rightarrow> (s3_error + unit) prog" where
  "delete_attempts 0 key etag = DeleteObject key etag Return"
| "delete_attempts (Suc n) key etag = DeleteObject key etag (\<lambda>r. case r of
      Inl e \<Rightarrow> if isConditionalConflict (S3Error e) then delete_attempts n key etag else Return (Inl e)
    | Inr u \<Rightarrow> Return (Inr u))"

definition deleteIfMatch :: "string \<Rightarrow> string \<Rightarrow> (error + unit) prog" where
  "deleteIfMatch key etag =
     (if etag = '''' then Return (Inl (NewError ''conditional delete requires ETag''))
      else call (delete_attempts 2 key etag) (\<lambda>r. case r of
          Inl e \<Rightarrow> Return (Inl (Wrap (''delete '' @ key @ '': '') (S3Error e)))
        | Inr u \<Rightarrow> Return (Inr ())))"

section \<open>Stacks\<close>

definition hex_digit :: "nat \<Rightarrow> char" where
  "hex_digit d = (if d < 10 then char_of (48 + d) else char_of (87 + d))"

definition hex :: "string \<Rightarrow> string" where
  "hex b = concat (map (\<lambda>c. [hex_digit ((of_char c :: nat) div 16), hex_digit ((of_char c :: nat) mod 16)]) b)"

definition NewUpdateID :: "string prog" where
  "NewUpdateID = RandRead 16 (\<lambda>b. Return (hex b))"

definition CreateStack :: "string \<Rightarrow> string \<Rightarrow> string \<Rightarrow> (error + stack) prog" where
  "CreateStack org project stack = TimeNow (\<lambda>now. call NewUpdateID (\<lambda>incarnation.
     let st = zero_stack\<lparr>st_Org := org, st_Project := project, st_Name := stack, st_Created := now,
           st_Incarnation := incarnation, st_LockProtocol := canonicalLockProtocol\<rparr>
     in call (putJSON (stackKey org project stack) (marshal_stack st) True) (\<lambda>r. case r of
          Inl err \<Rightarrow> if isPreconditionFailed err then Return (Inl ErrStackExists)
            else Return (Inl err)
        | Inr _ \<Rightarrow> Return (Inr st))))"

definition GetStack :: "string \<Rightarrow> string \<Rightarrow> string \<Rightarrow> (error + stack) prog" where
  "GetStack org project stack =
     call (getWithETag (stackKey org project stack) unmarshal_stack) (\<lambda>r. case r of
        Inl err \<Rightarrow> if isNotFound err then Return (Inl ErrStackNotFound) else Return (Inl err)
      | Inr (st, etag) \<Rightarrow> Return (Inr (st\<lparr>st_etag := etag\<rparr>)))"

primrec listStacks_page :: "string list \<Rightarrow> stack list \<Rightarrow> (error + stack list) prog" where
  "listStacks_page [] stacks = Return (Inr stacks)"
| "listStacks_page (key # page) stacks =
     (if \<not> HasSuffix key ''/stack.json'' then listStacks_page page stacks
      else check (get_object key unmarshal_stack) (\<lambda>st. listStacks_page page (stacks @ [st])))"

primrec listStacks_pages ::
  "string list list \<Rightarrow> stack list \<Rightarrow> (error + stack list) prog" where
  "listStacks_pages [] stacks = Return (Inr stacks)"
| "listStacks_pages (page # pages) stacks =
     check (listStacks_page page stacks) (\<lambda>stacks'. listStacks_pages pages stacks')"

definition stack_sort_name :: "stack \<Rightarrow> string" where
  "stack_sort_name st = st_Project st @ ''/'' @ st_Name st"

definition ListStacks :: "string \<Rightarrow> (error + stack list) prog" where
  "ListStacks org =
     (let pfx = (if org \<noteq> '''' then org @ ''/'' else org)
      in ListObjects pfx (\<lambda>(pages, err).
           check (listStacks_pages pages []) (\<lambda>stacks. case err of
             Some e \<Rightarrow> Return (Inl (Wrap (''list '' @ pfx @ '': '') (S3Error e)))
           | None \<Rightarrow> Return (Inr (sort_key stack_sort_name stacks)))))"

section \<open>Listing and deleting the objects of a stack\<close>

definition deletionFence :: "lock option \<Rightarrow> bool" where
  "deletionFence lock = (case lock of None \<Rightarrow> False | Some l \<Rightarrow> HasPrefix (l_UpdateID l) ''delete-'')"

definition listObjectsExcept :: "string \<Rightarrow> string list \<Rightarrow> (error + string list) prog" where
  "listObjectsExcept pfx excludedKeys = ListObjects pfx (\<lambda>(pages, err). case err of
      Some e \<Rightarrow> Return (Inl (Wrap (''list '' @ pfx @ '': '') (S3Error e)))
    | None \<Rightarrow> Return (Inr (filter (\<lambda>k. k \<notin> set excludedKeys) (concat pages))))"

definition listStackIncarnationObjects ::
  "string \<Rightarrow> string \<Rightarrow> string \<Rightarrow> string \<Rightarrow> (error + string list) prog" where
  "listStackIncarnationObjects org project stack incarnation =
     (if incarnation \<noteq> '''' then listObjectsExcept (stackDataPrefix org project stack incarnation) []
      else let pfx = stackPrefix org project stack
        in check (listObjectsExcept pfx [stackKey org project stack]) (\<lambda>objects.
             Return (Inr (filter (\<lambda>k. \<not> HasPrefix k (pfx @ ''incarnations/'')) objects))))"

definition validateDeletionFence :: "stack \<Rightarrow> string \<Rightarrow> uint64 \<Rightarrow> (error + unit) prog" where
  "validateDeletionFence expected updateID generation =
     call (GetStack (st_Org expected) (st_Project expected) (st_Name expected)) (\<lambda>r. case r of
        Inl err \<Rightarrow> Return (Inl ErrConcurrentMutation)
      | Inr current \<Rightarrow>
          if st_etag current \<noteq> st_etag expected \<or> st_Incarnation current \<noteq> st_Incarnation expected
          then Return (Inl ErrConcurrentMutation)
          else case st_Lock current of
            None \<Rightarrow> Return (Inl ErrConcurrentMutation)
          | Some l \<Rightarrow>
              if l_UpdateID l \<noteq> updateID \<or> l_Generation l \<noteq> generation
              then Return (Inl ErrConcurrentMutation)
              else TimeNow (\<lambda>now. if Expired l now then Return (Inl ErrConcurrentMutation)
                else Return (Inr ())))"

function deleteObjects_loop :: "stack \<Rightarrow> string \<Rightarrow> uint64 \<Rightarrow> string list \<Rightarrow> (error + unit) prog" where
  "deleteObjects_loop st updateID generation objects =
     (if objects = [] then Return (Inr ())
      else check (validateDeletionFence st updateID generation) (\<lambda>_.
        DeleteObjects (take 1000 objects) (\<lambda>r. case r of
          Inl e \<Rightarrow> Return (Inl (Wrap ''delete objects: '' (S3Error e)))
        | Inr ((key, code, message) # _) \<Rightarrow>
            Return (Inl (NewError (''delete '' @ key @ '': '' @ code @ '': '' @ message)))
        | Inr [] \<Rightarrow> deleteObjects_loop st updateID generation (drop 1000 objects))))"
  by pat_completeness auto
termination
  by (relation "measure (\<lambda>(st, updateID, generation, objects). length objects)") auto

declare deleteObjects_loop.simps [simp del]

definition DeleteStack ::
  "string \<Rightarrow> string \<Rightarrow> string \<Rightarrow> string \<Rightarrow> string \<Rightarrow> uint64 \<Rightarrow> (error + unit) prog" where
  "DeleteStack org project stack incarnation updateID generation =
     check (GetStack org project stack) (\<lambda>st.
     if st_Incarnation st \<noteq> incarnation then Return (Inl ErrConcurrentMutation)
     else case st_Lock st of
       None \<Rightarrow> Return (Inl ErrNoLock)
     | Some l \<Rightarrow> TimeNow (\<lambda>now.
         if Expired l now then Return (Inl ErrNoLock)
         else if \<not> deletionFence (Some l) then Return (Inl (LockHeldError l))
         else if l_UpdateID l \<noteq> updateID \<or> l_Generation l \<noteq> generation
         then Return (Inl ErrConcurrentMutation)
         else
         check (listStackIncarnationObjects org project stack incarnation) (\<lambda>objects.
         check (deleteObjects_loop st updateID generation objects) (\<lambda>_.
         check (listStackIncarnationObjects org project stack incarnation) (\<lambda>remaining.
         if remaining \<noteq> [] then Return (Inl ErrConcurrentMutation)
         else
         check (validateDeletionFence st updateID generation) (\<lambda>_.
         call (deleteIfMatch (stackKey org project stack) (st_etag st)) (\<lambda>r. case r of
           Inl err \<Rightarrow> if isPreconditionFailed err then Return (Inl ErrConcurrentMutation)
             else Return (Inl err)
         | Inr _ \<Rightarrow> Return (Inr ()))))))))"

section \<open>Checkpoints\<close>

definition readCheckpoint :: "string \<Rightarrow> (error + json) prog" where
  "readCheckpoint key = GetObject key (\<lambda>r. case r of
      Inl e \<Rightarrow> if isNotFound (S3Error e) then Return (Inl ErrCheckpointNotFound)
        else Return (Inl (Wrap (''get '' @ key @ '': '') (S3Error e)))
    | Inr (Blob, etag) \<Rightarrow> Return (Inl (Wrap (''decode '' @ key @ '': '') json_error))
    | Inr (Doc raw, etag) \<Rightarrow> Return (Inr raw))"

definition GetCheckpoint :: "string \<Rightarrow> string \<Rightarrow> string \<Rightarrow> (error + json) prog" where
  "GetCheckpoint org project stack =
     check (GetStack org project stack) (\<lambda>st.
       readCheckpoint (if st_LatestCheckpointKey st = ''''
         then latestCheckpointKey org project stack (st_Incarnation st)
         else st_LatestCheckpointKey st))"

definition GetCheckpointVersion :: "string \<Rightarrow> string \<Rightarrow> string \<Rightarrow> int64 \<Rightarrow> (error + json) prog" where
  "GetCheckpointVersion org project stack version =
     check (GetStack org project stack) (\<lambda>st.
       let key = (case sm_get (st_CheckpointVersions st) (Itoa (sint version)) of
             None \<Rightarrow> '''' | Some k \<Rightarrow> k)
       in readCheckpoint (if key = ''''
            then historyCheckpointKey org project stack (st_Incarnation st) version else key))"

text \<open>
  One attempt to record the checkpoint in the stack document (the body of the loop up to the
  conditional write). The condition of the lock holder is evaluated from left to right, so the
  clock is read only when the document holds a lock of this update and generation.
\<close>

definition saveCheckpoint_admit ::
  "stack \<Rightarrow> string \<Rightarrow> uint64 \<Rightarrow> int64 \<Rightarrow> (error + unit) prog" where
  "saveCheckpoint_admit st updateID generation version =
     (if updateID = '''' then
        (if generation \<noteq> 0 \<or> version \<noteq> 0 \<or> st_Version st \<noteq> 0 \<or> st_Lock st \<noteq> None
         then Return (Inl ErrInvalidUpdateState) else Return (Inr ()))
      else case st_Lock st of
        None \<Rightarrow> Return (Inl ErrConcurrentMutation)
      | Some l \<Rightarrow>
          if l_UpdateID l \<noteq> updateID \<or> l_Generation l \<noteq> generation
          then Return (Inl ErrConcurrentMutation)
          else TimeNow (\<lambda>now. if Expired l now \<or> st_Version st \<noteq> version
            then Return (Inl ErrConcurrentMutation) else Return (Inr ())))"

definition record_checkpoint :: "stack \<Rightarrow> int64 \<Rightarrow> string \<Rightarrow> stack" where
  "record_checkpoint st version objectKey =
     st\<lparr>st_LatestCheckpointKey := objectKey,
        st_CheckpointVersions := sm_put (Itoa (sint version)) objectKey (st_CheckpointVersions st)\<rparr>"

primrec saveCheckpoint_loop ::
  "nat \<Rightarrow> string \<Rightarrow> string \<Rightarrow> string \<Rightarrow> string \<Rightarrow> string \<Rightarrow> uint64 \<Rightarrow> int64 \<Rightarrow> json \<Rightarrow> string \<Rightarrow>
     (error + unit) prog" where
  "saveCheckpoint_loop 0 org project stack incarnation updateID generation version deployment objectKey =
     Return (Inl ErrConcurrentMutation)"
| "saveCheckpoint_loop (Suc n) org project stack incarnation updateID generation version deployment objectKey =
     check (GetStack org project stack) (\<lambda>st.
     if st_Incarnation st \<noteq> incarnation then Return (Inl ErrConcurrentMutation)
     else
     check (saveCheckpoint_admit st updateID generation version) (\<lambda>_.
     let st' = record_checkpoint st version objectKey
     in call (putJSONIfMatch (stackKey org project stack) (marshal_stack st') (st_etag st')) (\<lambda>r. case r of
          Inr _ \<Rightarrow>
            call (put_object (historyCheckpointKey org project stack incarnation version) (Doc deployment) False) (\<lambda>_.
            call (put_object (latestCheckpointKey org project stack incarnation) (Doc deployment) False) (\<lambda>_.
            Return (Inr ())))
        | Inl err \<Rightarrow>
            if \<not> isPreconditionFailed err then Return (Inl err)
            else saveCheckpoint_loop n org project stack incarnation updateID generation version
              deployment objectKey)))"

definition SaveCheckpoint ::
  "(json \<Rightarrow> string) \<Rightarrow> string \<Rightarrow> string \<Rightarrow> string \<Rightarrow> string \<Rightarrow> string \<Rightarrow> uint64 \<Rightarrow> int64 \<Rightarrow> json \<Rightarrow>
     (error + unit) prog" where
  "SaveCheckpoint sha org project stack incarnation updateID generation version deployment =
     check (GetStack org project stack) (\<lambda>initialStack.
     if st_Incarnation initialStack \<noteq> incarnation then Return (Inl ErrConcurrentMutation)
     else let objectKey = checkpointObjectKey sha org project stack incarnation deployment
     in call (put_object objectKey (Doc deployment) True) (\<lambda>r. case r of
          Inl err \<Rightarrow> if \<not> isPreconditionFailed err then Return (Inl err)
            else saveCheckpoint_loop 5 org project stack incarnation updateID generation version
              deployment objectKey
        | Inr _ \<Rightarrow> saveCheckpoint_loop 5 org project stack incarnation updateID generation version
              deployment objectKey))"

section \<open>Updates\<close>

definition GetUpdate :: "string \<Rightarrow> string \<Rightarrow> string \<Rightarrow> string \<Rightarrow> (error + update) prog" where
  "GetUpdate org project stack updateID =
     check (GetStack org project stack) (\<lambda>st.
     call (getWithETag (updateKey org project stack (st_Incarnation st) updateID) unmarshal_update)
       (\<lambda>r. case r of
          Inl err \<Rightarrow> if isNotFound err then Return (Inl ErrUpdateNotFound) else Return (Inl err)
        | Inr (u, etag) \<Rightarrow> Return (Inr (u\<lparr>u_etag := etag, u_Incarnation := st_Incarnation st\<rparr>))))"

primrec commitUpdateVersion_loop ::
  "nat \<Rightarrow> string \<Rightarrow> string \<Rightarrow> string \<Rightarrow> string \<Rightarrow> string \<Rightarrow> uint64 \<Rightarrow> int64 \<Rightarrow> (error + unit) prog" where
  "commitUpdateVersion_loop 0 org project stack updateID incarnation generation version =
     Return (Inl ErrConcurrentMutation)"
| "commitUpdateVersion_loop (Suc n) org project stack updateID incarnation generation version =
     check (GetStack org project stack) (\<lambda>st.
     if st_Incarnation st \<noteq> incarnation then Return (Inl ErrConcurrentMutation)
     else case st_Lock st of
       None \<Rightarrow> Return (Inl ErrConcurrentMutation)
     | Some l \<Rightarrow>
         if l_UpdateID l \<noteq> updateID \<or> l_Generation l \<noteq> generation
         then Return (Inl ErrConcurrentMutation)
         else TimeNow (\<lambda>now.
         if Expired l now then Return (Inl ErrConcurrentMutation)
         else if st_Version st = version then Return (Inr ())
         else if st_Version st = version - 1 then TimeNow (\<lambda>now'.
           let st' = st\<lparr>st_Version := version, st_LastUpdate := now'\<rparr>
           in call (putJSONIfMatch (stackKey org project stack) (marshal_stack st') (st_etag st')) (\<lambda>r.
                case r of
                  Inr _ \<Rightarrow> Return (Inr ())
                | Inl err \<Rightarrow> if \<not> isPreconditionFailed err then Return (Inl err)
                    else commitUpdateVersion_loop n org project stack updateID incarnation generation version))
         else Return (Inl ErrConcurrentMutation)))"

definition commitUpdateVersion ::
  "string \<Rightarrow> string \<Rightarrow> string \<Rightarrow> string \<Rightarrow> string \<Rightarrow> uint64 \<Rightarrow> int64 \<Rightarrow> (error + unit) prog" where
  "commitUpdateVersion = commitUpdateVersion_loop 5"

text \<open>The closure \<^verbatim>\<open>rollbackUpdate\<close> of \<^verbatim>\<open>CreateUpdate\<close>.\<close>

definition rollbackUpdate :: "string \<Rightarrow> string \<Rightarrow> error \<Rightarrow> (error + update) prog" where
  "rollbackUpdate updKey etag cause = call (deleteIfMatch updKey etag) (\<lambda>r. case r of
      Inl rollbackErr \<Rightarrow> Return (Inl (Join cause (Wrap ''rollback update record: '' rollbackErr)))
    | Inr _ \<Rightarrow> Return (Inl cause))"

text \<open>The lock, if it is a deletion fence (\<^verbatim>\<open>if deletionFence(lk) { lock := *lk ... }\<close>).\<close>

definition fencing_lock :: "lock option \<Rightarrow> lock option" where
  "fencing_lock lk = (if deletionFence lk then lk else None)"

text \<open>
  A preview writes the stack document back unchanged, under \<^verbatim>\<open>If-Match\<close>, to make sure that no
  deletion has started since its record was created.
\<close>

primrec previewBarrier ::
  "nat \<Rightarrow> string \<Rightarrow> string \<Rightarrow> string \<Rightarrow> string \<Rightarrow> string \<Rightarrow> string \<Rightarrow> update \<Rightarrow> (error + update) prog" where
  "previewBarrier 0 org project stack incarnation updKey etag u =
     rollbackUpdate updKey etag ErrConcurrentMutation"
| "previewBarrier (Suc n) org project stack incarnation updKey etag u =
     call (GetStack org project stack) (\<lambda>r. case r of
       Inl getErr \<Rightarrow> rollbackUpdate updKey etag getErr
     | Inr current \<Rightarrow>
         if st_Incarnation current \<noteq> incarnation then rollbackUpdate updKey etag ErrConcurrentMutation
         else case fencing_lock (st_Lock current) of
           Some l \<Rightarrow> rollbackUpdate updKey etag (LockHeldError l)
         | None \<Rightarrow>
             call (putJSONIfMatch (stackKey org project stack) (marshal_stack current) (st_etag current))
               (\<lambda>r. case r of
                  Inr _ \<Rightarrow> Return (Inr u)
                | Inl barrierErr \<Rightarrow>
                    if \<not> isPreconditionFailed barrierErr then rollbackUpdate updKey etag barrierErr
                    else previewBarrier n org project stack incarnation updKey etag u))"

text \<open>The record could not be created because it exists already.\<close>

definition createUpdate_existing ::
  "string \<Rightarrow> string \<Rightarrow> string \<Rightarrow> string \<Rightarrow> string \<Rightarrow> string \<Rightarrow> uint64 \<Rightarrow> error \<Rightarrow> (error + update) prog" where
  "createUpdate_existing org project stack kind updateID incarnation generation err =
     (if isPreconditionFailed err then
        call (GetUpdate org project stack updateID) (\<lambda>r. case r of
          Inl getErr \<Rightarrow> Return (Inl err)
        | Inr existing \<Rightarrow>
            if u_Kind existing \<noteq> kind then Return (Inl ErrConcurrentMutation)
            else if kind \<noteq> ''preview'' then
              check (commitUpdateVersion org project stack updateID incarnation generation (u_Version existing))
                (\<lambda>_. Return (Inr existing))
            else Return (Inr existing))
      else Return (Inl err))"

text \<open>The record, and what follows once the version and the generation are known.\<close>

definition createUpdate_record ::
  "string \<Rightarrow> string \<Rightarrow> string \<Rightarrow> string \<Rightarrow> string \<Rightarrow> stack \<Rightarrow> uint64 \<Rightarrow> int64 \<Rightarrow> (error + update) prog" where
  "createUpdate_record org project stack kind updateID st generation version = TimeNow (\<lambda>now.
     let u = zero_update\<lparr>u_ID := updateID, u_Kind := kind, u_Status := ''not-started'',
           u_Version := version, u_StartTime := word_of_int (unix now), u_Incarnation := st_Incarnation st\<rparr>;
         updKey = updateKey org project stack (st_Incarnation st) (u_ID u)
     in case marshal_update u of
          None \<Rightarrow> Return (Inl (Wrap ''encode update: '' json_error))
        | Some updateBody \<Rightarrow>
            call (putConditional updKey (Doc updateBody) True '''') (\<lambda>r. case r of
              Inl err \<Rightarrow> createUpdate_existing org project stack kind updateID (st_Incarnation st) generation err
            | Inr etag \<Rightarrow>
                if kind = ''preview''
                then previewBarrier 5 org project stack (st_Incarnation st) updKey etag u
                else call (commitUpdateVersion org project stack updateID (st_Incarnation st) generation
                       (u_Version u)) (\<lambda>c. case c of
                    Inl err \<Rightarrow> rollbackUpdate updKey etag err
                  | Inr _ \<Rightarrow> Return (Inr u))))"

definition CreateUpdate ::
  "string \<Rightarrow> string \<Rightarrow> string \<Rightarrow> string \<Rightarrow> string \<Rightarrow> (error + update) prog" where
  "CreateUpdate org project stack kind updateID =
     check (GetStack org project stack) (\<lambda>st.
     if kind = ''preview'' then
       (case fencing_lock (st_Lock st) of
          Some l \<Rightarrow> Return (Inl (LockHeldError l))
        | None \<Rightarrow> createUpdate_record org project stack kind updateID st 0 (st_Version st))
     else case st_Lock st of
       None \<Rightarrow> Return (Inl ErrNoLock)
     | Some l \<Rightarrow>
         if l_UpdateID l \<noteq> updateID then Return (Inl ErrNoLock)
         else TimeNow (\<lambda>now. if Expired l now then Return (Inl ErrNoLock)
           else createUpdate_record org project stack kind updateID st (l_Generation l) (st_Version st + 1)))"

definition StartUpdate :: "string \<Rightarrow> string \<Rightarrow> string \<Rightarrow> string \<Rightarrow> (error + unit) prog" where
  "StartUpdate org project stack updateID =
     check (GetUpdate org project stack updateID) (\<lambda>u.
     if u_Status u = ''in-progress'' then Return (Inr ())
     else if u_Status u \<noteq> ''not-started'' then Return (Inl ErrInvalidUpdateState)
     else TimeNow (\<lambda>now.
       let u' = u\<lparr>u_Status := ''in-progress'', u_StartTime := word_of_int (unix now)\<rparr>
       in call (putJSONIfMatch (updateKey org project stack (u_Incarnation u') updateID)
              (marshal_update u') (u_etag u')) (\<lambda>r. case r of
            Inl err \<Rightarrow> if isPreconditionFailed err then Return (Inl ErrConcurrentMutation)
              else Return (Inl err)
          | Inr _ \<Rightarrow> Return (Inr ()))))"

definition CompleteUpdate ::
  "string \<Rightarrow> string \<Rightarrow> string \<Rightarrow> string \<Rightarrow> string \<Rightarrow> string \<Rightarrow> int64 smap \<Rightarrow> (error + unit) prog" where
  "CompleteUpdate org project stack updateID status message resourceChanges =
     check (GetUpdate org project stack updateID) (\<lambda>u.
     if u_Status u = status then Return (Inr ())
     else if u_Status u \<noteq> ''in-progress'' \<and> (u_Status u \<noteq> ''not-started'' \<or> status \<noteq> ''cancelled'')
     then Return (Inl ErrInvalidUpdateState)
     else TimeNow (\<lambda>now.
       let u' = u\<lparr>u_Status := status, u_Message := message, u_ResourceChanges := resourceChanges,
             u_EndTime := word_of_int (unix now)\<rparr>
       in call (putJSONIfMatch (updateKey org project stack (u_Incarnation u') updateID)
              (marshal_update u') (u_etag u')) (\<lambda>r. case r of
            Inl err \<Rightarrow> if isPreconditionFailed err then Return (Inl ErrConcurrentMutation)
              else Return (Inl err)
          | Inr _ \<Rightarrow> Return (Inr ()))))"

primrec listUpdates_page :: "string list \<Rightarrow> string \<Rightarrow> update list \<Rightarrow> (error + update list) prog" where
  "listUpdates_page [] incarnation updates = Return (Inr updates)"
| "listUpdates_page (key # page) incarnation updates =
     check (get_object key unmarshal_update) (\<lambda>u.
       listUpdates_page page incarnation (updates @ [u\<lparr>u_Incarnation := incarnation\<rparr>]))"

primrec listUpdates_pages :: "string list list \<Rightarrow> string \<Rightarrow> update list \<Rightarrow> (error + update list) prog" where
  "listUpdates_pages [] incarnation updates = Return (Inr updates)"
| "listUpdates_pages (page # pages) incarnation updates =
     check (listUpdates_page page incarnation updates) (\<lambda>updates'.
       listUpdates_pages pages incarnation updates')"

definition ListUpdates :: "string \<Rightarrow> string \<Rightarrow> string \<Rightarrow> (error + update list) prog" where
  "ListUpdates org project stack =
     check (GetStack org project stack) (\<lambda>st.
     let pfx = stackDataPrefix org project stack (st_Incarnation st) @ ''updates/''
     in ListObjects pfx (\<lambda>(pages, err).
          check (listUpdates_pages pages (st_Incarnation st) []) (\<lambda>updates. case err of
            Some e \<Rightarrow> Return (Inl (Wrap (''list '' @ pfx @ '': '') (S3Error e)))
          | None \<Rightarrow> Return (Inr (sort_key (\<lambda>u. - sint (u_Version u)) updates)))))"

section \<open>The lock\<close>

definition usesCanonicalLock :: "stack \<Rightarrow> bool" where
  "usesCanonicalLock st \<longleftrightarrow>
     canonicalLockProtocol <=s st_LockProtocol st \<or> st_Incarnation st \<noteq> '''' \<or> st_Fence st \<noteq> 0 \<or>
     st_Lock st \<noteq> None"

definition getLegacyLock :: "string \<Rightarrow> string \<Rightarrow> string \<Rightarrow> (error + lock) prog" where
  "getLegacyLock org project stack =
     call (getWithETag (lockKey org project stack) unmarshal_lock) (\<lambda>r. case r of
        Inl err \<Rightarrow> if isNotFound err then Return (Inl ErrNoLock) else Return (Inl err)
      | Inr (lock, etag) \<Rightarrow> Return (Inr (lock\<lparr>l_etag := etag\<rparr>)))"

definition deleteLegacyLock :: "string \<Rightarrow> string \<Rightarrow> string \<Rightarrow> lock option \<Rightarrow> unit prog" where
  "deleteLegacyLock org project stack lock = (case lock of
      None \<Rightarrow> Return ()
    | Some l \<Rightarrow> if l_etag l = '''' then Return ()
        else call (deleteIfMatch (lockKey org project stack) (l_etag l)) (\<lambda>_. Return ()))"

text \<open>\<open>acquireLock_legacy\<close>: the legacy lock that \<^verbatim>\<open>AcquireLock\<close> consults, if any.\<close>

definition acquireLock_legacy :: "stack \<Rightarrow> string \<Rightarrow> string \<Rightarrow> string \<Rightarrow> (error + lock option) prog" where
  "acquireLock_legacy st org project stack =
     (if usesCanonicalLock st then Return (Inr None)
      else call (getLegacyLock org project stack) (\<lambda>r. case r of
          Inl err \<Rightarrow> if \<not> errors_Is err ErrNoLock then Return (Inl err) else Return (Inr None)
        | Inr l \<Rightarrow> Return (Inr (Some l))))"

text \<open>The generation of a new lock: above the fence and above every lock it replaces.\<close>

definition next_generation :: "stack \<Rightarrow> lock option \<Rightarrow> uint64" where
  "next_generation st legacy =
     (let g0 = st_Fence st + 1;
          g1 = (case st_Lock st of None \<Rightarrow> g0
                | Some l \<Rightarrow> if l_Generation l \<ge> g0 then l_Generation l + 1 else g0)
      in case legacy of None \<Rightarrow> g1
         | Some l \<Rightarrow> if l_Generation l \<ge> g1 then l_Generation l + 1 else g1)"

definition acquireLock_new ::
  "stack \<Rightarrow> lock option \<Rightarrow> string \<Rightarrow> string \<Rightarrow> duration \<Rightarrow> (error + lock) prog" where
  "acquireLock_new st legacy updateID owner ttl = TimeNow (\<lambda>now.
     Return (Inr \<lparr>l_UpdateID = updateID, l_Owner = owner, l_ExpiresAt = now + ttl,
       l_Generation = next_generation st legacy, l_etag = ''''\<rparr>))"

text \<open>The two cases that look at a legacy lock when the document has no live one.\<close>

definition acquireLock_from_legacy ::
  "stack \<Rightarrow> lock option \<Rightarrow> string \<Rightarrow> string \<Rightarrow> duration \<Rightarrow> (error + lock) prog" where
  "acquireLock_from_legacy st legacy updateID owner ttl = (case legacy of
      None \<Rightarrow> acquireLock_new st legacy updateID owner ttl
    | Some g \<Rightarrow> TimeNow (\<lambda>now.
        if Expired g now then acquireLock_new st legacy updateID owner ttl
        else if l_UpdateID g \<noteq> updateID \<or> l_Owner g \<noteq> owner then Return (Inl (LockHeldError g))
        else TimeNow (\<lambda>now'. Return (Inr (g\<lparr>
          l_Generation := (if l_Generation g = 0 then st_Fence st + 1 else l_Generation g),
          l_ExpiresAt := now' + ttl\<rparr>)))))"

text \<open>The \<^verbatim>\<open>switch\<close> of \<^verbatim>\<open>AcquireLock\<close>: the lock to write, or the lock that stands in the way.\<close>

definition acquireLock_switch ::
  "stack \<Rightarrow> lock option \<Rightarrow> string \<Rightarrow> string \<Rightarrow> duration \<Rightarrow> (error + lock) prog" where
  "acquireLock_switch st legacy updateID owner ttl =
     (case (if HasPrefix updateID ''delete-'' then None else fencing_lock (st_Lock st)) of
        Some l \<Rightarrow> Return (Inl (LockHeldError l))
      | None \<Rightarrow>
        (case (if HasPrefix updateID ''delete-'' then None else fencing_lock legacy) of
           Some l \<Rightarrow> Return (Inl (LockHeldError l))
         | None \<Rightarrow>
           (case st_Lock st of
              None \<Rightarrow> acquireLock_from_legacy st legacy updateID owner ttl
            | Some l \<Rightarrow> TimeNow (\<lambda>now.
                if Expired l now then acquireLock_from_legacy st legacy updateID owner ttl
                else if l_UpdateID l \<noteq> updateID \<or> l_Owner l \<noteq> owner then Return (Inl (LockHeldError l))
                else TimeNow (\<lambda>now'. Return (Inr (l\<lparr>l_ExpiresAt := now' + ttl\<rparr>)))))))"

primrec acquireLock_loop ::
  "nat \<Rightarrow> string \<Rightarrow> string \<Rightarrow> string \<Rightarrow> string \<Rightarrow> string \<Rightarrow> string \<Rightarrow> duration \<Rightarrow> (error + lock) prog" where
  "acquireLock_loop 0 org project stack incarnation updateID owner ttl =
     Return (Inl ErrConcurrentMutation)"
| "acquireLock_loop (Suc n) org project stack incarnation updateID owner ttl =
     check (GetStack org project stack) (\<lambda>st.
     if st_Incarnation st \<noteq> incarnation then Return (Inl ErrConcurrentMutation)
     else
     check (acquireLock_legacy st org project stack) (\<lambda>legacy.
     check (acquireLock_switch st legacy updateID owner ttl) (\<lambda>lk.
     let lock = (if l_Generation lk = 0 then lk\<lparr>l_Generation := st_Fence st + 1\<rparr> else lk);
         st' = st\<lparr>st_Fence := max (st_Fence st) (l_Generation lock),
                  st_LockProtocol := canonicalLockProtocol, st_Lock := Some lock\<rparr>
     in call (putJSONIfMatch (stackKey org project stack) (marshal_stack st') (st_etag st')) (\<lambda>r. case r of
          Inr _ \<Rightarrow> call (deleteLegacyLock org project stack legacy) (\<lambda>_. Return (Inr lock))
        | Inl err \<Rightarrow> if \<not> isPreconditionFailed err then Return (Inl err)
            else acquireLock_loop n org project stack incarnation updateID owner ttl))))"

definition AcquireLock ::
  "string \<Rightarrow> string \<Rightarrow> string \<Rightarrow> string \<Rightarrow> string \<Rightarrow> string \<Rightarrow> duration \<Rightarrow> (error + lock) prog" where
  "AcquireLock = acquireLock_loop 5"

text \<open>
  The lock that \<^verbatim>\<open>RenewLock\<close> and \<^verbatim>\<open>ReleaseLock\<close> work on: the one in the document, else the
  legacy one; and the legacy lock, if it was read.
\<close>

definition current_lock ::
  "stack \<Rightarrow> string \<Rightarrow> string \<Rightarrow> string \<Rightarrow> (error + lock option \<times> lock option) prog" where
  "current_lock st org project stack =
     (if st_Lock st = None \<and> \<not> usesCanonicalLock st
      then check (getLegacyLock org project stack) (\<lambda>l. Return (Inr (Some l, Some l)))
      else Return (Inr (st_Lock st, None)))"

primrec renewLock_loop ::
  "nat \<Rightarrow> string \<Rightarrow> string \<Rightarrow> string \<Rightarrow> string \<Rightarrow> uint64 \<Rightarrow> duration \<Rightarrow> (error + lock) prog" where
  "renewLock_loop 0 org project stack updateID generation ttl = Return (Inl ErrConcurrentMutation)"
| "renewLock_loop (Suc n) org project stack updateID generation ttl =
     check (GetStack org project stack) (\<lambda>st.
     check (current_lock st org project stack) (\<lambda>(lock, legacy). case lock of
       None \<Rightarrow> Return (Inl ErrNoLock)
     | Some l \<Rightarrow>
         if l_UpdateID l \<noteq> updateID \<or> (generation \<noteq> 0 \<and> l_Generation l \<noteq> generation)
         then Return (Inl (LockHeldError l))
         else TimeNow (\<lambda>now.
         if Expired l now then Return (Inl ErrNoLock)
         else TimeNow (\<lambda>now'.
         let renewed = l\<lparr>l_Generation := (if l_Generation l = 0 then st_Fence st + 1 else l_Generation l),
               l_ExpiresAt := now' + ttl\<rparr>;
             st' = st\<lparr>st_Fence := max (st_Fence st) (l_Generation renewed),
               st_LockProtocol := canonicalLockProtocol, st_Lock := Some renewed\<rparr>
         in call (putJSONIfMatch (stackKey org project stack) (marshal_stack st') (st_etag st')) (\<lambda>r.
              case r of
                Inr _ \<Rightarrow> call (deleteLegacyLock org project stack legacy) (\<lambda>_. Return (Inr renewed))
              | Inl err \<Rightarrow> if \<not> isPreconditionFailed err then Return (Inl err)
                  else renewLock_loop n org project stack updateID generation ttl)))))"

definition RenewLock ::
  "string \<Rightarrow> string \<Rightarrow> string \<Rightarrow> string \<Rightarrow> uint64 \<Rightarrow> duration \<Rightarrow> (error + lock) prog" where
  "RenewLock = renewLock_loop 5"

primrec releaseLock_loop ::
  "nat \<Rightarrow> string \<Rightarrow> string \<Rightarrow> string \<Rightarrow> string \<Rightarrow> uint64 \<Rightarrow> (error + unit) prog" where
  "releaseLock_loop 0 org project stack updateID generation = Return (Inl ErrConcurrentMutation)"
| "releaseLock_loop (Suc n) org project stack updateID generation =
     call (GetStack org project stack) (\<lambda>r. case r of
       Inl err \<Rightarrow> if errors_Is err ErrStackNotFound then Return (Inr ()) else Return (Inl err)
     | Inr st \<Rightarrow>
     call (current_lock st org project stack) (\<lambda>r. case r of
       Inl err \<Rightarrow> if errors_Is err ErrNoLock then Return (Inr ()) else Return (Inl err)
     | Inr (lock, legacy) \<Rightarrow> (case lock of
       None \<Rightarrow> Return (Inr ())
     | Some l \<Rightarrow>
         if l_UpdateID l \<noteq> updateID \<or> (generation \<noteq> 0 \<and> l_Generation l \<noteq> generation)
         then Return (Inl (LockHeldError l))
         else
         let st' = st\<lparr>st_Fence := max (st_Fence st) (l_Generation l),
               st_LockProtocol := canonicalLockProtocol, st_Lock := None\<rparr>
         in call (putJSONIfMatch (stackKey org project stack) (marshal_stack st') (st_etag st')) (\<lambda>r.
              case r of
                Inr _ \<Rightarrow> call (deleteLegacyLock org project stack legacy) (\<lambda>_. Return (Inr ()))
              | Inl err \<Rightarrow> if \<not> isPreconditionFailed err then Return (Inl err)
                  else releaseLock_loop n org project stack updateID generation))))"

definition ReleaseLock :: "string \<Rightarrow> string \<Rightarrow> string \<Rightarrow> string \<Rightarrow> uint64 \<Rightarrow> (error + unit) prog" where
  "ReleaseLock = releaseLock_loop 5"

definition GetLock :: "string \<Rightarrow> string \<Rightarrow> string \<Rightarrow> (error + lock) prog" where
  "GetLock org project stack =
     check (GetStack org project stack) (\<lambda>st. case st_Lock st of
       Some l \<Rightarrow> Return (Inr l)
     | None \<Rightarrow> if usesCanonicalLock st then Return (Inl ErrNoLock)
         else getLegacyLock org project stack)"

end
