(* ===== verification/Lock_Protocol.thy ===== *)
theory Lock_Protocol
  imports S3_Store
begin

text \<open>
  The stack document \<^verbatim>\<open>stack.json\<close> is the authority for the lock, the fence, the version and
  the checkpoints of a stack. This theory gives an abstract specification of how that document
  may change (\<open>doc_step\<close>, one rule per event) and shows that every operation of the store,
  whatever the other clients and the service do between its requests, changes it only so.
\<close>

section \<open>The abstract protocol\<close>

text \<open>
  The events, with the update (and generation) in whose name they happen. Times in \<open>T\<close> are
  the clock readings of the client that performs the event.
\<close>

datatype doc_event =
    Create
  | Remove string uint64
  | Grant string
  | Renew string
  | Release string
  | DropLegacy string
  | CommitVersion string uint64
  | SaveState string uint64 int64
  | Barrier

definition live :: "time set \<Rightarrow> lock option \<Rightarrow> string \<Rightarrow> bool" where
  "live T lk u \<longleftrightarrow> (\<exists>l now. lk = Some l \<and> l_UpdateID l = u \<and> now \<in> T \<and> \<not> Expired l now)"

definition live_gen :: "time set \<Rightarrow> lock option \<Rightarrow> string \<Rightarrow> uint64 \<Rightarrow> bool" where
  "live_gen T lk u g \<longleftrightarrow> (\<exists>l now. lk = Some l \<and> l_UpdateID l = u \<and> l_Generation l = g \<and>
     now \<in> T \<and> \<not> Expired l now)"

definition dead :: "time set \<Rightarrow> lock option \<Rightarrow> bool" where
  "dead T lk \<longleftrightarrow> (\<forall>l. lk = Some l \<longrightarrow> (\<exists>now \<in> T. Expired l now))"

text \<open>Writing a lock (or none) into the document, and the fence that goes with it.\<close>

definition with_lock :: "stack \<Rightarrow> uint64 \<Rightarrow> lock option \<Rightarrow> stack" where
  "with_lock st g lk = st\<lparr>st_Fence := max (st_Fence st) g,
     st_LockProtocol := canonicalLockProtocol, st_Lock := lk\<rparr>"

inductive doc_step :: "time set \<Rightarrow> doc_event \<Rightarrow> stack \<Rightarrow> stack \<Rightarrow> bool" for T where
  grant: "dead T (st_Lock st) \<Longrightarrow> deletionFence (st_Lock st) \<longrightarrow> HasPrefix (l_UpdateID l) ''delete-'' \<Longrightarrow>
     st_Fence st \<noteq> - 1 \<longrightarrow> st_Fence st < l_Generation l \<Longrightarrow>
     doc_step T (Grant (l_UpdateID l)) st (with_lock st (l_Generation l) (Some l))"
| renew: "live T (st_Lock st) u \<Longrightarrow> st_Lock st = Some l \<Longrightarrow>
     g = (if l_Generation l = 0 then st_Fence st + 1 else l_Generation l) \<Longrightarrow>
     doc_step T (Renew u) st (with_lock st g (Some (l\<lparr>l_Generation := g, l_ExpiresAt := t\<rparr>)))"
| release: "st_Lock st = Some l \<Longrightarrow> l_UpdateID l = u \<Longrightarrow>
     doc_step T (Release u) st (with_lock st (l_Generation l) None)"
| drop_legacy: "st_Lock st = None \<Longrightarrow> \<not> usesCanonicalLock st \<Longrightarrow>
     doc_step T (DropLegacy u) st (with_lock st g None)"
| commit_version: "live_gen T (st_Lock st) u g \<Longrightarrow>
     doc_step T (CommitVersion u g) st (st\<lparr>st_Version := st_Version st + 1, st_LastUpdate := now\<rparr>)"
| save_state: "live_gen T (st_Lock st) u g \<and> st_Version st = v \<or>
       u = '''' \<and> st_Lock st = None \<and> st_Version st = 0 \<and> v = 0 \<Longrightarrow>
     doc_step T (SaveState u g v) st (record_checkpoint st v key)"
| barrier: "\<not> deletionFence (st_Lock st) \<Longrightarrow> doc_step T Barrier st st"

inductive_cases doc_stepE: "doc_step T ev st st'"

text \<open>A document as \<^verbatim>\<open>CreateStack\<close> writes it, and a document that may be removed.\<close>

definition fresh_doc :: "stack \<Rightarrow> bool" where
  "fresh_doc st \<longleftrightarrow> st_Version st = 0 \<and> st_Fence st = 0 \<and> st_Lock st = None \<and>
     st_Incarnation st \<noteq> '''' \<and> st_LatestCheckpointKey st = '''' \<and> st_CheckpointVersions st = []"

definition removable :: "time set \<Rightarrow> string \<Rightarrow> uint64 \<Rightarrow> stack \<Rightarrow> bool" where
  "removable T u g st \<longleftrightarrow> live_gen T (st_Lock st) u g \<and> HasPrefix u ''delete-''"

section \<open>The policy of the store\<close>

definition is_stack_key :: "string \<Rightarrow> bool" where
  "is_stack_key k \<longleftrightarrow> (\<exists>org project stack. ref_ok org project stack \<and> k = stackKey org project stack)"

primrec stack_of :: "body \<Rightarrow> stack option" where
  "stack_of (Doc j) = unmarshal_stack j"
| "stack_of Blob = None"

definition doc_put_ok ::
  "(string \<Rightarrow> string \<Rightarrow> body) \<Rightarrow> doc_event set \<Rightarrow> time set \<Rightarrow> string \<Rightarrow> body \<Rightarrow> bool \<Rightarrow> string option \<Rightarrow> bool" where
  "doc_put_ok C E T k b inm im = (case im of
      None \<Rightarrow> inm \<and> Create \<in> E \<and> (\<exists>st. stack_of b = Some st \<and> fresh_doc st)
    | Some e \<Rightarrow> \<exists>st st' ev. ev \<in> E \<and> stack_of (C k e) = Some st \<and> stack_of b = Some st' \<and>
        doc_step T ev st st')"

definition doc_delete_ok ::
  "(string \<Rightarrow> string \<Rightarrow> body) \<Rightarrow> doc_event set \<Rightarrow> time set \<Rightarrow> string \<Rightarrow> string \<Rightarrow> bool" where
  "doc_delete_ok C E T k e \<longleftrightarrow>
     (\<exists>st u g. Remove u g \<in> E \<and> stack_of (C k e) = Some st \<and> removable T u g st)"

text \<open>
  A client may write one stack document only, the one under the key \<open>K\<close>. It is created with
  \<^verbatim>\<open>If-None-Match\<close>, changed with \<^verbatim>\<open>If-Match\<close> by one of the events \<open>E\<close>, and removed
  with \<^verbatim>\<open>If-Match\<close> under a live deletion fence. Other objects are not restricted.
\<close>

definition doc_policy :: "(string \<Rightarrow> string \<Rightarrow> body) \<Rightarrow> string \<Rightarrow> doc_event set \<Rightarrow> policy" where
  "doc_policy C K E = \<lparr>
     may_read = (\<lambda>k b e. C k e = b),
     may_put = (\<lambda>T k b inm im. is_stack_key k \<longrightarrow> k = K \<and> doc_put_ok C E T k b inm im),
     may_delete = (\<lambda>T k e. is_stack_key k \<longrightarrow> k = K \<and> doc_delete_ok C E T k e),
     may_delete_many = (\<lambda>ks. \<forall>k \<in> set ks. \<not> is_stack_key k)\<rparr>"

lemma doc_policy_simps [simp]:
  "may_read (doc_policy C K E) k b e \<longleftrightarrow> C k e = b"
  "may_put (doc_policy C K E) T k b inm im \<longleftrightarrow> (is_stack_key k \<longrightarrow> k = K \<and> doc_put_ok C E T k b inm im)"
  "may_delete (doc_policy C K E) T k e \<longleftrightarrow> (is_stack_key k \<longrightarrow> k = K \<and> doc_delete_ok C E T k e)"
  "may_delete_many (doc_policy C K E) ks \<longleftrightarrow> (\<forall>k \<in> set ks. \<not> is_stack_key k)"
  by (simp_all add: doc_policy_def)

lemma not_stack_key [simp]:
  assumes "ref_ok org project stack"
  shows "\<not> is_stack_key (lockKey org project stack)"
    and "\<not> is_stack_key (latestCheckpointKey org project stack inc)"
    and "\<not> is_stack_key (historyCheckpointKey org project stack inc v)"
    and "\<not> is_stack_key (checkpointObjectKey sha org project stack inc d)"
    and "\<not> is_stack_key (updateKey org project stack inc u)"
  using stackKey_not_object [OF _ assms] unfolding is_stack_key_def by metis+

text \<open>
  The obligation of a conditional write of the stack document, when the document was read with
  the ETag of the condition.
\<close>

lemma doc_put_okI:
  assumes "C k e = Doc j0" "unmarshal_stack j0 = Some st" "marshal_stack st' = Some j"
    and "sm_wf (st_CheckpointVersions st')" "ev \<in> E" "doc_step T ev st (persisted_stack st')"
  shows "doc_put_ok C E T k (Doc j) False (Some e)"
proof -
  have "j = stack_json st'" using assms(3) by (simp add: marshal_stack_def split: if_splits)
  then show ?thesis
    using assms stack_roundtrip [of st'] by (auto simp: doc_put_ok_def)
qed

section \<open>Writes issued by the request helpers\<close>

lemma wp_getWithETag [wp_rules]:
  assumes "\<And>err. Q T (Inl err)"
    and "\<And>j x e. may_read P k (Doc j) e \<Longrightarrow> dec j = Some x \<Longrightarrow> Q T (Inr (x, e))"
  shows "wp P (getWithETag k dec) T Q"
  using assms by (auto simp: getWithETag_def split: s3_error.split body.split option.split)

lemma wp_get_object [wp_rules]:
  assumes "\<And>r. Q T r"
  shows "wp P (get_object k dec) T Q"
  unfolding get_object_def by (auto intro!: wp_getWithETag simp: assms split: prod.split)

lemma wp_put_attempts [wp_rules]:
  assumes "may_put P T k b inm im" and "\<And>r. Q T r"
  shows "wp P (put_attempts n k b inm im) T Q"
  using assms by (induction n) (auto split: sum.split)

lemma wp_putConditional [wp_rules]:
  assumes "may_put P T k b inm (if e \<noteq> '''' then Some e else None)" and "\<And>r. Q T r"
  shows "wp P (putConditional k b inm e) T Q"
  unfolding putConditional_def using assms by (auto intro!: wp_put_attempts split: sum.split)

lemma wp_put_object [wp_rules]:
  assumes "may_put P T k b inm None" and "\<And>r. Q T r"
  shows "wp P (put_object k b inm) T Q"
  unfolding put_object_def using assms by (auto intro!: wp_putConditional split: sum.split)

lemma wp_putJSON [wp_rules]:
  assumes "\<And>j. v = Some j \<Longrightarrow> may_put P T k (Doc j) inm None" and "\<And>r. Q T r"
  shows "wp P (putJSON k v inm) T Q"
  unfolding putJSON_def using assms by (auto intro!: wp_put_object split: option.split)

lemma wp_putJSONIfMatch [wp_rules]:
  assumes "\<And>j. v = Some j \<Longrightarrow> e \<noteq> '''' \<Longrightarrow> may_put P T k (Doc j) False (Some e)" and "\<And>r. Q T r"
  shows "wp P (putJSONIfMatch k v e) T Q"
  unfolding putJSONIfMatch_def putIfMatch_def using assms
  by (auto intro!: wp_putConditional split: option.split sum.split)

lemma wp_delete_attempts [wp_rules]:
  assumes "may_delete P T k e" and "\<And>r. Q T r"
  shows "wp P (delete_attempts n k e) T Q"
  using assms by (induction n) (auto split: sum.split)

lemma wp_deleteIfMatch [wp_rules]:
  assumes "e \<noteq> '''' \<Longrightarrow> may_delete P T k e" and "\<And>r. Q T r"
  shows "wp P (deleteIfMatch k e) T Q"
  unfolding deleteIfMatch_def using assms by (auto intro!: wp_delete_attempts split: sum.split)

lemma wp_GetStack [wp_rules]:
  assumes "\<And>err. Q T (Inl err)"
    and "\<And>j st e. may_read P (stackKey org project stack) (Doc j) e \<Longrightarrow> unmarshal_stack j = Some st \<Longrightarrow>
      Q T (Inr (st\<lparr>st_etag := e\<rparr>))"
  shows "wp P (GetStack org project stack) T Q"
  unfolding GetStack_def using assms by (auto intro!: wp_getWithETag)

lemma wp_GetUpdate [wp_rules]:
  assumes "\<And>r. Q T r"
  shows "wp P (GetUpdate org project stack updateID) T Q"
  unfolding GetUpdate_def using assms by (auto intro!: wp_getWithETag wp_GetStack)

lemma wp_getLegacyLock [wp_rules]:
  assumes "\<And>r. Q T r"
  shows "wp P (getLegacyLock org project stack) T Q"
  unfolding getLegacyLock_def using assms by (auto intro!: wp_getWithETag)

section \<open>What each operation does to stack documents\<close>

text \<open>All writes of a program are permitted.\<close>

abbreviation safe :: "policy \<Rightarrow> 'a prog \<Rightarrow> time set \<Rightarrow> bool" where
  "safe P p T \<equiv> wp P p T (\<lambda>_ _. True)"

lemma live_simps [simp]:
  "\<not> live T None u" "\<not> live_gen T None u g" "dead T None"
  "live T (Some l) u \<longleftrightarrow> l_UpdateID l = u \<and> (\<exists>now \<in> T. \<not> Expired l now)"
  "live_gen T (Some l) u g \<longleftrightarrow> l_UpdateID l = u \<and> l_Generation l = g \<and> (\<exists>now \<in> T. \<not> Expired l now)"
  "dead T (Some l) \<longleftrightarrow> (\<exists>now \<in> T. Expired l now)"
  by (auto simp: live_def live_gen_def dead_def)

lemma record_checkpoint_etag [simp]: "st_etag (record_checkpoint st v key) = st_etag st"
  by (simp add: record_checkpoint_def)

lemma hex_length: "length (hex b) = 2 * length b"
  by (induction b) (simp_all add: hex_def)

lemma wp_NewUpdateID [wp_rules]:
  assumes "\<And>s. length s = 32 \<Longrightarrow> Q T s"
  shows "wp P NewUpdateID T Q"
  using assms by (simp add: NewUpdateID_def hex_length)

lemma safe_CreateStack:
  assumes "Create \<in> E"
  shows "safe (doc_policy C (stackKey org project stack) E) (CreateStack org project stack) T"
proof -
  have "doc_put_ok C E T' k (Doc j) True None"
    if "marshal_stack (zero_stack\<lparr>st_Org := org, st_Project := project, st_Name := stack,
        st_Created := now, st_Incarnation := inc, st_LockProtocol := canonicalLockProtocol\<rparr>) = Some j"
      and "length inc = 32" for T' k j now inc
    using that assms stack_roundtrip [of "zero_stack\<lparr>st_Org := org, st_Project := project, st_Name := stack,
        st_Created := now, st_Incarnation := inc, st_LockProtocol := canonicalLockProtocol\<rparr>"]
    by (auto simp: doc_put_ok_def fresh_doc_def marshal_stack_def persisted_stack_def zero_stack_def
        split: if_splits)
  then show ?thesis
    unfolding CreateStack_def by (auto simp: Let_def intro!: wp_rules split: sum.split)
qed

lemma wp_saveCheckpoint_admit [wp_rules]:
  assumes "\<And>err T'. T \<subseteq> T' \<Longrightarrow> Q T' (Inl err)"
    and "\<And>T'. T \<subseteq> T' \<Longrightarrow> live_gen T' (st_Lock st) updateID generation \<and> st_Version st = version \<or>
       updateID = '''' \<and> st_Lock st = None \<and> st_Version st = 0 \<and> version = 0 \<Longrightarrow> Q T' (Inr ())"
  shows "wp P (saveCheckpoint_admit st updateID generation version) T Q"
  unfolding saveCheckpoint_admit_def
  by (auto simp: live_gen_def intro!: assms split: option.split)

lemma persisted_record_checkpoint:
  "clean_stack st \<Longrightarrow> persisted_stack (record_checkpoint (st\<lparr>st_etag := e\<rparr>) v key) = record_checkpoint st v key"
  by (cases st) (simp add: record_checkpoint_def persisted_stack_def clean_stack_def clean_lock_def)

lemma safe_saveCheckpoint_loop:
  assumes ok: "ref_ok org project stack" and ev: "SaveState updateID generation version \<in> E"
  shows "safe (doc_policy C (stackKey org project stack) E) (saveCheckpoint_loop n org project stack incarnation updateID generation
     version deployment objectKey) T"
proof (induction n arbitrary: T)
  case (Suc n)
  have put: "doc_put_ok C E T' k (Doc j) False (Some e)"
    if "C k e = Doc j0" "unmarshal_stack j0 = Some st"
      "marshal_stack (record_checkpoint (st\<lparr>st_etag := e\<rparr>) version objectKey) = Some j"
      "live_gen T' (st_Lock st) updateID generation \<and> st_Version st = version \<or>
       updateID = '''' \<and> st_Lock st = None \<and> st_Version st = 0 \<and> version = 0" for T' k e j0 st j
  proof (rule doc_put_okI [where C = C, OF that(1-3) _ ev])
    have "clean_stack st" using that(2) by (rule unmarshal_stack_clean)
    then show "sm_wf (st_CheckpointVersions (record_checkpoint (st\<lparr>st_etag := e\<rparr>) version objectKey))"
      by (simp add: record_checkpoint_def clean_stack_def)
    show "doc_step T' (SaveState updateID generation version) st
        (persisted_stack (record_checkpoint (st\<lparr>st_etag := e\<rparr>) version objectKey))"
      unfolding persisted_record_checkpoint [OF \<open>clean_stack st\<close>] using that(4) by (rule save_state)
  qed
  show ?case
    using put ok Suc by (auto simp: Let_def intro!: wp_rules split: sum.split)
qed simp

lemma wp_safe: "(\<And>T. safe P p T) \<Longrightarrow> (\<And>T r. Q T r) \<Longrightarrow> wp P p T Q"
  by (rule wp_mono) auto

lemma safe_SaveCheckpoint:
  assumes "ref_ok org project stack" and "SaveState updateID generation version \<in> E"
  shows "safe (doc_policy C (stackKey org project stack) E) (SaveCheckpoint sha org project stack incarnation updateID generation
     version deployment) T"
  unfolding SaveCheckpoint_def using assms
  by (auto simp: Let_def safe_saveCheckpoint_loop intro!: wp_rules split: sum.split)

lemma safe_commitUpdateVersion_loop:
  assumes ev: "CommitVersion updateID generation \<in> E"
  shows "safe (doc_policy C (stackKey org project stack) E) (commitUpdateVersion_loop n org project stack updateID incarnation
     generation version) T"
proof (induction n arbitrary: T)
  case (Suc n)
  have put: "doc_put_ok C E T' k (Doc j) False (Some e)"
    if "C k e = Doc j0" "unmarshal_stack j0 = Some st"
      "marshal_stack (st\<lparr>st_etag := e, st_Version := version, st_LastUpdate := now'\<rparr>) = Some j"
      "live_gen T' (st_Lock st) updateID generation" "st_Version st = version - 1" for T' k e j0 st j now'
  proof (rule doc_put_okI [where C = C, OF that(1-3) _ ev])
    have clean: "clean_stack st" using that(2) by (rule unmarshal_stack_clean)
    then show "sm_wf (st_CheckpointVersions (st\<lparr>st_etag := e, st_Version := version, st_LastUpdate := now'\<rparr>))"
      by (simp add: clean_stack_def)
    have "persisted_stack (st\<lparr>st_etag := e, st_Version := version, st_LastUpdate := now'\<rparr>) =
        st\<lparr>st_Version := st_Version st + 1, st_LastUpdate := now'\<rparr>"
      using clean that(5) by (cases st) (simp add: persisted_stack_def clean_stack_def clean_lock_def)
    then show "doc_step T' (CommitVersion updateID generation) st
        (persisted_stack (st\<lparr>st_etag := e, st_Version := version, st_LastUpdate := now'\<rparr>))"
      using commit_version [OF that(4)] by simp
  qed
  show ?case
    using put Suc by (auto simp: Let_def intro!: wp_rules split: sum.split option.split)
qed simp

lemma safe_commitUpdateVersion:
  "CommitVersion updateID generation \<in> E \<Longrightarrow> safe (doc_policy C (stackKey org project stack) E)
     (commitUpdateVersion org project stack updateID incarnation generation version) T"
  by (simp add: commitUpdateVersion_def safe_commitUpdateVersion_loop)

lemma safe_rollbackUpdate:
  "\<not> is_stack_key k \<Longrightarrow> safe (doc_policy C K E) (rollbackUpdate k etag cause) T"
  unfolding rollbackUpdate_def by (auto intro!: wp_rules split: sum.split)

lemma safe_previewBarrier:
  assumes ev: "Barrier \<in> E" and k: "\<not> is_stack_key k"
  shows "safe (doc_policy C (stackKey org project stack) E) (previewBarrier n org project stack incarnation k etag u) T"
proof (induction n arbitrary: T)
  case (Suc n)
  have put: "doc_put_ok C E T' k' (Doc j) False (Some e)"
    if "C k' e = Doc j0" "unmarshal_stack j0 = Some st" "marshal_stack (st\<lparr>st_etag := e\<rparr>) = Some j"
      "fencing_lock (st_Lock st) = None" for T' k' e j0 st j
  proof (rule doc_put_okI [where C = C, OF that(1-3) _ ev])
    have clean: "clean_stack st" using that(2) by (rule unmarshal_stack_clean)
    then show "sm_wf (st_CheckpointVersions (st\<lparr>st_etag := e\<rparr>))" by (simp add: clean_stack_def)
    have "\<not> deletionFence (st_Lock st)"
      using that(4) by (auto simp: fencing_lock_def deletionFence_def split: if_splits option.splits)
    then show "doc_step T' Barrier st (persisted_stack (st\<lparr>st_etag := e\<rparr>))"
      unfolding persisted_clean_stack [OF clean] by (rule barrier)
  qed
  show ?case
    using put Suc safe_rollbackUpdate [OF k]
    by (auto intro!: wp_rules split: sum.split option.split)
qed (simp add: safe_rollbackUpdate k)

lemma safe_createUpdate_existing:
  "CommitVersion updateID generation \<in> E \<Longrightarrow> safe (doc_policy C (stackKey org project stack) E)
     (createUpdate_existing org project stack kind updateID incarnation generation err) T"
  unfolding createUpdate_existing_def
  by (auto intro!: wp_rules wp_safe [OF safe_commitUpdateVersion] split: sum.split)

lemma safe_createUpdate_record:
  assumes "ref_ok org project stack" "Barrier \<in> E" "CommitVersion updateID generation \<in> E"
  shows "safe (doc_policy C (stackKey org project stack) E)
     (createUpdate_record org project stack kind updateID st generation version) T"
  unfolding createUpdate_record_def Let_def using assms
  by (auto intro!: wp_rules wp_safe [OF safe_commitUpdateVersion] simp: safe_createUpdate_existing
      safe_previewBarrier safe_rollbackUpdate split: sum.split option.split)

lemma safe_CreateUpdate:
  assumes "ref_ok org project stack" "Barrier \<in> E" "\<And>g. CommitVersion updateID g \<in> E"
  shows "safe (doc_policy C (stackKey org project stack) E) (CreateUpdate org project stack kind updateID) T"
  unfolding CreateUpdate_def using assms
  by (auto intro!: wp_rules simp: safe_createUpdate_record split: option.split)

lemma safe_StartUpdate:
  "ref_ok org project stack \<Longrightarrow> safe (doc_policy C (stackKey org project stack) E) (StartUpdate org project stack updateID) T"
  unfolding StartUpdate_def Let_def by (auto intro!: wp_rules split: sum.split)

lemma safe_CompleteUpdate:
  "ref_ok org project stack \<Longrightarrow>
     safe (doc_policy C (stackKey org project stack) E) (CompleteUpdate org project stack updateID status message changes) T"
  unfolding CompleteUpdate_def Let_def by (auto intro!: wp_rules split: sum.split)

subsection \<open>Readers\<close>

lemma safe_readCheckpoint: "safe P (readCheckpoint key) T"
  by (auto simp: readCheckpoint_def split: body.split)

lemma safe_GetCheckpoint: "safe P (GetCheckpoint org project stack) T"
  unfolding GetCheckpoint_def by (auto intro!: wp_rules simp: safe_readCheckpoint)

lemma safe_GetCheckpointVersion: "safe P (GetCheckpointVersion org project stack version) T"
  unfolding GetCheckpointVersion_def Let_def by (auto intro!: wp_rules simp: safe_readCheckpoint)

lemma safe_ListStacks: "safe P (ListStacks org) T"
proof -
  have page: "safe P (listStacks_page page stacks) T" for page stacks T
    by (induction page arbitrary: stacks) (auto intro!: wp_rules split: sum.split)
  have pages: "safe P (listStacks_pages pages stacks) T" for pages stacks T
    by (induction pages arbitrary: stacks T) (auto intro!: wp_safe [OF page] split: sum.split)
  show ?thesis
    unfolding ListStacks_def Let_def by (auto intro!: wp_safe [OF pages] split: sum.split option.split)
qed

lemma safe_ListUpdates: "safe P (ListUpdates org project stack) T"
proof -
  have page: "safe P (listUpdates_page page inc us) T" for page inc us T
    by (induction page arbitrary: us) (auto intro!: wp_rules split: sum.split)
  have pages: "safe P (listUpdates_pages pages inc us) T" for pages inc us T
    by (induction pages arbitrary: us T) (auto intro!: wp_safe [OF page] split: sum.split)
  show ?thesis
    unfolding ListUpdates_def Let_def
    by (auto intro!: wp_rules wp_safe [OF pages] split: sum.split option.split)
qed

lemma safe_GetLock: "safe P (GetLock org project stack) T"
  unfolding GetLock_def by (auto intro!: wp_rules split: option.split)

subsection \<open>The lock operations\<close>

text \<open>What the document looks like after a lock was written into it.\<close>

lemma persisted_with_lock:
  assumes "clean_stack st"
  shows "persisted_stack (st\<lparr>st_etag := e, st_Fence := max (st_Fence st) g,
      st_LockProtocol := canonicalLockProtocol, st_Lock := lk\<rparr>) =
    with_lock st g (map_option persisted_lock lk)"
  using assms by (cases st) (simp add: with_lock_def persisted_stack_def clean_stack_def)

text \<open>
  The generation that is written for a lock whose generation is \<open>g\<close> (0 stands for
  \<^verbatim>\<open>Fence + 1\<close>), and that it is above the fence, unless the fence has reached the last
  \<^verbatim>\<open>uint64\<close>.
\<close>

definition settled :: "stack \<Rightarrow> uint64 \<Rightarrow> uint64" where
  "settled st g = (if g = 0 then st_Fence st + 1 else g)"

definition above_fence :: "stack \<Rightarrow> uint64 \<Rightarrow> bool" where
  "above_fence st g \<longleftrightarrow> st_Fence st \<noteq> - 1 \<longrightarrow> st_Fence st < settled st g"

lemma above_fence_next:
  assumes "legacy = None \<or> st_Lock st = None"
  shows "above_fence st (next_generation st legacy)"
proof -
  have "st_Fence st < l + 1" if "st_Fence st \<noteq> - 1" "st_Fence st + 1 \<le> l" "l + 1 \<noteq> 0" for l
    using word_less_succ [OF that(1)] word_less_succ [of l] that
    by (auto simp: word_succ_zero_iff)
  then show ?thesis
    using assms word_less_succ [of "st_Fence st"]
    by (auto simp: above_fence_def settled_def next_generation_def Let_def split: option.split)
qed

lemma above_fence_zero: "st_Fence st = 0 \<Longrightarrow> above_fence st g"
  by (simp add: above_fence_def settled_def word_neq_0_conv [symmetric])

lemma wp_acquireLock_legacy [wp_rules]:
  assumes "\<And>err. Q T (Inl err)" and "\<And>legacy. (legacy \<noteq> None \<longrightarrow> \<not> usesCanonicalLock st) \<Longrightarrow> Q T (Inr legacy)"
  shows "wp P (acquireLock_legacy st org project stack) T Q"
  unfolding acquireLock_legacy_def using assms by (auto intro!: wp_getLegacyLock split: sum.split)

lemma not_canonical: "\<not> usesCanonicalLock st \<Longrightarrow> st_Lock st = None \<and> st_Fence st = 0"
  by (simp add: usesCanonicalLock_def)

lemma wp_acquireLock_from_legacy [wp_rules]:
  assumes "\<And>err T'. T \<subseteq> T' \<Longrightarrow> Q T' (Inl err)"
    and chosen: "\<And>lk T'. T \<subseteq> T' \<Longrightarrow> l_UpdateID lk = updateID \<Longrightarrow> above_fence st (l_Generation lk) \<Longrightarrow> Q T' (Inr lk)"
    and leg: "legacy \<noteq> None \<longrightarrow> \<not> usesCanonicalLock st"
  shows "wp P (acquireLock_from_legacy st legacy updateID owner ttl) T Q"
proof -
  have "legacy = None \<or> st_Lock st = None" using leg not_canonical by auto
  note above = above_fence_next [OF this]
  show ?thesis
  proof (cases legacy)
    case None
    with above show ?thesis
      unfolding acquireLock_from_legacy_def acquireLock_new_def by (auto intro!: chosen)
  next
    case (Some l)
    have "above_fence st g" for g using leg Some not_canonical above_fence_zero by auto
    with Some show ?thesis
      unfolding acquireLock_from_legacy_def acquireLock_new_def by (auto intro!: assms(1) chosen)
  qed
qed

text \<open>The lock that the \<^verbatim>\<open>switch\<close> decides to write: a renewal of the caller's own lock, or a grant.\<close>

definition chosen_lock :: "time set \<Rightarrow> stack \<Rightarrow> string \<Rightarrow> lock \<Rightarrow> bool" where
  "chosen_lock T st u lk \<longleftrightarrow>
     (\<exists>l t. st_Lock st = Some l \<and> live T (Some l) u \<and> lk = l\<lparr>l_ExpiresAt := t\<rparr>) \<or>
     l_UpdateID lk = u \<and> dead T (st_Lock st) \<and> (deletionFence (st_Lock st) \<longrightarrow> HasPrefix u ''delete-'') \<and>
     above_fence st (l_Generation lk)"

lemma wp_acquireLock_switch [wp_rules]:
  assumes err: "\<And>err T'. Q T' (Inl err)"
    and chosen: "\<And>lk T'. chosen_lock T' st updateID lk \<Longrightarrow> Q T' (Inr lk)"
    and leg: "legacy \<noteq> None \<longrightarrow> \<not> usesCanonicalLock st"
  shows "wp P (acquireLock_switch st legacy updateID owner ttl) T Q"
proof (cases "st_Lock st")
  case None
  then show ?thesis
    unfolding acquireLock_switch_def
    by (auto intro!: err chosen leg wp_acquireLock_from_legacy simp: chosen_lock_def deletionFence_def
        split: option.split)
next
  case (Some l)
  have "deletionFence (st_Lock st) \<longrightarrow> HasPrefix updateID ''delete-''"
    if "(if HasPrefix updateID ''delete-'' then None else fencing_lock (st_Lock st)) = None"
    using that Some by (auto simp: fencing_lock_def split: if_splits)
  with Some show ?thesis
    unfolding acquireLock_switch_def
    by (auto intro!: err chosen leg wp_acquireLock_from_legacy simp: chosen_lock_def split: option.split)
qed

lemma chosen_lock_step:
  assumes "chosen_lock T st u lk"
  shows "\<exists>ev \<in> {Grant u, Renew u}. doc_step T ev st
    (with_lock st (settled st (l_Generation lk)) (Some (lk\<lparr>l_Generation := settled st (l_Generation lk)\<rparr>)))"
  using assms unfolding chosen_lock_def
proof (elim disjE exE conjE)
  fix l t
  assume l: "st_Lock st = Some l" "live T (Some l) u" "lk = l\<lparr>l_ExpiresAt := t\<rparr>"
  have "doc_step T (Renew u) st (with_lock st (settled st (l_Generation l))
      (Some (l\<lparr>l_Generation := settled st (l_Generation l), l_ExpiresAt := t\<rparr>)))"
    using l by (intro renew) (simp_all add: settled_def)
  then show ?thesis using l by (cases l) simp
next
  assume *: "l_UpdateID lk = u" "dead T (st_Lock st)"
    "deletionFence (st_Lock st) \<longrightarrow> HasPrefix u ''delete-''" "above_fence st (l_Generation lk)"
  show ?thesis
    using grant [of T st "lk\<lparr>l_Generation := settled st (l_Generation lk)\<rparr>"] *
    by (auto simp: above_fence_def)
qed
text \<open>The conditional write that installs (or clears) a lock, as the obligation of the policy.\<close>

lemma etag_irrelevant [simp]:
  "settled (st\<lparr>st_etag := e\<rparr>) g = settled st g"
  "above_fence (st\<lparr>st_etag := e\<rparr>) g = above_fence st g"
  "chosen_lock T (st\<lparr>st_etag := e\<rparr>) u lk = chosen_lock T st u lk"
  "usesCanonicalLock (st\<lparr>st_etag := e\<rparr>) = usesCanonicalLock st"
  by (simp_all add: settled_def above_fence_def chosen_lock_def usesCanonicalLock_def)

lemma put_with_lock:
  assumes "C k e = Doc j0" "unmarshal_stack j0 = Some st"
    and "marshal_stack (st\<lparr>st_etag := e, st_Fence := max (st_Fence st) g,
      st_LockProtocol := canonicalLockProtocol, st_Lock := lk\<rparr>) = Some j"
    and "ev \<in> E" "doc_step T ev st (with_lock st g (map_option persisted_lock lk))"
  shows "doc_put_ok C E T k (Doc j) False (Some e)"
proof (rule doc_put_okI [where C = C, OF assms(1-3) _ assms(4)])
  have clean: "clean_stack st" using assms(2) by (rule unmarshal_stack_clean)
  then show "sm_wf (st_CheckpointVersions (st\<lparr>st_etag := e, st_Fence := max (st_Fence st) g,
      st_LockProtocol := canonicalLockProtocol, st_Lock := lk\<rparr>))" by (simp add: clean_stack_def)
  show "doc_step T ev st (persisted_stack (st\<lparr>st_etag := e, st_Fence := max (st_Fence st) g,
      st_LockProtocol := canonicalLockProtocol, st_Lock := lk\<rparr>))"
    unfolding persisted_with_lock [OF clean] by (rule assms(5))
qed

lemma persisted_lock_simps [simp]:
  "l_UpdateID (persisted_lock l) = l_UpdateID l" "l_Generation (persisted_lock l) = l_Generation l"
  "l_ExpiresAt (persisted_lock l) = l_ExpiresAt l"
  "persisted_lock (l\<lparr>l_Generation := g\<rparr>) = (persisted_lock l)\<lparr>l_Generation := g\<rparr>"
  "persisted_lock (l\<lparr>l_ExpiresAt := t\<rparr>) = (persisted_lock l)\<lparr>l_ExpiresAt := t\<rparr>"
  by (simp_all add: persisted_lock_def)

lemma clean_persisted: "clean_stack st \<Longrightarrow> st_Lock st = Some l \<Longrightarrow> persisted_lock l = l"
  by (simp add: clean_stack_def clean_lock_def)

lemma chosen_lock_persisted:
  "chosen_lock T st u lk \<Longrightarrow> clean_stack st \<Longrightarrow> chosen_lock T st u (persisted_lock lk)"
  unfolding chosen_lock_def using clean_persisted by auto

lemma put_chosen_lock:
  assumes "C k e = Doc j0" "unmarshal_stack j0 = Some st" "chosen_lock T st u lk"
    and "marshal_stack (st\<lparr>st_etag := e, st_Fence := max (st_Fence st) (settled st (l_Generation lk)),
      st_LockProtocol := canonicalLockProtocol,
      st_Lock := Some (lk\<lparr>l_Generation := settled st (l_Generation lk)\<rparr>)\<rparr>) = Some j"
    and "Grant u \<in> E" "Renew u \<in> E"
  shows "doc_put_ok C E T k (Doc j) False (Some e)"
proof -
  have "chosen_lock T st u (persisted_lock lk)"
    using assms(2,3) unmarshal_stack_clean chosen_lock_persisted by blast
  then obtain ev where ev: "ev \<in> {Grant u, Renew u}" and step: "doc_step T ev st
      (with_lock st (settled st (l_Generation lk))
        (Some ((persisted_lock lk)\<lparr>l_Generation := settled st (l_Generation lk)\<rparr>)))"
    using chosen_lock_step [of T st u "persisted_lock lk"] by auto
  show ?thesis
    using ev step assms(5,6) by (intro put_with_lock [where C = C, OF assms(1,2,4)]) auto
qed

lemma settled_lock:
  "(if l_Generation lk = 0 then lk\<lparr>l_Generation := st_Fence st + 1\<rparr> else lk) =
     lk\<lparr>l_Generation := settled st (l_Generation lk)\<rparr>"
  by (cases lk) (simp add: settled_def)

lemma wp_deleteLegacyLock [wp_rules]:
  assumes "ref_ok org project stack" "\<And>r. Q T r"
  shows "wp (doc_policy C K E) (deleteLegacyLock org project stack lk) T Q"
  unfolding deleteLegacyLock_def using assms by (auto intro!: wp_rules split: option.split)

lemma safe_acquireLock_loop:
  assumes ok: "ref_ok org project stack" and ev: "Grant updateID \<in> E" "Renew updateID \<in> E"
  shows "safe (doc_policy C (stackKey org project stack) E) (acquireLock_loop n org project stack incarnation updateID owner ttl) T"
proof (induction n arbitrary: T)
  case (Suc n)
  show ?case
    using ok Suc put_chosen_lock [where C = C and E = E, OF _ _ _ _ ev]
    unfolding acquireLock_loop.simps settled_lock Let_def
    by (auto intro!: wp_rules split: sum.split)
qed simp

text \<open>
  \<open>current_lock\<close>: the lock of the document, or the legacy lock of a document that was never
  written by this protocol.
\<close>

lemma wp_current_lock [wp_rules]:
  assumes "\<And>err. Q T (Inl err)"
    and "st_Lock st \<noteq> None \<or> usesCanonicalLock st \<Longrightarrow> Q T (Inr (st_Lock st, None))"
    and "\<And>l. st_Lock st = None \<Longrightarrow> \<not> usesCanonicalLock st \<Longrightarrow> Q T (Inr (Some l, Some l))"
  shows "wp P (current_lock st org project stack) T Q"
  unfolding current_lock_def using assms by (auto intro!: wp_getLegacyLock split: sum.split)

definition holds_current :: "stack \<Rightarrow> string \<Rightarrow> lock \<Rightarrow> bool" where
  "holds_current st u l \<longleftrightarrow> l_UpdateID l = u \<and> (st_Lock st = Some l \<or> st_Lock st = None \<and> \<not> usesCanonicalLock st)"

lemma put_renewed:
  assumes "C k e = Doc j0" "unmarshal_stack j0 = Some st" "holds_current st u l" "\<not> Expired l now"
    and "marshal_stack (st\<lparr>st_etag := e, st_Fence := max (st_Fence st) (settled st (l_Generation l)),
      st_LockProtocol := canonicalLockProtocol,
      st_Lock := Some (l\<lparr>l_Generation := settled st (l_Generation l), l_ExpiresAt := t\<rparr>)\<rparr>) = Some j"
    and "Grant u \<in> E" "Renew u \<in> E"
  shows "doc_put_ok C E (insert now' (insert now T)) k (Doc j) False (Some e)"
proof -
  have "chosen_lock (insert now' (insert now T)) st u (l\<lparr>l_ExpiresAt := t\<rparr>)"
    using assms(3,4) above_fence_zero [of st] not_canonical [of st]
    by (auto simp: holds_current_def chosen_lock_def deletionFence_def)
  then show ?thesis
    by (rule put_chosen_lock [where C = C, OF assms(1,2) _ _ assms(6,7)]) (use assms(5) in \<open>cases l; simp\<close>)
qed

lemma put_released:
  assumes "C k e = Doc j0" "unmarshal_stack j0 = Some st" "holds_current st u l"
    and "marshal_stack (st\<lparr>st_etag := e, st_Fence := max (st_Fence st) (l_Generation l),
      st_LockProtocol := canonicalLockProtocol, st_Lock := None\<rparr>) = Some j"
    and "Release u \<in> E" "DropLegacy u \<in> E"
  shows "doc_put_ok C E T k (Doc j) False (Some e)"
proof -
  have "\<exists>ev \<in> {Release u, DropLegacy u}. doc_step T ev st (with_lock st (l_Generation l) None)"
    using assms(3) unfolding holds_current_def by (auto intro: release drop_legacy)
  then show ?thesis
    using assms(5,6) put_with_lock [where C = C and E = E and T = T, OF assms(1,2,4)] by auto
qed

lemma settled_fold: "(if g = 0 then st_Fence st + 1 else g) = settled st g"
  by (simp add: settled_def)

lemma safe_renewLock_loop:
  assumes ok: "ref_ok org project stack" and ev: "Grant updateID \<in> E" "Renew updateID \<in> E"
  shows "safe (doc_policy C (stackKey org project stack) E) (renewLock_loop n org project stack updateID generation ttl) T"
proof (induction n arbitrary: T)
  case (Suc n)
  show ?case
    using ok Suc put_renewed [where C = C and E = E, OF _ _ _ _ _ ev]
    unfolding renewLock_loop.simps Let_def settled_fold
    by (auto intro!: wp_rules simp: holds_current_def split: sum.split option.split)
qed simp

lemma safe_releaseLock_loop:
  assumes ok: "ref_ok org project stack" and ev: "Release updateID \<in> E" "DropLegacy updateID \<in> E"
  shows "safe (doc_policy C (stackKey org project stack) E) (releaseLock_loop n org project stack updateID generation) T"
proof (induction n arbitrary: T)
  case (Suc n)
  show ?case
    using ok Suc put_released [where C = C and E = E, OF _ _ _ _ ev]
    unfolding releaseLock_loop.simps Let_def
    by (auto intro!: wp_rules simp: holds_current_def split: sum.split option.split)
qed simp
subsection \<open>Deletion\<close>

lemma wp_listObjectsExcept [wp_rules]:
  assumes "\<And>err. Q T (Inl err)"
    and "\<And>ks. (\<And>k. k \<in> set ks \<Longrightarrow> HasPrefix k pfx \<and> k \<notin> set excl) \<Longrightarrow> Q T (Inr ks)"
  shows "wp P (listObjectsExcept pfx excl) T Q"
  unfolding listObjectsExcept_def
  by (auto intro!: assms simp: list_all_iff split: option.split)

text \<open>The objects that \<^verbatim>\<open>DeleteStack\<close> lists for removal never include a stack document.\<close>

lemma data_not_stack_key:
  assumes "ref_ok org project stack" "incarnation \<noteq> ''''" "HasPrefix k (stackDataPrefix org project stack incarnation)"
  shows "\<not> is_stack_key k"
  using assms(3) by (rule HasPrefixE) (metis is_stack_key_def stackKey_not_data [OF _ assms(1,2)])

lemma other_not_stack_key:
  assumes "ref_ok org project stack" "HasPrefix k (stackPrefix org project stack)" "k \<noteq> stackKey org project stack"
  shows "\<not> is_stack_key k"
  using assms HasPrefix_stackPrefix [OF _ assms(1)] unfolding is_stack_key_def stackKey_def by blast

lemma wp_listStackIncarnationObjects [wp_rules]:
  assumes ok: "ref_ok org project stack" and "\<And>err. Q T (Inl err)"
    and "\<And>ks. (\<And>k. k \<in> set ks \<Longrightarrow> \<not> is_stack_key k) \<Longrightarrow> Q T (Inr ks)"
  shows "wp P (listStackIncarnationObjects org project stack incarnation) T Q"
  unfolding listStackIncarnationObjects_def Let_def
  using data_not_stack_key [OF ok] other_not_stack_key [OF ok]
  by (auto intro!: wp_listObjectsExcept assms)

lemma wp_validateDeletionFence [wp_rules]:
  assumes "\<And>T' r. T \<subseteq> T' \<Longrightarrow> Q T' r"
  shows "wp P (validateDeletionFence st updateID generation) T Q"
  unfolding validateDeletionFence_def
  by (auto intro!: wp_GetStack assms split: option.split)

lemma wp_deleteObjects_loop [wp_rules]:
  assumes "\<And>k. k \<in> set ks \<Longrightarrow> \<not> is_stack_key k" and "\<And>T' r. T \<subseteq> T' \<Longrightarrow> Q T' r"
  shows "wp (doc_policy C K E) (deleteObjects_loop st updateID generation ks) T Q"
  using assms
proof (induction st updateID generation ks arbitrary: T rule: deleteObjects_loop.induct)
  case (1 st updateID generation ks)
  have ks: "\<not> is_stack_key k" if "k \<in> set (take 1000 ks) \<union> set (drop 1000 ks)" for k
    using "1.prems"(1) that by (auto dest: in_set_takeD in_set_dropD)
  have rest: "wp (doc_policy C K E) (deleteObjects_loop st updateID generation (drop 1000 ks)) T' Q"
    if "ks \<noteq> []" "T \<subseteq> T'" for T'
    using that ks "1.prems"(2) by (intro "1.IH") auto
  show ?case
    unfolding deleteObjects_loop.simps [of st updateID generation ks]
    using rest ks "1.prems"(2)
    by (auto intro!: wp_validateDeletionFence split: sum.split list.split)
qed

lemma safe_DeleteStack:
  assumes ok: "ref_ok org project stack" and ev: "Remove updateID generation \<in> E"
  shows "safe (doc_policy C (stackKey org project stack) E) (DeleteStack org project stack incarnation updateID generation) T"
proof -
  have del: "doc_delete_ok C E T' k e"
    if "C k e = Doc j" "unmarshal_stack j = Some st" "st_Lock st = Some l" "\<not> Expired l now"
      "HasPrefix updateID ''delete-''" "l_UpdateID l = updateID" "l_Generation l = generation"
      "now \<in> T0" "T0 \<subseteq> T'" for T0 T' k e j st l now
  proof -
    have "removable T' updateID generation st" using that by (auto simp: removable_def)
    with that ev show ?thesis unfolding doc_delete_ok_def by fastforce
  qed
  show ?thesis
    unfolding DeleteStack_def using ok del
    by (auto intro!: wp_rules simp: deletionFence_def split: sum.split option.split)
qed

end
