(* ===== verification/Store_System.thy ===== *)
theory Store_System
  imports Lock_Protocol
begin

text \<open>
  Any number of clients (API servers, or requests of one server) work on one bucket at the same
  time. Each runs an operation of the \<^verbatim>\<open>Store\<close> interface, one request after the other; the
  requests of different clients interleave freely, a client may stop between any two requests,
  time passes, and the service may fail as \<open>s3_service\<close> allows. The theorems say what then
  can happen to the document of a stack.
\<close>

section \<open>The operations of the interface\<close>

datatype store_op =
    Op_CreateStack string string string
  | Op_GetStack string string string
  | Op_ListStacks string
  | Op_DeleteStack string string string string string uint64
  | Op_GetCheckpoint string string string
  | Op_GetCheckpointVersion string string string int64
  | Op_SaveCheckpoint string string string string string uint64 int64 json
  | Op_CreateUpdate string string string string string
  | Op_GetUpdate string string string string
  | Op_StartUpdate string string string string
  | Op_CompleteUpdate string string string string string string "int64 smap"
  | Op_ListUpdates string string string
  | Op_AcquireLock string string string string string string duration
  | Op_RenewLock string string string string uint64 duration
  | Op_ReleaseLock string string string string uint64
  | Op_GetLock string string string

text \<open>The program of an operation, its result set aside.\<close>

definition forget :: "'a prog \<Rightarrow> unit prog" where
  "forget p = call p (\<lambda>_. Return ())"

fun op_prog :: "(json \<Rightarrow> string) \<Rightarrow> store_op \<Rightarrow> unit prog" where
  "op_prog sha (Op_CreateStack org project stack) = forget (CreateStack org project stack)"
| "op_prog sha (Op_GetStack org project stack) = forget (GetStack org project stack)"
| "op_prog sha (Op_ListStacks org) = forget (ListStacks org)"
| "op_prog sha (Op_DeleteStack org project stack incarnation updateID generation) =
     forget (DeleteStack org project stack incarnation updateID generation)"
| "op_prog sha (Op_GetCheckpoint org project stack) = forget (GetCheckpoint org project stack)"
| "op_prog sha (Op_GetCheckpointVersion org project stack version) =
     forget (GetCheckpointVersion org project stack version)"
| "op_prog sha (Op_SaveCheckpoint org project stack incarnation updateID generation version deployment) =
     forget (SaveCheckpoint sha org project stack incarnation updateID generation version deployment)"
| "op_prog sha (Op_CreateUpdate org project stack kind updateID) =
     forget (CreateUpdate org project stack kind updateID)"
| "op_prog sha (Op_GetUpdate org project stack updateID) = forget (GetUpdate org project stack updateID)"
| "op_prog sha (Op_StartUpdate org project stack updateID) = forget (StartUpdate org project stack updateID)"
| "op_prog sha (Op_CompleteUpdate org project stack updateID status message resourceChanges) =
     forget (CompleteUpdate org project stack updateID status message resourceChanges)"
| "op_prog sha (Op_ListUpdates org project stack) = forget (ListUpdates org project stack)"
| "op_prog sha (Op_AcquireLock org project stack incarnation updateID owner ttl) =
     forget (AcquireLock org project stack incarnation updateID owner ttl)"
| "op_prog sha (Op_RenewLock org project stack updateID generation ttl) =
     forget (RenewLock org project stack updateID generation ttl)"
| "op_prog sha (Op_ReleaseLock org project stack updateID generation) =
     forget (ReleaseLock org project stack updateID generation)"
| "op_prog sha (Op_GetLock org project stack) = forget (GetLock org project stack)"

text \<open>
  The segments of the stack reference of an operation; the API passes only segments without a
  slash. \<^verbatim>\<open>ListStacks\<close> has none.
\<close>

fun op_ref :: "store_op \<Rightarrow> (string \<times> string \<times> string) option" where
  "op_ref (Op_ListStacks org) = None"
| "op_ref (Op_CreateStack org project stack) = Some (org, project, stack)"
| "op_ref (Op_GetStack org project stack) = Some (org, project, stack)"
| "op_ref (Op_DeleteStack org project stack _ _ _) = Some (org, project, stack)"
| "op_ref (Op_GetCheckpoint org project stack) = Some (org, project, stack)"
| "op_ref (Op_GetCheckpointVersion org project stack _) = Some (org, project, stack)"
| "op_ref (Op_SaveCheckpoint org project stack _ _ _ _ _) = Some (org, project, stack)"
| "op_ref (Op_CreateUpdate org project stack _ _) = Some (org, project, stack)"
| "op_ref (Op_GetUpdate org project stack _) = Some (org, project, stack)"
| "op_ref (Op_StartUpdate org project stack _) = Some (org, project, stack)"
| "op_ref (Op_CompleteUpdate org project stack _ _ _ _) = Some (org, project, stack)"
| "op_ref (Op_ListUpdates org project stack) = Some (org, project, stack)"
| "op_ref (Op_AcquireLock org project stack _ _ _ _) = Some (org, project, stack)"
| "op_ref (Op_RenewLock org project stack _ _ _) = Some (org, project, stack)"
| "op_ref (Op_ReleaseLock org project stack _ _) = Some (org, project, stack)"
| "op_ref (Op_GetLock org project stack) = Some (org, project, stack)"

definition op_ok :: "store_op \<Rightarrow> bool" where
  "op_ok op = (case op_ref op of None \<Rightarrow> True | Some (org, project, stack) \<Rightarrow> ref_ok org project stack)"

text \<open>The key of the document of an operation's stack.\<close>

definition op_key :: "store_op \<Rightarrow> string" where
  "op_key op = (case op_ref op of None \<Rightarrow> [] | Some (org, project, stack) \<Rightarrow> stackKey org project stack)"

text \<open>The events by which an operation may change a stack document.\<close>

fun op_events :: "store_op \<Rightarrow> doc_event set" where
  "op_events (Op_CreateStack _ _ _) = {Create}"
| "op_events (Op_DeleteStack _ _ _ _ u g) = {Remove u g}"
| "op_events (Op_SaveCheckpoint _ _ _ _ u g v _) = {SaveState u g v}"
| "op_events (Op_CreateUpdate _ _ _ _ u) = insert Barrier (range (CommitVersion u))"
| "op_events (Op_AcquireLock _ _ _ _ u _ _) = {Grant u, Renew u}"
| "op_events (Op_RenewLock _ _ _ u _ _) = {Grant u, Renew u}"
| "op_events (Op_ReleaseLock _ _ _ u _) = {Release u, DropLegacy u}"
| "op_events _ = {}"

lemma safe_forget [simp]: "safe P (forget p) T \<longleftrightarrow> safe P p T"
  by (simp add: forget_def)

lemma safe_readers [simp]:
  "safe P (GetStack org project stack) T"
  "safe P (GetUpdate org project stack updateID) T"
  by (auto intro!: wp_rules)

lemma safe_op:
  assumes "op_ok op"
  shows "safe (doc_policy C (op_key op) (op_events op)) (op_prog sha op) T"
  using assms
  by (cases op) (auto simp: op_ok_def op_key_def AcquireLock_def RenewLock_def ReleaseLock_def
      intro!: safe_CreateStack safe_ListStacks safe_DeleteStack safe_GetCheckpoint
      safe_GetCheckpointVersion safe_SaveCheckpoint safe_CreateUpdate safe_StartUpdate
      safe_CompleteUpdate safe_ListUpdates safe_acquireLock_loop safe_renewLock_loop
      safe_releaseLock_loop safe_GetLock)

section \<open>The system\<close>

type_synonym 'w system = "'w \<times> (nat \<Rightarrow> (store_op \<times> unit prog) option)"

text \<open>The label of a step is the operation of the client that sent a request, if one did.\<close>

inductive sys_step ::
  "'w handler \<Rightarrow> ('w \<Rightarrow> string \<Rightarrow> (body \<times> string) option) \<Rightarrow> ('w \<Rightarrow> time) \<Rightarrow> (json \<Rightarrow> string) \<Rightarrow>
     'w system \<Rightarrow> store_op option \<Rightarrow> 'w system \<Rightarrow> bool" for h objs clock sha where
  begin_op: "cs i = None \<Longrightarrow> op_ok op \<Longrightarrow>
     sys_step h objs clock sha (w, cs) None (w, cs(i \<mapsto> (op, op_prog sha op)))"
| request: "cs i = Some (op, p) \<Longrightarrow> step h p w = (p', w') \<Longrightarrow>
     sys_step h objs clock sha (w, cs) (Some op) (w', cs(i \<mapsto> (op, p')))"
| stop_op: "sys_step h objs clock sha (w, cs) None (w, cs(i := None))"
| pass_time: "objs w' = objs w \<Longrightarrow> clock w \<le> clock w' \<Longrightarrow>
     sys_step h objs clock sha (w, cs) None (w', cs)"

inductive_cases sys_stepE: "sys_step h objs clock sha s a s'"

inductive reachable ::
  "'w handler \<Rightarrow> ('w \<Rightarrow> string \<Rightarrow> (body \<times> string) option) \<Rightarrow> ('w \<Rightarrow> time) \<Rightarrow> (json \<Rightarrow> string) \<Rightarrow>
     'w system \<Rightarrow> bool" for h objs clock sha where
  start: "reachable h objs clock sha (w, \<lambda>_. None)"
| step: "reachable h objs clock sha s \<Longrightarrow> sys_step h objs clock sha s a s' \<Longrightarrow>
     reachable h objs clock sha s'"

text \<open>How the object under the key of a stack document may change from one step to the next.\<close>

inductive doc_change ::
  "doc_event set \<Rightarrow> time set \<Rightarrow> (body \<times> string) option \<Rightarrow> (body \<times> string) option \<Rightarrow> bool" for E T where
  same: "doc_change E T d d"
| created: "Create \<in> E \<Longrightarrow> stack_of b = Some st \<Longrightarrow> fresh_doc st \<Longrightarrow> doc_change E T None (Some (b, e))"
| changed: "stack_of b = Some st \<Longrightarrow> stack_of b' = Some st' \<Longrightarrow> ev \<in> E \<Longrightarrow> doc_step T ev st st' \<Longrightarrow>
     doc_change E T (Some (b, e)) (Some (b', e'))"
| removed: "Remove u g \<in> E \<Longrightarrow> stack_of b = Some st \<Longrightarrow> removable T u g st \<Longrightarrow>
     doc_change E T (Some (b, e)) None"

inductive_cases doc_changeE: "doc_change E T d d'"

text \<open>The events by which a step may change the document under \<open>k\<close>.\<close>

definition label_events :: "store_op option \<Rightarrow> string \<Rightarrow> doc_event set" where
  "label_events a k = (case a of None \<Rightarrow> {} | Some op \<Rightarrow> if op_key op = k then op_events op else {})"

section \<open>Every change of a stack document is a step of the protocol\<close>

context s3_service
begin

text \<open>
  The invariant: whatever is left of the program of a client only issues writes that the policy
  permits, given clock readings that lie in the past.
\<close>

definition client_ok :: "'w \<Rightarrow> store_op \<Rightarrow> unit prog \<Rightarrow> bool" where
  "client_ok w op p \<longleftrightarrow> op_ok op \<and> (\<exists>T. safe (doc_policy content (op_key op) (op_events op)) p T \<and>
     (\<forall>t \<in> T. t \<le> clock w))"

definition sys_inv :: "'w system \<Rightarrow> bool" where
  "sys_inv s = (case s of (w, cs) \<Rightarrow> \<forall>i op p. cs i = Some (op, p) \<longrightarrow> client_ok w op p)"

lemma client_ok_mono: "client_ok w op p \<Longrightarrow> clock w \<le> clock w' \<Longrightarrow> client_ok w' op p"
  unfolding client_ok_def by (meson order_trans)

lemma permitted_doc_change:
  assumes "permitted (doc_policy content K E) T w w'" "is_stack_key k"
  shows "doc_change (if K = k then E else {}) T (objs w k) (objs w' k)"
  using assms(1) unfolding permitted_def
proof (elim disjE exE conjE)
  assume "objs w' = objs w"
  then show ?thesis by (simp add: same)
next
  fix k' b inm im e
  assume put: "may_put (doc_policy content K E) T k' b inm im" "objs w' = (objs w)(k' \<mapsto> (b, e))"
    "inm \<longrightarrow> objs w k' = None" "\<forall>e0. im = Some e0 \<longrightarrow> objs w k' = Some (content k' e0, e0)"
  show ?thesis
  proof (cases "k' = k")
    case True
    with put(1) assms(2) have K: "K = k" and ok: "doc_put_ok content E T k b inm im" by auto
    show ?thesis
      using ok put(2-4) True K
      by (cases im) (auto simp: doc_put_ok_def intro: created changed)
  qed (use put(2) same in auto)
next
  fix k' e
  assume del: "may_delete (doc_policy content K E) T k' e" "objs w' = (objs w)(k' := None)"
    "objs w k' = Some (content k' e, e)"
  show ?thesis
  proof (cases "k' = k")
    case True
    with del(1) assms(2) have K: "K = k" and ok: "doc_delete_ok content E T k e" by auto
    show ?thesis
      using ok del(2,3) True K by (auto simp: doc_delete_ok_def intro: removed)
  qed (use del(2) same in auto)
next
  fix ks D
  assume many: "may_delete_many (doc_policy content K E) ks" "D \<subseteq> set ks" "objs w' = objs w |` (- D)"
  then have "k \<notin> D" using assms(2) by auto
  with many(3) show ?thesis by (simp add: restrict_map_def same)
qed

lemma sys_step_inv:
  assumes "sys_inv s" "sys_step h objs clock sha s a s'"
  shows "sys_inv s' \<and> clock (fst s) \<le> clock (fst s') \<and>
    (is_stack_key k \<longrightarrow> (\<exists>T. (\<forall>t \<in> T. t \<le> clock (fst s)) \<and>
       doc_change (label_events a k) T (objs (fst s) k) (objs (fst s') k)))"
  using assms(2,1)
proof (cases rule: sys_step.cases)
  case (begin_op cs i op w)
  have "client_ok w op (op_prog sha op)"
    using begin_op(5) safe_op [OF begin_op(5)] unfolding client_ok_def by blast
  with begin_op assms(1) same show ?thesis
    by (auto simp: sys_inv_def intro!: exI [of _ "{} :: time set"])
next
  case (request cs i op p w p' w')
  let ?P = "doc_policy content (op_key op) (op_events op)"
  have "client_ok w op p" using assms(1) request(1,4) by (simp add: sys_inv_def)
  then obtain T where T: "safe ?P p T" "\<forall>t \<in> T. t \<le> clock w" by (auto simp: client_ok_def)
  have reads: "may_read ?P = (\<lambda>k b e. content k e = b)" by (simp add: doc_policy_def)
  from step_permitted [OF T(1) reads T(2) request(5)]
  have step: "permitted ?P T w w'" "clock w \<le> clock w'" "client_ok w' op p'"
    using \<open>client_ok w op p\<close> by (auto simp: client_ok_def)
  have "sys_inv s'"
    using assms(1) step(3) client_ok_mono [OF _ step(2)] by (auto simp: request(1,3) sys_inv_def)
  moreover have "doc_change (label_events a k) T (objs w k) (objs w' k)" if "is_stack_key k"
    using permitted_doc_change [OF step(1) that] by (simp add: label_events_def request(2))
  ultimately show ?thesis using request(1,3) step(2) T(2) by auto
next
  case (stop_op w cs i)
  then show ?thesis using assms(1) same by (auto simp: sys_inv_def intro!: exI [of _ "{} :: time set"])
next
  case (pass_time w' w cs)
  have "sys_inv s'"
    using assms(1) client_ok_mono [OF _ pass_time(5)] by (simp add: pass_time(1,3) sys_inv_def)
  with pass_time same show ?thesis by (auto intro!: exI [of _ "{} :: time set"])
qed

lemma reachable_inv: "reachable h objs clock sha s \<Longrightarrow> sys_inv s"
proof (induction rule: reachable.induct)
  case (start w)
  then show ?case by (simp add: sys_inv_def)
next
  case (step s a s')
  then show ?case using sys_step_inv by blast
qed

lemmas reachable_change = sys_step_inv [OF reachable_inv]

lemma label_ok: "reachable h objs clock sha s \<Longrightarrow> sys_step h objs clock sha s (Some op) s' \<Longrightarrow> op_ok op"
  by (drule reachable_inv) (auto elim!: sys_stepE simp: sys_inv_def client_ok_def)

end

section \<open>Facts about the protocol\<close>

lemma Expired_mono: "Expired l t \<Longrightarrow> t \<le> t' \<Longrightarrow> Expired l t'"
  by (simp add: Expired_def)

text \<open>What each event leaves of the lock, given that times in \<open>T\<close> are not after \<open>now\<close>.\<close>

lemma doc_step_live_lock:
  assumes "doc_step T ev st st'" "st_Lock st = Some l" "\<not> Expired l now" "\<forall>t \<in> T. t \<le> now"
  shows "(\<exists>l'. st_Lock st' = Some l' \<and> l_UpdateID l' = l_UpdateID l \<and> l_Owner l' = l_Owner l \<and>
      (l_Generation l' = l_Generation l \<or> l_Generation l = 0)) \<or>
    ev = Release (l_UpdateID l) \<and> st_Lock st' = None"
  using assms(1)
proof (cases rule: doc_step.cases)
  case (grant l')
  with assms show ?thesis using Expired_mono by fastforce
qed (use assms(2) in \<open>auto simp: with_lock_def record_checkpoint_def\<close>)

lemma doc_step_fence_mono: "doc_step T ev st st' \<Longrightarrow> st_Fence st \<le> st_Fence st'"
  by (erule doc_step.cases) (auto simp: with_lock_def record_checkpoint_def)

lemma doc_step_incarnation: "doc_step T ev st st' \<Longrightarrow> st_Incarnation st' = st_Incarnation st"
  by (erule doc_step.cases) (auto simp: with_lock_def record_checkpoint_def)

text \<open>
  A generation is superseded when it is not above the fence and the lock, if any, has another
  one. \<open>held_or_superseded\<close>: until then the lock is still the one of update \<open>u\<close>.
\<close>

definition superseded :: "uint64 \<Rightarrow> stack \<Rightarrow> bool" where
  "superseded g st \<longleftrightarrow> g \<le> st_Fence st \<and> (\<forall>l. st_Lock st = Some l \<longrightarrow> l_Generation l \<noteq> g)"

definition held_or_superseded :: "string \<Rightarrow> uint64 \<Rightarrow> stack \<Rightarrow> bool" where
  "held_or_superseded u g st \<longleftrightarrow> superseded g st \<or>
     g \<le> st_Fence st \<and> (\<exists>l. st_Lock st = Some l \<and> l_UpdateID l = u \<and> l_Generation l = g)"

lemma superseded_step:
  assumes "doc_step T ev st st'" "superseded g st" "st_Fence st \<noteq> - 1"
  shows "superseded g st'"
proof -
  have succ: "st_Fence st < st_Fence st + 1" by (rule word_less_succ [OF assms(3)])
  show ?thesis
    using assms(1)
  proof (cases rule: doc_step.cases)
    case (renew l t)
    then show ?thesis
      using assms(2) succ by (auto simp: superseded_def with_lock_def le_max_iff_disj)
  qed (use assms(2,3) in
      \<open>auto simp: superseded_def with_lock_def record_checkpoint_def le_max_iff_disj\<close>)
qed

lemma held_or_superseded_step:
  assumes "doc_step T ev st st'" "held_or_superseded u g st" "st_Fence st \<noteq> - 1" "g \<noteq> 0"
  shows "held_or_superseded u g st'"
proof (cases "superseded g st")
  case True
  then show ?thesis using superseded_step [OF assms(1) _ assms(3)] by (simp add: held_or_superseded_def)
next
  case False
  then obtain l where "g \<le> st_Fence st" "st_Lock st = Some l" "l_UpdateID l = u" "l_Generation l = g"
    using assms(2) by (auto simp: held_or_superseded_def)
  with assms show ?thesis
    by (auto elim!: doc_step.cases
        simp: held_or_superseded_def superseded_def with_lock_def record_checkpoint_def le_max_iff_disj)
qed

section \<open>What this means for the clients\<close>

text \<open>The document \<open>st\<close> is stored under \<open>k\<close>.\<close>

definition doc_at :: "('w \<Rightarrow> string \<Rightarrow> (body \<times> string) option) \<Rightarrow> 'w system \<Rightarrow> string \<Rightarrow> stack \<Rightarrow> bool" where
  "doc_at objs s k st \<longleftrightarrow> (\<exists>b e. objs (fst s) k = Some (b, e) \<and> stack_of b = Some st)"

lemma op_key_ref:
  assumes "op_ok op" "ref_ok org project stack" "op_key op = stackKey org project stack"
  shows "op_ref op = Some (org, project, stack)"
proof (cases "op_ref op")
  case None
  with assms(3) show ?thesis by (simp add: op_key_def stackKey_def)
next
  case (Some r)
  then show ?thesis
    using assms by (cases r) (simp add: op_key_def op_ok_def stackKey_inject)
qed

text \<open>The change of a document that is there before a step, with the operation that caused it.\<close>

context s3_service
begin

lemma doc_at_change:
  assumes "reachable h objs clock sha s" "sys_step h objs clock sha s a s'" "ref_ok org project stack"
    and "doc_at objs s (stackKey org project stack) st"
  obtains (same) "objs (fst s') (stackKey org project stack) = objs (fst s) (stackKey org project stack)"
  | (changed) T op ev st' where "a = Some op" "op_ref op = Some (org, project, stack)" "ev \<in> op_events op"
      "doc_at objs s' (stackKey org project stack) st'" "\<forall>t \<in> T. t \<le> clock (fst s)" "doc_step T ev st st'"
  | (removed) T op u g where "a = Some op" "op_ref op = Some (org, project, stack)" "Remove u g \<in> op_events op"
      "objs (fst s') (stackKey org project stack) = None" "\<forall>t \<in> T. t \<le> clock (fst s)" "removable T u g st"
proof -
  let ?k = "stackKey org project stack"
  have "is_stack_key ?k" using assms(3) by (auto simp: is_stack_key_def)
  then obtain T where T: "\<forall>t \<in> T. t \<le> clock (fst s)"
      and change: "doc_change (label_events a ?k) T (objs (fst s) ?k) (objs (fst s') ?k)"
    using reachable_change [OF assms(1,2)] by blast
  have op: "\<exists>op. a = Some op \<and> op_ref op = Some (org, project, stack) \<and> ev \<in> op_events op"
    if "ev \<in> label_events a ?k" for ev
    using that label_ok [OF assms(1)] assms(2) op_key_ref [OF _ assms(3)]
    by (auto simp: label_events_def split: option.splits if_splits)
  from change show thesis
  proof (cases rule: doc_change.cases)
    case same
    then show thesis using that(1) by simp
  next
    case (created b st' e)
    then show thesis using assms(4) by (simp add: doc_at_def)
  next
    case (changed b st0 b' st' ev e e')
    then have "st0 = st" "doc_at objs s' ?k st'" using assms(4) by (auto simp: doc_at_def)
    then show thesis using changed op T that(2) by blast
  next
    case (removed u g b st0 e)
    then have "st0 = st" using assms(4) by (auto simp: doc_at_def)
    then show thesis using removed op T that(3) by blast
  qed
qed

end
lemma event_op:
  assumes "op_ref op = Some (org, project, stack)"
  shows "Release u \<in> op_events op \<Longrightarrow> \<exists>g. op = Op_ReleaseLock org project stack u g"
    and "Remove u g \<in> op_events op \<Longrightarrow> \<exists>inc. op = Op_DeleteStack org project stack inc u g"
    and "CommitVersion u g \<in> op_events op \<Longrightarrow> \<exists>kind. op = Op_CreateUpdate org project stack kind u"
    and "SaveState u g v \<in> op_events op \<Longrightarrow> \<exists>inc d. op = Op_SaveCheckpoint org project stack inc u g v d"
  using assms by (cases op; auto)+
text \<open>
  C1. Refinement. In every reachable state of the system, whatever the interleaving of the
  clients' requests and whichever requests fail, a step changes the document of a stack only
  the way the abstract protocol allows: the document is created fresh, or changed by an event
  that belongs to the acting client's operation on this very stack and whose guard held for
  the replaced document at a time in the past, or removed by a deletion under its live fence.
\<close>

theorem stack_documents_follow_protocol:
  assumes "s3_service h objs content clock" "reachable h objs clock sha s"
    and "sys_step h objs clock sha s a s'" "ref_ok org project stack"
  shows "\<exists>T. (\<forall>t \<in> T. t \<le> clock (fst s)) \<and>
     doc_change (label_events a (stackKey org project stack)) T
       (objs (fst s) (stackKey org project stack)) (objs (fst s') (stackKey org project stack))"
proof -
  have "is_stack_key (stackKey org project stack)" using assms(4) by (auto simp: is_stack_key_def)
  with s3_service.reachable_change [OF assms(1-3)] show ?thesis by simp
qed

text \<open>
  C4. Mutual exclusion. As long as the lease of the lock in a stack document has not run out,
  no step of any client takes the lock away from its update: after the step the document
  still holds a lock of the same update and owner, with the same generation (unless it had
  none yet), or it was released by \<^verbatim>\<open>ReleaseLock\<close> for this update, or the lock is a
  deletion fence and the document was removed by the \<^verbatim>\<open>DeleteStack\<close> that holds it.
\<close>

theorem live_lease_is_exclusive:
  assumes service: "s3_service h objs content clock" and reach: "reachable h objs clock sha s"
    and step: "sys_step h objs clock sha s a s'" and ok: "ref_ok org project stack"
    and doc: "doc_at objs s (stackKey org project stack) st"
    and lock: "st_Lock st = Some l" "\<not> Expired l (clock (fst s))"
  shows "(\<exists>st' l'. doc_at objs s' (stackKey org project stack) st' \<and> st_Lock st' = Some l' \<and>
        l_UpdateID l' = l_UpdateID l \<and> l_Owner l' = l_Owner l \<and>
        (l_Generation l' = l_Generation l \<or> l_Generation l = 0)) \<or>
      (\<exists>st' g. doc_at objs s' (stackKey org project stack) st' \<and> st_Lock st' = None \<and>
        a = Some (Op_ReleaseLock org project stack (l_UpdateID l) g)) \<or>
      (\<exists>inc. objs (fst s') (stackKey org project stack) = None \<and> deletionFence (Some l) \<and>
        a = Some (Op_DeleteStack org project stack inc (l_UpdateID l) (l_Generation l)))"
proof (cases rule: s3_service.doc_at_change [OF service reach step ok doc, case_names same changed removed])
  case same
  then have "doc_at objs s' (stackKey org project stack) st" using doc by (simp add: doc_at_def)
  with lock show ?thesis by blast
next
  case (changed T op ev st')
  from doc_step_live_lock [OF changed(6) lock changed(5)] show ?thesis
  proof (elim disjE conjE)
    assume ev: "ev = Release (l_UpdateID l)" and "st_Lock st' = None"
    have "\<exists>g. op = Op_ReleaseLock org project stack (l_UpdateID l) g"
      using changed(3) ev by (simp add: event_op(1) [OF changed(2)])
    with changed(1,4) \<open>st_Lock st' = None\<close> show ?thesis by blast
  qed (use changed(4) in blast)
next
  case (removed T op u g)
  then have l: "u = l_UpdateID l" "g = l_Generation l" "deletionFence (Some l)"
    using lock(1) by (auto simp: removable_def deletionFence_def)
  with event_op(2) [OF removed(2,3)] removed(1,4) show ?thesis by blast
qed

text \<open>
  C6. The checkpoint, the version and the incarnation of a stack. A step that changes the
  version adds one to it and belongs to a \<^verbatim>\<open>CreateUpdate\<close> of the update that held the lock;
  a step that changes the recorded checkpoints belongs to a \<^verbatim>\<open>SaveCheckpoint\<close>, either one whose update
  and generation held the lock at the version it saves, or one without an update, for version
  0, while the stack has no lock and no version: with such a call \<^verbatim>\<open>createStack\<close> seeds the
  initial state of a new stack. No step changes the incarnation.
\<close>

theorem state_changes_by_holder_or_seeding:
  assumes service: "s3_service h objs content clock" and reach: "reachable h objs clock sha s"
    and step: "sys_step h objs clock sha s a s'" and ok: "ref_ok org project stack"
    and doc: "doc_at objs s (stackKey org project stack) st" "doc_at objs s' (stackKey org project stack) st'"
  shows "st_Incarnation st' = st_Incarnation st \<and>
     (st_Version st' = st_Version st \<or> st_Version st' = st_Version st + 1 \<and>
       (\<exists>kind u l t. a = Some (Op_CreateUpdate org project stack kind u) \<and> st_Lock st = Some l \<and>
          l_UpdateID l = u \<and> t \<le> clock (fst s) \<and> \<not> Expired l t)) \<and>
     (st_LatestCheckpointKey st' = st_LatestCheckpointKey st \<and>
        st_CheckpointVersions st' = st_CheckpointVersions st \<or>
      (\<exists>inc u g v d. a = Some (Op_SaveCheckpoint org project stack inc u g v d) \<and> st_Version st = v \<and>
         (case st_Lock st of
            None \<Rightarrow> u = '''' \<and> v = 0
          | Some l \<Rightarrow> l_UpdateID l = u \<and> l_Generation l = g \<and> (\<exists>t \<le> clock (fst s). \<not> Expired l t))))"
proof (cases rule: s3_service.doc_at_change [OF service reach step ok doc(1), case_names same changed removed])
  case same
  then have "st' = st" using doc by (auto simp: doc_at_def)
  then show ?thesis by simp
next
  case (changed T op ev st1)
  have st1: "st1 = st'" using changed(4) doc(2) by (auto simp: doc_at_def)
  from changed(6) show ?thesis
  proof (cases rule: doc_step.cases)
    case (commit_version u g now)
    then obtain l t where l: "st_Lock st = Some l" "l_UpdateID l = u" "t \<in> T" "\<not> Expired l t"
      by (auto simp: live_gen_def)
    moreover have "\<exists>kind. op = Op_CreateUpdate org project stack kind u"
      using changed(3) commit_version(1) by (simp add: event_op(3) [OF changed(2)])
    ultimately show ?thesis using commit_version changed(1,5) st1 by auto
  next
    case (save_state u g v key)
    have "\<exists>inc d. op = Op_SaveCheckpoint org project stack inc u g v d"
      using changed(3) save_state(1) by (simp add: event_op(4) [OF changed(2)])
    then show ?thesis
      using save_state(2,3) changed(1,5) st1 by (auto simp: record_checkpoint_def live_gen_def)
  qed (use st1 in \<open>auto simp: with_lock_def\<close>)
next
  case (removed T op u g)
  then show ?thesis using doc(2) by (simp add: doc_at_def)
qed
text \<open>Executions during which the object under \<open>k\<close> is never absent.\<close>

inductive run_keeping ::
  "'w handler \<Rightarrow> ('w \<Rightarrow> string \<Rightarrow> (body \<times> string) option) \<Rightarrow> ('w \<Rightarrow> time) \<Rightarrow> (json \<Rightarrow> string) \<Rightarrow>
     string \<Rightarrow> 'w system \<Rightarrow> 'w system \<Rightarrow> bool" for h objs clock sha k s where
  keep_start: "run_keeping h objs clock sha k s s"
| keep_step: "run_keeping h objs clock sha k s s' \<Longrightarrow> sys_step h objs clock sha s' a s'' \<Longrightarrow>
     objs (fst s'') k \<noteq> None \<Longrightarrow> run_keeping h objs clock sha k s s''"

lemma run_keeping_reachable:
  "run_keeping h objs clock sha k s s' \<Longrightarrow> reachable h objs clock sha s \<Longrightarrow> reachable h objs clock sha s'"
  by (induction rule: run_keeping.induct) (auto intro: reachable.step)

lemma doc_at_unique: "doc_at objs s k st \<Longrightarrow> doc_at objs s k st' \<Longrightarrow> st = st'"
  by (auto simp: doc_at_def)

context s3_service
begin

text \<open>
  A property of the document that every event preserves, as long as the fence is not used up,
  holds along the execution; and the fence never goes down.
\<close>

lemma run_invariant:
  assumes "run_keeping h objs clock sha (stackKey org project stack) s s'" "reachable h objs clock sha s"
    and ok: "ref_ok org project stack" and "doc_at objs s (stackKey org project stack) st" "I st"
    and I: "\<And>T ev st st'. doc_step T ev st st' \<Longrightarrow> st_Fence st \<noteq> - 1 \<Longrightarrow> I st \<Longrightarrow> I st'"
  shows "\<exists>st'. doc_at objs s' (stackKey org project stack) st' \<and> st_Fence st \<le> st_Fence st' \<and>
     (st_Fence st' \<noteq> - 1 \<longrightarrow> I st')"
  using assms(1,2)
proof (induction rule: run_keeping.induct)
  case keep_start
  then show ?case using assms(4,5) by blast
next
  case (keep_step s' a s'')
  then obtain st' where st': "doc_at objs s' (stackKey org project stack) st'" "st_Fence st \<le> st_Fence st'"
    "st_Fence st' \<noteq> - 1 \<longrightarrow> I st'" by blast
  have reach: "reachable h objs clock sha s'" using keep_step run_keeping_reachable by blast
  show ?case
  proof (cases rule: doc_at_change [OF reach keep_step(2) ok st'(1), case_names same changed removed])
    case same
    then show ?thesis using st' by (auto simp: doc_at_def)
  next
    case (changed T op ev st'')
    note mono = doc_step_fence_mono [OF changed(6)]
    have "I st''" if "st_Fence st'' \<noteq> - 1"
      using that mono I [OF changed(6)] st'(3) by (metis word_order.extremum_uniqueI)
    then show ?thesis using changed(4) mono st'(2) order_trans by blast
  next
    case removed
    then show ?thesis using keep_step(3) by simp
  qed
qed

lemma superseded_save_rejected:
  assumes "reachable h objs clock sha s" "ref_ok org project stack"
    and "sys_step h objs clock sha s (Some (Op_SaveCheckpoint org project stack inc u g v d)) s'"
    and "doc_at objs s (stackKey org project stack) st" "superseded g st" "u \<noteq> ''''"
  shows "objs (fst s') (stackKey org project stack) = objs (fst s) (stackKey org project stack)"
proof (cases rule: doc_at_change [OF assms(1,3,2,4), case_names same changed removed])
  case (changed T op ev st')
  then have "ev = SaveState u g v" by auto
  with changed(6) show ?thesis
    using assms(5,6) by (auto elim!: doc_stepE simp: superseded_def live_gen_def)
qed auto

end

text \<open>
  C5. Fencing. Suppose the lock of a stack was held with generation \<open>g\<close> and was lost in the
  meantime: at some later moment the document holds no lock, or the lock of another update.
  From then on, whatever the clients do (until the stack is deleted, or the 64-bit fence is
  used up), the lock never has generation \<open>g\<close> again, and no request that a
  \<^verbatim>\<open>SaveCheckpoint\<close> with generation \<open>g\<close> sends changes the document, even one that was
  under way and had passed its checks before the lock was lost.
\<close>

theorem superseded_generation_is_fenced:
  assumes service: "s3_service h objs content clock" and reach: "reachable h objs clock sha s"
    and ok: "ref_ok org project stack"
    and doc: "doc_at objs s (stackKey org project stack) st" "st_Lock st = Some l"
      "l_Generation l \<le> st_Fence st" "l_Generation l \<noteq> 0"
    and lost: "run_keeping h objs clock sha (stackKey org project stack) s s1"
      "doc_at objs s1 (stackKey org project stack) st1"
      "\<forall>l1. st_Lock st1 = Some l1 \<longrightarrow> l_UpdateID l1 \<noteq> l_UpdateID l"
    and later: "run_keeping h objs clock sha (stackKey org project stack) s1 s2"
      "doc_at objs s2 (stackKey org project stack) st2" "st_Fence st2 \<noteq> - 1"
  shows "(\<forall>l2. st_Lock st2 = Some l2 \<longrightarrow> l_Generation l2 \<noteq> l_Generation l) \<and>
     (\<forall>inc u v d s3. u \<noteq> '''' \<longrightarrow>
        sys_step h objs clock sha s2 (Some (Op_SaveCheckpoint org project stack inc u (l_Generation l) v d)) s3 \<longrightarrow>
        objs (fst s3) (stackKey org project stack) = objs (fst s2) (stackKey org project stack))"
proof -
  let ?held = "held_or_superseded (l_UpdateID l) (l_Generation l)"
  note run = s3_service.run_invariant [OF service _ _ ok]
  have reach1: "reachable h objs clock sha s1" "reachable h objs clock sha s2"
    using run_keeping_reachable lost(1) later(1) reach by blast+
  have held: "?held st" using doc(2,3) by (auto simp: held_or_superseded_def)
  have "st_Fence st1 \<noteq> - 1 \<longrightarrow> ?held st1"
    using run [OF lost(1) reach doc(1), of ?held] held held_or_superseded_step doc(4)
      doc_at_unique [OF lost(2)] by metis
  then have sup1: "st_Fence st1 \<noteq> - 1 \<longrightarrow> superseded (l_Generation l) st1"
    using lost(3) by (auto simp: held_or_superseded_def)
  have mono: "st_Fence st1 \<le> st_Fence st2"
    using run [OF later(1) reach1(1) lost(2), of "\<lambda>_. True"] doc_at_unique [OF later(2)] by metis
  then have "st_Fence st1 \<noteq> - 1" using later(3) by (metis word_order.extremum_uniqueI)
  with sup1 have "superseded (l_Generation l) st2"
    using run [OF later(1) reach1(1) lost(2), of "superseded (l_Generation l)"] superseded_step
      doc_at_unique [OF later(2)] later(3) by metis
  then show ?thesis
    using s3_service.superseded_save_rejected [OF service reach1(2) ok _ later(2)]
    by (auto simp: superseded_def)
qed

text \<open>The update (or deletion) in whose name an operation acts.\<close>

fun op_update :: "store_op \<Rightarrow> string option" where
  "op_update (Op_DeleteStack _ _ _ _ u _) = Some u"
| "op_update (Op_SaveCheckpoint _ _ _ _ u _ _ _) = Some u"
| "op_update (Op_CreateUpdate _ _ _ _ u) = Some u"
| "op_update (Op_AcquireLock _ _ _ _ u _ _) = Some u"
| "op_update (Op_RenewLock _ _ _ u _ _) = Some u"
| "op_update (Op_ReleaseLock _ _ _ u _) = Some u"
| "op_update _ = None"

lemma event_update:
  "Remove u g \<in> op_events op \<Longrightarrow> op_update op = Some u"
  "Grant u \<in> op_events op \<Longrightarrow> op_update op = Some u"
  "Renew u \<in> op_events op \<Longrightarrow> op_update op = Some u"
  "Release u \<in> op_events op \<Longrightarrow> op_update op = Some u"
  "CommitVersion u g \<in> op_events op \<Longrightarrow> op_update op = Some u"
  "SaveState u g v \<in> op_events op \<Longrightarrow> op_update op = Some u"
  by (cases op; auto)+

text \<open>
  C7. The deletion fence. While the lock of a stack is a deletion fence, live or expired, a
  step changes the document only in the name of a deletion: the acting operation carries the
  id of a deletion (\<^verbatim>\<open>delete-...\<close>). In particular no update acquires the lock and no preview
  passes its barrier.
\<close>

theorem deletion_fence_excludes_updates:
  assumes service: "s3_service h objs content clock" and reach: "reachable h objs clock sha s"
    and step: "sys_step h objs clock sha s a s'" and ok: "ref_ok org project stack"
    and doc: "doc_at objs s (stackKey org project stack) st" "deletionFence (st_Lock st)"
  shows "objs (fst s') (stackKey org project stack) = objs (fst s) (stackKey org project stack) \<or>
     (\<exists>op u. a = Some op \<and> op_update op = Some u \<and> HasPrefix u ''delete-'')"
proof (cases rule: s3_service.doc_at_change [OF service reach step ok doc(1), case_names same changed removed])
  case (changed T op ev st')
  from doc(2) obtain l where l: "st_Lock st = Some l" "HasPrefix (l_UpdateID l) ''delete-''"
    by (auto simp: deletionFence_def split: option.splits)
  have "\<exists>u. op_update op = Some u \<and> HasPrefix u ''delete-''"
    using changed(6)
  proof (cases rule: doc_step.cases)
    case (grant l')
    then show ?thesis using changed(3) doc(2) event_update(2) by blast
  next
    case (renew u l' g t)
    then show ?thesis using changed(3) l event_update(3) by auto
  next
    case (release l' u)
    then show ?thesis using changed(3) l event_update(4) by auto
  next
    case (commit_version u g now)
    then show ?thesis using changed(3) l event_update(5) by auto
  next
    case (save_state u g v key)
    then show ?thesis using changed(3) l event_update(6) by auto
  qed (use l doc(2) in simp_all)
  with changed(1) show ?thesis by blast
next
  case (removed T op u g)
  then show ?thesis using event_update(1) by (auto simp: removable_def)
qed auto

section \<open>Scenarios on the reference bucket\<close>

text \<open>
  A bucket with one stack whose lock is \<open>lk\<close>, the clock at 50 s; the lock of update
  \<^verbatim>\<open>u1\<close> runs until 100 s.
\<close>

definition demo_lock :: "string \<Rightarrow> lock" where
  "demo_lock u = \<lparr>l_UpdateID = u, l_Owner = ''alice'', l_ExpiresAt = 100 * second, l_Generation = 1, l_etag = ''''\<rparr>"

definition demo_stack :: "lock option \<Rightarrow> stack" where
  "demo_stack lk = zero_stack\<lparr>st_Org := ''o'', st_Project := ''p'', st_Name := ''s'', st_Version := 3,
     st_Incarnation := ''i'', st_Fence := 1, st_LockProtocol := 1, st_Lock := lk\<rparr>"

definition demo_key :: string where
  "demo_key = stackKey ''o'' ''p'' ''s''"

definition demo_bucket :: "lock option \<Rightarrow> bucket" where
  "demo_bucket lk = \<lparr>bk_objects = [(demo_key, Doc (stack_json (demo_stack lk)))], bk_clock = 50 * second, bk_seed = 0\<rparr>"

abbreviation ref_tagged :: "bucket \<Rightarrow> string \<Rightarrow> (body \<times> string) option" where
  "ref_tagged \<equiv> \<lambda>w. with_etag ref_etag (ref_objs w)"

text \<open>The first client runs an operation alone, for \<open>n\<close> requests.\<close>

primrec solo_prog :: "nat \<Rightarrow> store_op \<Rightarrow> bucket \<Rightarrow> unit prog \<times> bucket" where
  "solo_prog 0 op w = (op_prog (\<lambda>_. ''d'') op, w)"
| "solo_prog (Suc n) op w = (case solo_prog n op w of (p, w') \<Rightarrow> step ref_service p w')"

definition solo :: "nat \<Rightarrow> store_op \<Rightarrow> bucket \<Rightarrow> bucket system" where
  "solo n op w = (case solo_prog n op w of (p, w') \<Rightarrow> (w', (\<lambda>_. None)(0 := Some (op, p))))"

abbreviation ref_step :: "bucket system \<Rightarrow> store_op option \<Rightarrow> bucket system \<Rightarrow> bool" where
  "ref_step \<equiv> sys_step ref_service ref_tagged bk_clock (\<lambda>_. ''d'')"

abbreviation ref_reachable :: "bucket system \<Rightarrow> bool" where
  "ref_reachable \<equiv> reachable ref_service ref_tagged bk_clock (\<lambda>_. ''d'')"

lemma solo_step: "ref_step (solo n op w) (Some op) (solo (Suc n) op w)"
proof -
  obtain p w' where 1: "solo_prog n op w = (p, w')" by fastforce
  obtain p' w'' where 2: "step ref_service p w' = (p', w'')" by fastforce
  show ?thesis
    using request [where cs = "(\<lambda>_. None)(0 := Some (op, p))" and i = 0, OF _ 2] 1 2
    by (simp add: solo_def)
qed

lemma solo_reachable: "op_ok op \<Longrightarrow> ref_reachable (solo n op w)"
proof (induction n)
  case 0
  have "ref_step (w, \<lambda>_. None) None (solo 0 op w)" using begin_op [where cs = "\<lambda>_. None" and i = 0, OF _ 0] by (simp add: solo_def)
  then show ?case by (rule reachable.step [OF reachable.start])
next
  case (Suc n)
  then show ?case using reachable.step solo_step by blast
qed

lemma demo_ref: "ref_ok ''o'' ''p'' ''s''"
  by (simp add: ref_ok_def no_slash_def)

lemma demo_roundtrip [simp]:
  "unmarshal_stack (stack_json (demo_stack (map_option demo_lock u))) = Some (demo_stack (map_option demo_lock u))"
  by (cases u) (simp_all add: stack_roundtrip demo_stack_def zero_stack_def persisted_stack_def persisted_lock_def
      demo_lock_def)

lemma demo_doc:
  assumes "fst s = demo_bucket (map_option demo_lock u)"
  shows "doc_at ref_tagged s demo_key (demo_stack (map_option demo_lock u))"
  using assms by (simp add: doc_at_def demo_bucket_def with_etag_def ref_objs_def)

lemma demo_objs [simp]: "ref_objs (demo_bucket lk) demo_key = Some (Doc (stack_json (demo_stack lk)))"
  by (simp add: demo_bucket_def ref_objs_def)

lemma demo_marshal [simp]:
  "marshal_stack (demo_stack (map_option demo_lock u)) = Some (stack_json (demo_stack (map_option demo_lock u)))"
  by (cases u) (simp_all add: marshal_stack_def time_marshals_def demo_stack_def zero_stack_def demo_lock_def
      zero_time_def)

lemma demo_store [simp]:
  "ref_store demo_key (Some (Doc (stack_json (demo_stack lk')))) (demo_bucket lk) = demo_bucket lk'"
  by (simp add: demo_bucket_def ref_store_def)

text \<open>Update \<^verbatim>\<open>u1\<close> releases its lock: one request reads the document, the next writes it.\<close>

abbreviation demo_op :: store_op where
  "demo_op \<equiv> Op_ReleaseLock ''o'' ''p'' ''s'' ''u1'' 1"

abbreviation demo_state :: "nat \<Rightarrow> bucket system" where
  "demo_state n \<equiv> solo n demo_op (demo_bucket (Some (demo_lock ''u1'')))"

lemma demo_release:
  "fst (demo_state 0) = demo_bucket (Some (demo_lock ''u1''))"
  "fst (demo_state 1) = demo_bucket (Some (demo_lock ''u1''))"
  "fst (demo_state 2) = demo_bucket None"
proof -
  let ?st = "demo_stack (Some (demo_lock ''u1''))"
  have st: "stackKey ''o'' ''p'' ''s'' = demo_key" "st_Lock ?st = Some (demo_lock ''u1'')"
    "l_UpdateID (demo_lock ''u1'') = ''u1''" "l_Generation (demo_lock ''u1'') = 1"
    "unmarshal_stack (stack_json ?st) = Some ?st"
    using demo_roundtrip [of "Some ''u1''"] by (simp_all add: demo_key_def demo_stack_def demo_lock_def)
  have st': "marshal_stack (?st\<lparr>st_etag := e, st_Fence := max (st_Fence ?st) 1,
      st_LockProtocol := canonicalLockProtocol, st_Lock := None\<rparr>) = Some (stack_json (demo_stack None))" for e
    by (simp add: marshal_stack_def stack_json_def demo_stack_def zero_stack_def
        canonicalLockProtocol_def zero_time_def time_marshals_def)
  note defs = solo_def ReleaseLock_def numeral_eq_Suc forget_def GetStack_def getWithETag_def
    current_lock_def Let_def putJSONIfMatch_def putIfMatch_def putConditional_def check_def
  show "fst (demo_state 0) = demo_bucket (Some (demo_lock ''u1''))" by (simp add: solo_def)
  show "fst (demo_state 1) = demo_bucket (Some (demo_lock ''u1''))" by (simp add: defs st st')
  show "fst (demo_state 2) = demo_bucket None" by (simp add: defs st st')
qed

lemma demo_docs:
  "doc_at ref_tagged (demo_state 0) demo_key (demo_stack (Some (demo_lock ''u1'')))"
  "doc_at ref_tagged (demo_state 1) demo_key (demo_stack (Some (demo_lock ''u1'')))"
  "doc_at ref_tagged (demo_state 2) demo_key (demo_stack None)"
  using demo_doc [of "demo_state 0" "Some ''u1''"] demo_doc [of "demo_state 1" "Some ''u1''"]
    demo_doc [of "demo_state 2" None] demo_release by simp_all

lemma demo_reachable: "ref_reachable (demo_state n)"
  by (rule solo_reachable) (simp add: op_ok_def demo_ref)

lemma demo_steps: "ref_step (demo_state 0) (Some demo_op) (demo_state 1)"
    "ref_step (demo_state 1) (Some demo_op) (demo_state 2)"
  using solo_step [of 0 demo_op] solo_step [of 1 demo_op] by (simp_all add: numeral_2_eq_2)

lemma demo_run: "run_keeping ref_service ref_tagged bk_clock (\<lambda>_. ''d'') demo_key (demo_state 0) (demo_state 2)"
proof (rule keep_step [OF keep_step [OF keep_start demo_steps(1)] demo_steps(2)])
  show "ref_tagged (fst (demo_state 1)) demo_key \<noteq> None" "ref_tagged (fst (demo_state 2)) demo_key \<noteq> None"
    using demo_docs by (auto simp: doc_at_def)
qed

lemmas demo_facts = ref.svc.s3_service_axioms demo_reachable demo_steps demo_ref demo_docs
  demo_run demo_key_def [symmetric]
text \<open>A second client, whose update no longer holds the lock, then tries to save a checkpoint.\<close>

definition demo_save :: "uint64 \<Rightarrow> store_op" where
  "demo_save g = Op_SaveCheckpoint ''o'' ''p'' ''s'' ''i'' ''u1'' g 3 JNull"

definition demo_stale :: "nat \<Rightarrow> bucket system" where
  "demo_stale n = (if n = 0
     then (fst (demo_state 2), (snd (demo_state 2))(1 := Some (demo_save 1, op_prog (\<lambda>_. ''d'') (demo_save 1))))
     else case step ref_service (op_prog (\<lambda>_. ''d'') (demo_save 1)) (fst (demo_state 2)) of
       (p, w) \<Rightarrow> (w, (snd (demo_state 2))(1 := Some (demo_save 1, p))))"

lemma demo_stale_steps:
  "ref_step (demo_state 2) None (demo_stale 0)"
  "ref_step (demo_stale 0) (Some (demo_save 1)) (demo_stale 1)"
proof -
  obtain p w where p: "step ref_service (op_prog (\<lambda>_. ''d'') (demo_save 1)) (fst (demo_state 2)) = (p, w)"
    by fastforce
  have idle: "snd (demo_state 2) 1 = None" by (simp add: solo_def split: prod.split)
  have "op_ok (demo_save 1)" by (simp add: op_ok_def demo_save_def demo_ref)
  then show "ref_step (demo_state 2) None (demo_stale 0)"
    using begin_op [where w = "fst (demo_state 2)" and cs = "snd (demo_state 2)" and i = 1, OF idle]
    by (simp add: demo_stale_def)
  show "ref_step (demo_stale 0) (Some (demo_save 1)) (demo_stale 1)"
    using request [where i = 1 and cs = "(snd (demo_state 2))(1 := Some (demo_save 1, op_prog (\<lambda>_. ''d'') (demo_save 1)))", OF _ p] p
    by (simp add: demo_stale_def)
qed

lemma demo_stale_doc: "doc_at ref_tagged (demo_stale 0) demo_key (demo_stack None)"
  using demo_docs(3) by (simp add: doc_at_def demo_stale_def)

theorem stack_documents_follow_protocol_witness:
  "\<exists>T. (\<forall>t \<in> T. t \<le> bk_clock (fst (demo_state 1))) \<and>
     doc_change (label_events (Some demo_op) (stackKey ''o'' ''p'' ''s'')) T
       (ref_tagged (fst (demo_state 1)) (stackKey ''o'' ''p'' ''s''))
       (ref_tagged (fst (demo_state 2)) (stackKey ''o'' ''p'' ''s''))"
  by (rule stack_documents_follow_protocol [OF demo_facts(1) demo_facts(2) demo_facts(4) demo_facts(5)])

theorem live_lease_is_exclusive_witness:
  "\<not> Expired (demo_lock ''u1'') (bk_clock (fst (demo_state 1))) \<and>
   (\<exists>st' g. doc_at ref_tagged (demo_state 2) demo_key st' \<and> st_Lock st' = None \<and>
      Some demo_op = Some (Op_ReleaseLock ''o'' ''p'' ''s'' ''u1'' g))"
proof -
  have live: "st_Lock (demo_stack (Some (demo_lock ''u1''))) = Some (demo_lock ''u1'')"
    "\<not> Expired (demo_lock ''u1'') (bk_clock (fst (demo_state 1)))" "l_UpdateID (demo_lock ''u1'') = ''u1''"
    unfolding demo_release(2) by (simp_all add: demo_bucket_def Expired_def demo_lock_def demo_stack_def)
  have "\<not> (\<exists>st' l'. doc_at ref_tagged (demo_state 2) demo_key st' \<and> st_Lock st' = Some l')"
    using doc_at_unique [OF demo_docs(3)] by (force simp: demo_stack_def)
  then show ?thesis
    using live_lease_is_exclusive [OF demo_facts(1) demo_facts(2) demo_facts(4) demo_facts(5)
        demo_docs(2) [unfolded demo_key_def] live(1,2)] live(2,3)
    unfolding demo_key_def by auto
qed

theorem state_changes_by_holder_or_seeding_witness:
  "st_Incarnation (demo_stack None) = ''i'' \<and>
   st_Version (demo_stack None) = st_Version (demo_stack (Some (demo_lock ''u1'')))"
  using state_changes_by_holder_or_seeding [OF demo_facts(1) demo_facts(2) demo_facts(4) demo_facts(5)
      demo_docs(2,3) [unfolded demo_key_def]]
  by (auto simp: demo_stack_def)

theorem superseded_generation_is_fenced_witness:
  "ref_tagged (snd (step ref_service (op_prog (\<lambda>_. ''d'') (demo_save 1)) (demo_bucket None))) (stackKey ''o'' ''p'' ''s'') =
   ref_tagged (demo_bucket None) (stackKey ''o'' ''p'' ''s'')"
proof -
  have run: "run_keeping ref_service ref_tagged bk_clock (\<lambda>_. ''d'') demo_key (demo_state 2) (demo_stale 0)"
    by (rule keep_step [OF keep_start demo_stale_steps(1)]) (use demo_stale_doc in \<open>auto simp: doc_at_def\<close>)
  have lost: "st_Lock (demo_stack lk) = lk" "l_Generation (demo_lock ''u1'') \<le> st_Fence (demo_stack lk)"
    "l_Generation (demo_lock ''u1'') \<noteq> 0" "st_Fence (demo_stack lk) \<noteq> - 1" for lk
    by (simp_all add: demo_stack_def demo_lock_def)
  have save: "demo_save 1 = Op_SaveCheckpoint ''o'' ''p'' ''s'' ''i'' ''u1'' (l_Generation (demo_lock ''u1'')) 3 JNull"
    by (simp add: demo_save_def demo_lock_def)
  have none: "\<forall>l1. st_Lock (demo_stack None) = Some l1 \<longrightarrow> l_UpdateID l1 \<noteq> l_UpdateID (demo_lock ''u1'')"
    by (simp add: lost(1))
  have "ref_tagged (fst (demo_stale 1)) (stackKey ''o'' ''p'' ''s'') =
      ref_tagged (fst (demo_stale 0)) (stackKey ''o'' ''p'' ''s'')"
    by (rule superseded_generation_is_fenced [OF demo_facts(1) demo_facts(2) demo_facts(5)
        demo_docs(1) [unfolded demo_key_def] lost(1-3) demo_run [unfolded demo_key_def]
        demo_docs(3) [unfolded demo_key_def] none run [unfolded demo_key_def]
        demo_stale_doc [unfolded demo_key_def] lost(4), THEN conjunct2, rule_format,
        OF _ demo_stale_steps(2) [unfolded save]]) simp
  then show ?thesis unfolding demo_stale_def demo_release(3) by (simp split: prod.splits)
qed

theorem deletion_fence_excludes_updates_witness:
  "ref_tagged (fst (solo 1 (Op_AcquireLock ''o'' ''p'' ''s'' ''i'' ''u2'' ''bob'' hour)
       (demo_bucket (Some (demo_lock ''delete-1''))))) (stackKey ''o'' ''p'' ''s'') =
   ref_tagged (demo_bucket (Some (demo_lock ''delete-1''))) (stackKey ''o'' ''p'' ''s'')"
proof -
  let ?op = "Op_AcquireLock ''o'' ''p'' ''s'' ''i'' ''u2'' ''bob'' hour"
  let ?w = "demo_bucket (Some (demo_lock ''delete-1''))"
  have doc: "doc_at ref_tagged (solo 0 ?op ?w) (stackKey ''o'' ''p'' ''s'') (demo_stack (Some (demo_lock ''delete-1'')))"
    using demo_doc [of "solo 0 ?op ?w" "Some ''delete-1''"] by (simp add: demo_key_def solo_def)
  have reach: "ref_reachable (solo 0 ?op ?w)" by (rule solo_reachable) (simp add: op_ok_def demo_ref)
  have fence: "deletionFence (st_Lock (demo_stack (Some (demo_lock ''delete-1''))))"
    by (simp add: deletionFence_def demo_stack_def demo_lock_def HasPrefix_def)
  show ?thesis
    using deletion_fence_excludes_updates [OF demo_facts(1) reach solo_step demo_facts(5) doc fence]
    by (simp add: solo_def HasPrefix_def)
qed

end
