(* ===== verification/Lock_Contract.thy ===== *)
theory Lock_Contract
  imports Store
begin

text \<open>
  The contract of the stack lock as its clients see it, apart from how the store keeps it:
  \<open>view\<close> is the fence and the lock of one stack (\<open>None\<close> where the contract does not
  apply), \<open>running\<close> says that the lease of a lock has not run out. What clients may conclude
  is proved from the contract alone.
\<close>

locale lock_contract =
  fixes acquire :: "string \<Rightarrow> string \<Rightarrow> 'w \<Rightarrow> (error + lock) \<times> 'w"
    and release :: "string \<Rightarrow> 'w \<Rightarrow> (error + unit) \<times> 'w"
    and current :: "'w \<Rightarrow> (error + lock) \<times> 'w"
    and view :: "'w \<Rightarrow> (uint64 \<times> lock option) option"
    and running :: "'w \<Rightarrow> lock \<Rightarrow> bool"
  assumes acquire_free: "view w = Some (f, None) \<Longrightarrow> \<exists>l w'. acquire u owner w = (Inr l, w') \<and>
      view w' = Some (max f (l_Generation l), Some l) \<and> l_UpdateID l = u \<and> running w' l \<and>
      (f \<noteq> - 1 \<longrightarrow> f < l_Generation l)"
    and acquire_taken: "view w = Some (f, Some l) \<Longrightarrow> running w l \<Longrightarrow> l_UpdateID l \<noteq> u \<Longrightarrow>
      acquire u owner w = (Inl (LockHeldError l), w)"
    and release_own: "view w = Some (f, Some l) \<Longrightarrow> \<exists>w'. release (l_UpdateID l) w = (Inr (), w') \<and>
      view w' = Some (max f (l_Generation l), None)"
    and current_lock: "view w = Some (f, lk) \<Longrightarrow>
      current w = ((case lk of None \<Rightarrow> Inl ErrNoLock | Some l \<Rightarrow> Inr l), w)"
begin

text \<open>A grant is visible and keeps the others out.\<close>

lemma granted_excludes:
  assumes "view w = Some (f, None)" "acquire u owner w = (r, w1)"
  obtains l where "r = Inr l" "l_UpdateID l = u" "current w1 = (Inr l, w1)" "view w1 = Some (max f (l_Generation l), Some l)"
    "f \<noteq> - 1 \<longrightarrow> f < l_Generation l" "\<forall>u' owner'. u' \<noteq> u \<longrightarrow> acquire u' owner' w1 = (Inl (LockHeldError l), w1)"
proof -
  from acquire_free [OF assms(1), of u owner] assms(2) obtain l where
    l: "r = Inr l" "view w1 = Some (max f (l_Generation l), Some l)" "l_UpdateID l = u" "running w1 l"
      "f \<noteq> - 1 \<longrightarrow> f < l_Generation l" by auto
  show thesis
    using l acquire_taken [OF l(2,4)] current_lock [OF l(2)] by (intro that [of l]) auto
qed

text \<open>A released lock is free, and the fence remembers its generation.\<close>

lemma released:
  assumes "view w = Some (f, Some l)" "release (l_UpdateID l) w = (r, w')"
  shows "r = Inr ()" "view w' = Some (max f (l_Generation l), None)" "current w' = (Inl ErrNoLock, w')"
  using release_own [OF assms(1)] assms(2) current_lock [of w'] by auto

text \<open>Two updates take turns.\<close>

lemma handover:
  assumes "view w = Some (f, None)" "u' \<noteq> u"
    and "acquire u owner w = (r, w1)" "acquire u' owner' w1 = (r', w2)" "release u w2 = (r3, w3)"
    and "acquire u' owner' w3 = (r4, w4)"
  shows "\<exists>l l'. r = Inr l \<and> current w1 = (Inr l, w1) \<and> r' = Inl (LockHeldError l) \<and> w2 = w1 \<and>
     r3 = Inr () \<and> current w3 = (Inl ErrNoLock, w3) \<and> r4 = Inr l' \<and> l_UpdateID l' = u' \<and>
     (f \<noteq> - 1 \<and> l_Generation l \<noteq> - 1 \<longrightarrow> l_Generation l < l_Generation l')"
proof -
  obtain l where l: "r = Inr l" "l_UpdateID l = u" "current w1 = (Inr l, w1)" "view w1 = Some (max f (l_Generation l), Some l)"
    "f \<noteq> - 1 \<longrightarrow> f < l_Generation l" and out: "\<forall>u' owner'. u' \<noteq> u \<longrightarrow> acquire u' owner' w1 = (Inl (LockHeldError l), w1)"
    by (rule granted_excludes [OF assms(1,3)])
  have w2: "r' = Inl (LockHeldError l)" "w2 = w1" using assms(4) out assms(2) by auto
  have "release (l_UpdateID l) w1 = (r3, w3)" using assms(5) l(2) w2(2) by simp
  note free = released [OF l(4) this]
  obtain l' where l': "r4 = Inr l'" "l_UpdateID l' = u'"
    "max (max f (l_Generation l)) (l_Generation l) \<noteq> - 1 \<longrightarrow> max (max f (l_Generation l)) (l_Generation l) < l_Generation l'"
    by (rule granted_excludes [OF free(2) assms(6)])
  have "l_Generation l < l_Generation l'" if "f \<noteq> - 1" "l_Generation l \<noteq> - 1"
  proof -
    have "max (max f (l_Generation l)) (l_Generation l) = l_Generation l" using l(5) that(1) by simp
    with l'(3) that(2) show ?thesis by simp
  qed
  then show ?thesis using l w2 free l' by blast
qed

end

end
