(* ===== verification/Store_Results.thy ===== *)
theory Store_Results
  imports Store_System Lock_Contract "HOL-Library.Multiset"
begin

text \<open>
  What the operations of the store return and what they leave in the bucket when one client
  talks to a service without faults (\<open>s3_ideal\<close>). The abstract state of a stack is the
  \<open>stack\<close> record in its document; each operation is shown to compute a function of it.
\<close>

section \<open>Requests\<close>

text \<open>The times of a stack document (and of its lock) that the JSON encoder accepts.\<close>

definition storable :: "stack \<Rightarrow> bool" where
  "storable st \<longleftrightarrow> clean_stack st \<and> marshal_stack st = Some (stack_json st)"

lemma storable_simps [simp]:
  "storable st \<Longrightarrow> clean_stack st"
  "storable st \<Longrightarrow> marshal_stack st = Some (stack_json st)"
  by (simp_all add: storable_def)

lemma stack_json_etag [simp]: "stack_json (st\<lparr>st_etag := e\<rparr>) = stack_json st"
  by (simp add: stack_json_def)

lemma marshal_etag [simp]: "marshal_stack (st\<lparr>st_etag := e\<rparr>) = marshal_stack st"
  by (simp add: marshal_stack_def)

lemma clean_roundtrip:
  "clean_stack st \<Longrightarrow> unmarshal_stack (stack_json st) = Some st"
  using stack_roundtrip [of st] persisted_clean_stack [of st "''''"]
  by (cases st) (simp add: clean_stack_def)

context s3_ideal
begin

definition has_doc :: "'w \<Rightarrow> string \<Rightarrow> stack \<Rightarrow> bool" where
  "has_doc w k st \<longleftrightarrow> objs w k = Some (Doc (stack_json st)) \<and> storable st"

definition put_doc :: "string \<Rightarrow> stack \<Rightarrow> 'w \<Rightarrow> 'w" where
  "put_doc k st = store k (Some (Doc (stack_json st)))"

definition tag :: "stack \<Rightarrow> string" where
  "tag st = etag (Doc (stack_json st))"

lemma tag_nonempty [simp]: "tag st \<noteq> ''''"
  by (simp add: tag_def)

lemma put_doc_simps [simp]:
  "objs (put_doc k st w) = (objs w)(k \<mapsto> Doc (stack_json st))" "clock (put_doc k st w) = clock w"
  by (simp_all add: put_doc_def)

lemma has_doc_put [simp]: "storable st \<Longrightarrow> has_doc (put_doc k st w) k st"
  by (simp add: has_doc_def)

lemma run_getWithETag:
  "run h (getWithETag k dec) w =
    (case objs w k of
       None \<Rightarrow> (Inl errNotFound, w)
     | Some Blob \<Rightarrow> (Inl (Wrap (''decode '' @ k @ '': '') json_error), w)
     | Some (Doc j) \<Rightarrow> (case dec j of
         None \<Rightarrow> (Inl (Wrap (''decode '' @ k @ '': '') json_error), w)
       | Some x \<Rightarrow> (Inr (x, etag (Doc j)), w)))"
  by (simp add: getWithETag_def split: option.split body.split)

lemma run_GetStack_missing:
  "objs w (stackKey org project stack) = None \<Longrightarrow>
     run h (GetStack org project stack) w = (Inl ErrStackNotFound, w)"
  by (simp add: GetStack_def run_getWithETag isNotFound_def)

lemma run_GetStack [simp]:
  assumes "has_doc w (stackKey org project stack) st"
  shows "run h (GetStack org project stack) w = (Inr (st\<lparr>st_etag := tag st\<rparr>), w)"
  using assms clean_roundtrip [of st]
  by (simp add: GetStack_def run_getWithETag has_doc_def tag_def)

lemma run_putJSONIfMatch:
  assumes "has_doc w k st" "storable st'"
  shows "run h (putJSONIfMatch k (Some (stack_json st')) (tag st)) w = (Inr (), put_doc k st' w)"
  using assms
  by (simp add: putJSONIfMatch_def putIfMatch_def putConditional_def numeral_2_eq_2 has_doc_def put_doc_def tag_def)

lemma run_putIfMatch_raw:
  assumes "objs w k = Some b"
  shows "run h (putJSONIfMatch k (Some j) (etag b)) w = (Inr (), store k (Some (Doc j)) w)"
  using assms
  by (simp add: putJSONIfMatch_def putIfMatch_def putConditional_def numeral_2_eq_2)

lemma run_put_object:
  "run h (put_object k b False) w = (Inr (), store k (Some b) w)"
  "objs w k = None \<Longrightarrow> run h (put_object k b True) w = (Inr (), store k (Some b) w)"
  "objs w k = Some b' \<Longrightarrow> run h (put_object k b True) w =
     (Inl (Wrap (''put '' @ k @ '': '') (S3Error (ResponseError 412 pf))), w)"
  by (simp_all add: put_object_def putConditional_def numeral_2_eq_2 isConditionalConflict_def)

lemma precondition_412 [simp]: "isPreconditionFailed (Wrap m (S3Error (ResponseError 412 t)))"
  by (simp add: isPreconditionFailed_def)

end

section \<open>The lock\<close>

text \<open>Writing a lock into a document that can be stored.\<close>

lemma with_lock_etag:
  "st\<lparr>st_etag := e, st_Fence := max (st_Fence st) g, st_LockProtocol := canonicalLockProtocol, st_Lock := lk\<rparr> =
     (with_lock st g lk)\<lparr>st_etag := e\<rparr>"
  by (cases st) (simp add: with_lock_def)

lemma storable_with_lock [simp]:
  assumes "storable st" "l_etag l = ''''" "time_marshals (l_ExpiresAt l)"
  shows "storable (with_lock st g (Some l))"
  using assms
  by (simp add: storable_def clean_stack_def clean_lock_def persisted_lock_def with_lock_def marshal_stack_def
      split: if_splits)

lemma storable_without_lock [simp]: "storable st \<Longrightarrow> storable (with_lock st g None)"
  by (simp add: storable_def clean_stack_def clean_lock_def with_lock_def marshal_stack_def split: if_splits)

lemma storable_lock: "storable st \<Longrightarrow> st_Lock st = Some l \<Longrightarrow> l_etag l = '''' \<and> time_marshals (l_ExpiresAt l)"
  by (cases l) (auto simp: storable_def clean_stack_def clean_lock_def persisted_lock_def marshal_stack_def split: if_splits)

lemma with_lock_simps [simp]:
  "st_Lock (with_lock st g lk) = lk" "st_Fence (with_lock st g lk) = max (st_Fence st) g"
  "st_Incarnation (with_lock st g lk) = st_Incarnation st" "st_Version (with_lock st g lk) = st_Version st"
  "usesCanonicalLock (with_lock st g lk)"
  by (simp_all add: with_lock_def usesCanonicalLock_def canonicalLockProtocol_def)

lemma next_generation_etag [simp]: "next_generation (st\<lparr>st_etag := e\<rparr>) lg = next_generation st lg"
  by (simp add: next_generation_def)

text \<open>
  The lock operations as functions of the document: the lock to be written, or the error. A
  document that was created or locked by this protocol (\<open>usesCanonicalLock\<close>) is its own
  authority; the legacy lock object plays no role.
\<close>

definition granted :: "time \<Rightarrow> stack \<Rightarrow> string \<Rightarrow> string \<Rightarrow> duration \<Rightarrow> lock" where
  "granted now st u owner ttl = \<lparr>l_UpdateID = u, l_Owner = owner, l_ExpiresAt = now + ttl,
     l_Generation = settled st (next_generation st None), l_etag = ''''\<rparr>"

definition acquire_spec :: "time \<Rightarrow> stack \<Rightarrow> string \<Rightarrow> string \<Rightarrow> duration \<Rightarrow> error + lock" where
  "acquire_spec now st u owner ttl = (case st_Lock st of
      None \<Rightarrow> Inr (granted now st u owner ttl)
    | Some l \<Rightarrow>
        if deletionFence (Some l) \<and> \<not> HasPrefix u ''delete-'' then Inl (LockHeldError l)
        else if Expired l now then Inr (granted now st u owner ttl)
        else if l_UpdateID l = u \<and> l_Owner l = owner
        then Inr (l\<lparr>l_ExpiresAt := now + ttl, l_Generation := settled st (l_Generation l)\<rparr>)
        else Inl (LockHeldError l))"

definition renew_spec :: "time \<Rightarrow> stack \<Rightarrow> string \<Rightarrow> uint64 \<Rightarrow> duration \<Rightarrow> error + lock" where
  "renew_spec now st u g ttl = (case st_Lock st of
      None \<Rightarrow> Inl ErrNoLock
    | Some l \<Rightarrow>
        if l_UpdateID l \<noteq> u \<or> g \<noteq> 0 \<and> l_Generation l \<noteq> g then Inl (LockHeldError l)
        else if Expired l now then Inl ErrNoLock
        else Inr (l\<lparr>l_Generation := settled st (l_Generation l), l_ExpiresAt := now + ttl\<rparr>))"

context s3_ideal
begin

lemma run_acquireLock_switch:
  "run h (acquireLock_switch st None u owner ttl) w =
    (case st_Lock st of
       None \<Rightarrow> (Inr ((granted (clock w) st u owner ttl)\<lparr>l_Generation := next_generation st None\<rparr>), w)
     | Some l \<Rightarrow>
        if deletionFence (Some l) \<and> \<not> HasPrefix u ''delete-'' then (Inl (LockHeldError l), w)
        else if Expired l (clock w)
        then (Inr ((granted (clock w) st u owner ttl)\<lparr>l_Generation := next_generation st None\<rparr>), w)
        else if l_UpdateID l = u \<and> l_Owner l = owner then (Inr (l\<lparr>l_ExpiresAt := clock w + ttl\<rparr>), w)
        else (Inl (LockHeldError l), w))"
  by (auto simp: acquireLock_switch_def fencing_lock_def deletionFence_def acquireLock_from_legacy_def
      acquireLock_new_def granted_def split: option.split)

lemma run_put_lock:
  assumes "has_doc w k st" "l_etag l = ''''" "time_marshals (l_ExpiresAt l)"
  shows "run h (putJSONIfMatch k (marshal_stack (with_lock st g (Some l))) (tag st)) w =
      (Inr (), put_doc k (with_lock st g (Some l)) w)"
proof -
  have "storable (with_lock st g (Some l))" using assms by (simp add: has_doc_def)
  with run_putJSONIfMatch [OF assms(1) this] show ?thesis by simp
qed

lemma run_AcquireLock:
  assumes doc: "has_doc w (stackKey org project stack) st" and canon: "usesCanonicalLock st"
    and time: "time_marshals (clock w + ttl)"
  shows "run h (AcquireLock org project stack incarnation u owner ttl) w =
    (if st_Incarnation st \<noteq> incarnation then (Inl ErrConcurrentMutation, w)
     else case acquire_spec (clock w) st u owner ttl of
       Inl err \<Rightarrow> (Inl err, w)
     | Inr l \<Rightarrow> (Inr l, put_doc (stackKey org project stack) (with_lock st (l_Generation l) (Some l)) w))"
proof -
  have st: "storable st" using doc by (simp add: has_doc_def)
  show ?thesis
    using doc canon time storable_lock [OF st]
    unfolding AcquireLock_def numeral_eq_Suc acquireLock_loop.simps settled_lock Let_def
    by (auto simp: acquireLock_legacy_def run_acquireLock_switch with_lock_etag deleteLegacyLock_def
        run_put_lock [OF doc] acquire_spec_def granted_def split: option.split)
qed

lemma run_current_lock:
  "usesCanonicalLock st \<Longrightarrow> run h (current_lock st org project stack) w = (Inr (st_Lock st, None), w)"
  by (simp add: current_lock_def)

lemma run_RenewLock:
  assumes doc: "has_doc w (stackKey org project stack) st" and canon: "usesCanonicalLock st"
    and time: "time_marshals (clock w + ttl)"
  shows "run h (RenewLock org project stack u g ttl) w =
    (case renew_spec (clock w) st u g ttl of
       Inl err \<Rightarrow> (Inl err, w)
     | Inr l \<Rightarrow> (Inr l, put_doc (stackKey org project stack) (with_lock st (l_Generation l) (Some l)) w))"
proof -
  have st: "storable st" using doc by (simp add: has_doc_def)
  show ?thesis
    using doc canon time storable_lock [OF st]
    unfolding RenewLock_def numeral_eq_Suc renewLock_loop.simps Let_def
    by (auto simp: run_current_lock settled_fold with_lock_etag deleteLegacyLock_def
        run_put_lock [OF doc] renew_spec_def split: option.split)
qed

lemma run_ReleaseLock:
  assumes doc: "has_doc w (stackKey org project stack) st" and canon: "usesCanonicalLock st"
  shows "run h (ReleaseLock org project stack u g) w =
    (case st_Lock st of
       None \<Rightarrow> (Inr (), w)
     | Some l \<Rightarrow> if l_UpdateID l \<noteq> u \<or> g \<noteq> 0 \<and> l_Generation l \<noteq> g then (Inl (LockHeldError l), w)
         else (Inr (), put_doc (stackKey org project stack) (with_lock st (l_Generation l) None) w))"
proof -
  have st: "storable st" using doc by (simp add: has_doc_def)
  have put: "run h (putJSONIfMatch (stackKey org project stack) (marshal_stack (with_lock st g None)) (tag st)) w =
      (Inr (), put_doc (stackKey org project stack) (with_lock st g None) w)" for g
    using run_putJSONIfMatch [OF doc storable_without_lock [OF st]] storable_without_lock [OF st] by simp
  show ?thesis
    using doc canon
    unfolding ReleaseLock_def numeral_eq_Suc releaseLock_loop.simps Let_def
    by (auto simp: run_current_lock with_lock_etag deleteLegacyLock_def put split: option.split)
qed

lemma run_ReleaseLock_missing:
  "objs w (stackKey org project stack) = None \<Longrightarrow> run h (ReleaseLock org project stack u g) w = (Inr (), w)"
  unfolding ReleaseLock_def numeral_eq_Suc releaseLock_loop.simps by (simp add: run_GetStack_missing)

lemma run_GetLock:
  assumes "has_doc w (stackKey org project stack) st" "usesCanonicalLock st"
  shows "run h (GetLock org project stack) w =
    ((case st_Lock st of None \<Rightarrow> Inl ErrNoLock | Some l \<Rightarrow> Inr l), w)"
  using assms by (simp add: GetLock_def split: option.split)

end

section \<open>The lock contract\<close>

lemma stack_json_inject: "stack_json a = stack_json b \<Longrightarrow> storable a \<Longrightarrow> storable b \<Longrightarrow> a = b"
  by (metis clean_roundtrip option.inject storable_simps(1))

context s3_ideal
begin

text \<open>The fence and the lock of a stack that keeps its lock in its document.\<close>

definition lock_view ::
  "string \<Rightarrow> string \<Rightarrow> string \<Rightarrow> string \<Rightarrow> duration \<Rightarrow> 'w \<Rightarrow> (uint64 \<times> lock option) option" where
  "lock_view org project stack incarnation ttl w = (case objs w (stackKey org project stack) of
      Some (Doc j) \<Rightarrow> (case unmarshal_stack j of
          Some st \<Rightarrow> if has_doc w (stackKey org project stack) st \<and> usesCanonicalLock st \<and> st_Incarnation st = incarnation \<and>
              time_marshals (clock w + ttl) \<and> 0 < ttl then Some (st_Fence st, st_Lock st) else None
        | None \<Rightarrow> None)
    | _ \<Rightarrow> None)"

lemma lock_view_iff:
  "lock_view org project stack incarnation ttl w = Some (f, lk) \<longleftrightarrow>
     (\<exists>st. has_doc w (stackKey org project stack) st \<and> usesCanonicalLock st \<and> st_Incarnation st = incarnation \<and>
        time_marshals (clock w + ttl) \<and> 0 < ttl \<and> f = st_Fence st \<and> lk = st_Lock st)"
  by (auto simp: lock_view_def has_doc_def clean_roundtrip dest: stack_json_inject split: option.splits body.splits)

end

sublocale s3_ideal \<subseteq> lk: lock_contract
  "\<lambda>u owner. run h (AcquireLock org project stack incarnation u owner ttl)"
  "\<lambda>u. run h (ReleaseLock org project stack u 0)"
  "run h (GetLock org project stack)"
  "lock_view org project stack incarnation ttl" "\<lambda>w l. \<not> Expired l (clock w)"
  for org project stack incarnation ttl
proof
  fix w f u owner
  assume "lock_view org project stack incarnation ttl w = Some (f, None)"
  then obtain st where st: "has_doc w (stackKey org project stack) st" "usesCanonicalLock st" "st_Incarnation st = incarnation"
    "time_marshals (clock w + ttl)" "0 < ttl" "f = st_Fence st" "st_Lock st = None" by (auto simp: lock_view_iff)
  define l where "l = granted (clock w) st u owner ttl"
  let ?w = "put_doc (stackKey org project stack) (with_lock st (l_Generation l) (Some l)) w"
  have "storable st" using st(1) by (simp add: has_doc_def)
  then have "has_doc ?w (stackKey org project stack) (with_lock st (l_Generation l) (Some l))"
    using st(4) by (intro has_doc_put storable_with_lock) (simp_all add: l_def granted_def)
  moreover have "run h (AcquireLock org project stack incarnation u owner ttl) w = (Inr l, ?w)"
    using st by (simp add: run_AcquireLock [OF st(1,2,4)] acquire_spec_def l_def)
  moreover have "st_Fence st \<noteq> - 1 \<longrightarrow> st_Fence st < l_Generation l"
    using above_fence_next [of None st] by (simp add: l_def granted_def above_fence_def)
  ultimately show "\<exists>l w'. run h (AcquireLock org project stack incarnation u owner ttl) w = (Inr l, w') \<and>
      lock_view org project stack incarnation ttl w' = Some (max f (l_Generation l), Some l) \<and> l_UpdateID l = u \<and>
      \<not> Expired l (clock w') \<and> (f \<noteq> - 1 \<longrightarrow> f < l_Generation l)"
    using st by (intro exI [of _ l] exI [of _ ?w]) (auto simp: lock_view_iff Expired_def l_def granted_def)
next
  fix w f l u owner
  assume "lock_view org project stack incarnation ttl w = Some (f, Some l)" "\<not> Expired l (clock w)" "l_UpdateID l \<noteq> u"
  moreover from this obtain st where "has_doc w (stackKey org project stack) st" "usesCanonicalLock st"
    "st_Incarnation st = incarnation" "time_marshals (clock w + ttl)" "st_Lock st = Some l" by (auto simp: lock_view_iff)
  ultimately show "run h (AcquireLock org project stack incarnation u owner ttl) w = (Inl (LockHeldError l), w)"
    by (simp add: run_AcquireLock acquire_spec_def)
next
  fix w f l
  assume "lock_view org project stack incarnation ttl w = Some (f, Some l)"
  then obtain st where st: "has_doc w (stackKey org project stack) st" "usesCanonicalLock st" "st_Incarnation st = incarnation"
    "time_marshals (clock w + ttl)" "0 < ttl" "f = st_Fence st" "st_Lock st = Some l" by (auto simp: lock_view_iff)
  then show "\<exists>w'. run h (ReleaseLock org project stack (l_UpdateID l) 0) w = (Inr (), w') \<and>
      lock_view org project stack incarnation ttl w' = Some (max f (l_Generation l), None)"
    by (auto simp: run_ReleaseLock lock_view_iff has_doc_def intro!: exI [of _ "with_lock st (l_Generation l) None"])
next
  fix w f lk
  assume "lock_view org project stack incarnation ttl w = Some (f, lk)"
  then show "run h (GetLock org project stack) w = ((case lk of None \<Rightarrow> Inl ErrNoLock | Some l \<Rightarrow> Inr l), w)"
    by (auto simp: lock_view_iff run_GetLock)
qed

context s3_ideal
begin

lemmas stack_lock_handover = lk.handover

end

section \<open>Stacks and checkpoints\<close>

definition fresh_stack :: "string \<Rightarrow> string \<Rightarrow> string \<Rightarrow> time \<Rightarrow> string \<Rightarrow> stack" where
  "fresh_stack org project stack now incarnation = zero_stack\<lparr>st_Org := org, st_Project := project,
     st_Name := stack, st_Created := now, st_Incarnation := incarnation,
     st_LockProtocol := canonicalLockProtocol\<rparr>"

lemma storable_fresh: "time_marshals now \<Longrightarrow> storable (fresh_stack org project stack now incarnation)"
  by (simp add: storable_def fresh_stack_def zero_stack_def clean_stack_def clean_lock_def marshal_stack_def
      time_marshals_def zero_time_def)

text \<open>Who may record a checkpoint in the document \<open>st\<close> at time \<open>now\<close>.\<close>

definition save_spec :: "time \<Rightarrow> stack \<Rightarrow> string \<Rightarrow> uint64 \<Rightarrow> int64 \<Rightarrow> error + unit" where
  "save_spec now st u g v =
     (if u = '''' then (if g = 0 \<and> v = 0 \<and> st_Version st = 0 \<and> st_Lock st = None then Inr ()
        else Inl ErrInvalidUpdateState)
      else if live_gen {now} (st_Lock st) u g \<and> st_Version st = v then Inr ()
      else Inl ErrConcurrentMutation)"

lemma storable_record_checkpoint [simp]: "storable st \<Longrightarrow> storable (record_checkpoint st v key)"
  by (simp add: storable_def clean_stack_def record_checkpoint_def marshal_stack_def split: if_splits)

lemma record_checkpoint_set_etag:
  "record_checkpoint (st\<lparr>st_etag := e\<rparr>) v key = (record_checkpoint st v key)\<lparr>st_etag := e\<rparr>"
  by (cases st) (simp add: record_checkpoint_def)

context s3_ideal
begin

lemma run_CreateStack:
  assumes "time_marshals (clock w)"
  shows "run h (CreateStack org project stack) w =
    (if objs w (stackKey org project stack) = None
     then (Inr (fresh_stack org project stack (clock w) (hex (rand 16 w))),
       put_doc (stackKey org project stack) (fresh_stack org project stack (clock w) (hex (rand 16 w))) (reseed 16 w))
     else (Inl ErrStackExists, reseed 16 w))"
proof -
  have "marshal_stack (fresh_stack org project stack (clock w) i) =
      Some (stack_json (fresh_stack org project stack (clock w) i))" for i
    using storable_fresh [OF assms] by simp
  then show ?thesis
    by (simp add: CreateStack_def NewUpdateID_def fresh_stack_def [symmetric] putJSON_def run_put_object
        put_doc_def Let_def) (auto simp: run_put_object)
qed

lemma run_saveCheckpoint_admit:
  "run h (saveCheckpoint_admit st u g v) w = (save_spec (clock w) st u g v, w)"
  by (auto simp: saveCheckpoint_admit_def save_spec_def split: option.split)

lemma run_put_checkpoint:
  assumes "has_doc w k st"
  shows "run h (putJSONIfMatch k (marshal_stack (record_checkpoint st v key)) (tag st)) w =
     (Inr (), put_doc k (record_checkpoint st v key) w)"
proof -
  have "storable (record_checkpoint st v key)" using assms by (simp add: has_doc_def)
  with run_putJSONIfMatch [OF assms this] show ?thesis by simp
qed

text \<open>The world after the content-addressed object was written, unless it was there already.\<close>

definition with_object :: "string \<Rightarrow> json \<Rightarrow> 'w \<Rightarrow> 'w" where
  "with_object key d w = (if objs w key = None then store key (Some (Doc d)) w else w)"

lemma has_doc_with_object:
  "has_doc w k st \<Longrightarrow> k \<noteq> key \<Longrightarrow> has_doc (with_object key d w) k st"
  by (simp add: has_doc_def with_object_def)

lemma clock_with_object [simp]: "clock (with_object key d w) = clock w"
  by (simp add: with_object_def)

lemma save_spec_etag [simp]: "save_spec now (st\<lparr>st_etag := e\<rparr>) u g v = save_spec now st u g v"
  by (simp add: save_spec_def)

lemma run_SaveCheckpoint:
  assumes ok: "ref_ok org project stack" and doc: "has_doc w (stackKey org project stack) st"
    and inc: "st_Incarnation st = incarnation"
    and key: "key = checkpointObjectKey sha org project stack incarnation d"
  shows "run h (SaveCheckpoint sha org project stack incarnation u g v d) w =
    (case save_spec (clock w) st u g v of
       Inl err \<Rightarrow> (Inl err, with_object key d w)
     | Inr _ \<Rightarrow> (Inr (), store (latestCheckpointKey org project stack incarnation) (Some (Doc d))
         (store (historyCheckpointKey org project stack incarnation v) (Some (Doc d))
           (put_doc (stackKey org project stack) (record_checkpoint st v key) (with_object key d w)))))"
proof -
  have "stackKey org project stack \<noteq> key" unfolding key using stackKey_not_object(4) [OF ok ok] .
  from has_doc_with_object [OF doc this] have doc': "has_doc (with_object key d w) (stackKey org project stack) st" .
  have loop: "run h (saveCheckpoint_loop 5 org project stack incarnation u g v d key) (with_object key d w) =
    (case save_spec (clock w) st u g v of
       Inl err \<Rightarrow> (Inl err, with_object key d w)
     | Inr _ \<Rightarrow> (Inr (), store (latestCheckpointKey org project stack incarnation) (Some (Doc d))
         (store (historyCheckpointKey org project stack incarnation v) (Some (Doc d))
           (put_doc (stackKey org project stack) (record_checkpoint st v key) (with_object key d w)))))"
    unfolding numeral_eq_Suc saveCheckpoint_loop.simps Let_def
    by (simp add: run_GetStack [OF doc'] inc run_saveCheckpoint_admit record_checkpoint_set_etag run_put_checkpoint [OF doc']
        run_put_object split: sum.split)
  have "run h (put_object key (Doc d) True) w =
      ((if objs w key = None then Inr () else Inl (Wrap (''put '' @ key @ '': '') (S3Error (ResponseError 412 pf)))),
       with_object key d w)"
    by (auto simp: with_object_def run_put_object)
  then show ?thesis
    unfolding SaveCheckpoint_def using loop
    by (simp add: run_GetStack [OF doc] inc Let_def key [symmetric])
qed

lemma run_readCheckpoint: "objs w key = Some (Doc d) \<Longrightarrow> run h (readCheckpoint key) w = (Inr d, w)"
  by (simp add: readCheckpoint_def)

lemma checkpointObjectKey_nonempty [simp]: "checkpointObjectKey sha org project stack incarnation d \<noteq> ''''"
  by (simp add: checkpointObjectKey_def)

lemma run_SaveCheckpoint_read:
  assumes ok: "ref_ok org project stack" and doc: "has_doc w (stackKey org project stack) st"
    and inc: "st_Incarnation st = incarnation" and may: "save_spec (clock w) st u g v = Inr ()"
    and fresh: "objs w (checkpointObjectKey sha org project stack incarnation d) \<in> {None, Some (Doc d)}"
    and run: "run h (SaveCheckpoint sha org project stack incarnation u g v d) w = (r, w')"
  shows "r = Inr () \<and> run h (GetCheckpoint org project stack) w' = (Inr d, w') \<and>
     run h (GetCheckpointVersion org project stack v) w' = (Inr d, w')"
proof -
  let ?key = "checkpointObjectKey sha org project stack incarnation d" and ?k = "stackKey org project stack"
  note keys = stackKey_not_object [OF ok ok]
  have w': "w' = store (latestCheckpointKey org project stack incarnation) (Some (Doc d))
         (store (historyCheckpointKey org project stack incarnation v) (Some (Doc d))
           (put_doc ?k (record_checkpoint st v ?key) (with_object ?key d w)))" and r: "r = Inr ()"
    using run may by (simp_all add: run_SaveCheckpoint [OF ok doc inc refl])
  have doc': "has_doc w' ?k (record_checkpoint st v ?key)"
    using doc keys by (simp add: w' has_doc_def)
  have obj: "objs w' ?key = Some (Doc d)"
    using fresh keys(4) [symmetric] by (auto simp: w' with_object_def)
  have "sm_get (st_CheckpointVersions (record_checkpoint st v ?key)) (Itoa (sint v)) = Some ?key"
    by (simp add: record_checkpoint_def)
  moreover have "st_LatestCheckpointKey (record_checkpoint st v ?key) = ?key"
    by (simp add: record_checkpoint_def)
  ultimately show ?thesis
    using r obj by (simp add: GetCheckpoint_def GetCheckpointVersion_def run_GetStack [OF doc'] run_readCheckpoint Let_def)
qed

end

section \<open>Updates\<close>

text \<open>An update record as it is stored: the two fields that are not encoded are empty.\<close>

definition clean_update :: "update \<Rightarrow> bool" where
  "clean_update u \<longleftrightarrow> persisted_update u = u \<and> sm_wf (u_ResourceChanges u)"

lemma clean_update_roundtrip: "clean_update u \<Longrightarrow> unmarshal_update (update_json u) = Some u"
  using update_roundtrip [of u] by (simp add: clean_update_def)

lemma update_json_hidden [simp]:
  "update_json (u\<lparr>u_etag := e\<rparr>) = update_json u" "update_json (u\<lparr>u_Incarnation := i\<rparr>) = update_json u"
  by (simp_all add: update_json_def)

text \<open>The state machine of an update record, as \<^verbatim>\<open>StartUpdate\<close> and \<^verbatim>\<open>CompleteUpdate\<close> move it.\<close>

definition start_spec :: "time \<Rightarrow> update \<Rightarrow> error + update" where
  "start_spec now u =
     (if u_Status u = ''in-progress'' then Inr u
      else if u_Status u = ''not-started''
      then Inr (u\<lparr>u_Status := ''in-progress'', u_StartTime := word_of_int (unix now)\<rparr>)
      else Inl ErrInvalidUpdateState)"

definition complete_spec :: "time \<Rightarrow> update \<Rightarrow> string \<Rightarrow> string \<Rightarrow> int64 smap \<Rightarrow> error + update" where
  "complete_spec now u status message changes =
     (if u_Status u = status then Inr u
      else if u_Status u = ''in-progress'' \<or> u_Status u = ''not-started'' \<and> status = ''cancelled''
      then Inr (u\<lparr>u_Status := status, u_Message := message, u_ResourceChanges := changes,
        u_EndTime := word_of_int (unix now)\<rparr>)
      else Inl ErrInvalidUpdateState)"

text \<open>The record that \<^verbatim>\<open>CreateUpdate\<close> writes.\<close>

definition new_update :: "time \<Rightarrow> string \<Rightarrow> string \<Rightarrow> int64 \<Rightarrow> update" where
  "new_update now kind updateID version = zero_update\<lparr>u_ID := updateID, u_Kind := kind,
     u_Status := ''not-started'', u_Version := version, u_StartTime := word_of_int (unix now)\<rparr>"

lemma clean_new_update [simp]: "clean_update (new_update now kind updateID version)"
  by (simp add: clean_update_def new_update_def zero_update_def persisted_update_def)

lemma storable_version [simp]:
  "storable st \<Longrightarrow> time_marshals now \<Longrightarrow> storable (st\<lparr>st_Version := v, st_LastUpdate := now\<rparr>)"
  by (simp add: storable_def clean_stack_def marshal_stack_def split: if_splits)

context s3_ideal
begin

definition has_update :: "'w \<Rightarrow> string \<Rightarrow> update \<Rightarrow> bool" where
  "has_update w k u \<longleftrightarrow> objs w k = Some (Doc (update_json u)) \<and> clean_update u"

definition put_update :: "string \<Rightarrow> update \<Rightarrow> 'w \<Rightarrow> 'w" where
  "put_update k u = store k (Some (Doc (update_json u)))"

definition utag :: "update \<Rightarrow> string" where
  "utag u = etag (Doc (update_json u))"

lemma run_GetUpdate:
  assumes "has_doc w (stackKey org project stack) st"
    and "has_update w (updateKey org project stack (st_Incarnation st) updateID) u"
  shows "run h (GetUpdate org project stack updateID) w =
    (Inr (u\<lparr>u_etag := utag u, u_Incarnation := st_Incarnation st\<rparr>), w)"
  using assms(2) clean_update_roundtrip [of u]
  by (simp add: GetUpdate_def run_GetStack [OF assms(1)] run_getWithETag has_update_def utag_def)

lemma run_GetUpdate_missing:
  assumes "has_doc w (stackKey org project stack) st"
    and "objs w (updateKey org project stack (st_Incarnation st) updateID) = None"
  shows "run h (GetUpdate org project stack updateID) w = (Inl ErrUpdateNotFound, w)"
  using assms(2) by (simp add: GetUpdate_def run_GetStack [OF assms(1)] run_getWithETag isNotFound_def)

lemma run_put_update:
  assumes "has_update w k u"
  shows "run h (putJSONIfMatch k (marshal_update u') (utag u)) w = (Inr (), put_update k u' w)"
  using assms run_putIfMatch_raw [of w k "Doc (update_json u)"]
  by (simp add: has_update_def marshal_update_def put_update_def utag_def)

lemma run_StartUpdate:
  assumes doc: "has_doc w (stackKey org project stack) st"
    and upd: "has_update w (updateKey org project stack (st_Incarnation st) updateID) u"
  shows "run h (StartUpdate org project stack updateID) w =
    (case start_spec (clock w) u of
       Inl err \<Rightarrow> (Inl err, w)
     | Inr u' \<Rightarrow> (Inr (), if u_Status u = ''in-progress'' then w
         else put_update (updateKey org project stack (st_Incarnation st) updateID) u' w))"
  unfolding StartUpdate_def Let_def
  by (simp add: run_GetUpdate [OF doc upd] run_put_update [OF upd] start_spec_def)
    (simp add: put_update_def update_json_def)

lemma run_CompleteUpdate:
  assumes doc: "has_doc w (stackKey org project stack) st"
    and upd: "has_update w (updateKey org project stack (st_Incarnation st) updateID) u"
  shows "run h (CompleteUpdate org project stack updateID status message changes) w =
    (case complete_spec (clock w) u status message changes of
       Inl err \<Rightarrow> (Inl err, w)
     | Inr u' \<Rightarrow> (Inr (), if u_Status u = status then w
         else put_update (updateKey org project stack (st_Incarnation st) updateID) u' w))"
  unfolding CompleteUpdate_def Let_def
  by (simp add: run_GetUpdate [OF doc upd] run_put_update [OF upd] complete_spec_def)
    (simp add: put_update_def update_json_def)

text \<open>The conditional write of the new version, when the lock is held.\<close>

lemma run_commitUpdateVersion:
  assumes doc: "has_doc w (stackKey org project stack) st" and inc: "st_Incarnation st = incarnation"
    and live: "live_gen {clock w} (st_Lock st) u g" and time: "time_marshals (clock w)"
  shows "run h (commitUpdateVersion org project stack u incarnation g v) w =
    (if st_Version st = v then (Inr (), w)
     else if st_Version st = v - 1
     then (Inr (), put_doc (stackKey org project stack) (st\<lparr>st_Version := v, st_LastUpdate := clock w\<rparr>) w)
     else (Inl ErrConcurrentMutation, w))"
proof -
  have st: "storable st" using doc by (simp add: has_doc_def)
  let ?st' = "st\<lparr>st_Version := v, st_LastUpdate := clock w\<rparr>"
  have fold: "st\<lparr>st_etag := e, st_Version := v, st_LastUpdate := clock w\<rparr> = ?st'\<lparr>st_etag := e\<rparr>" for e
    by (cases st) simp
  have put: "run h (putJSONIfMatch (stackKey org project stack) (marshal_stack ?st') (tag st)) w =
      (Inr (), put_doc (stackKey org project stack) ?st' w)"
    using run_putJSONIfMatch [OF doc storable_version [OF st time]] storable_version [OF st time] by simp
  show ?thesis
    using live unfolding commitUpdateVersion_def numeral_eq_Suc commitUpdateVersion_loop.simps Let_def
    by (auto simp: run_GetStack [OF doc] inc fold put split: option.split)
qed

lemma run_putConditional_new:
  "objs w k = None \<Longrightarrow> run h (putConditional k b True '''') w = (Inr (etag b), store k (Some b) w)"
  "objs w k = Some b' \<Longrightarrow> run h (putConditional k b True '''') w =
     (Inl (Wrap (''put '' @ k @ '': '') (S3Error (ResponseError 412 pf))), w)"
  by (simp_all add: putConditional_def numeral_2_eq_2 isConditionalConflict_def)

lemma has_doc_put_update:
  "has_doc w k st \<Longrightarrow> k \<noteq> k' \<Longrightarrow> has_doc (put_update k' u w) k st"
  by (simp add: has_doc_def put_update_def)

lemma clock_put_update [simp]: "clock (put_update k u w) = clock w"
  by (simp add: put_update_def)

lemma new_update_fold:
  "zero_update\<lparr>u_ID := updateID, u_Kind := kind, u_Status := ''not-started'', u_Version := v,
     u_StartTime := word_of_int (unix now), u_Incarnation := i\<rparr> = (new_update now kind updateID v)\<lparr>u_Incarnation := i\<rparr>"
  by (simp add: new_update_def zero_update_def)

lemma run_CreateUpdate:
  assumes ok: "ref_ok org project stack" and doc: "has_doc w (stackKey org project stack) st"
    and live: "st_Lock st = Some l" "l_UpdateID l = updateID" "\<not> Expired l (clock w)"
    and time: "time_marshals (clock w)" and kind: "kind \<noteq> ''preview''"
    and key: "key = updateKey org project stack (st_Incarnation st) updateID" and new: "objs w key = None"
  shows "run h (CreateUpdate org project stack kind updateID) w =
    (let u = new_update (clock w) kind updateID (st_Version st + 1) in
      (Inr (u\<lparr>u_Incarnation := st_Incarnation st\<rparr>),
       put_doc (stackKey org project stack) (st\<lparr>st_Version := st_Version st + 1, st_LastUpdate := clock w\<rparr>)
         (put_update key u w)))"
proof -
  let ?u = "new_update (clock w) kind updateID (st_Version st + 1)"
  have "stackKey org project stack \<noteq> key" unfolding key using stackKey_not_object(5) [OF ok ok] .
  note doc' = has_doc_put_update [OF doc this]
  have commit: "run h (commitUpdateVersion org project stack updateID (st_Incarnation st) (l_Generation l)
      (st_Version st + 1)) (put_update key ?u w) =
    (Inr (), put_doc (stackKey org project stack)
       (st\<lparr>st_Version := st_Version st + 1, st_LastUpdate := clock w\<rparr>) (put_update key ?u w))"
    using run_commitUpdateVersion [OF doc' refl, where u = updateID and g = "l_Generation l" and v = "st_Version st + 1"] live time
    by simp
  have ID: "u_ID ?u = updateID" "u_Version ?u = st_Version st + 1" by (simp_all add: new_update_def)
  show ?thesis
    unfolding CreateUpdate_def createUpdate_record_def Let_def new_update_fold
    using live kind commit ID
    by (simp add: run_GetStack [OF doc] key [symmetric] marshal_update_def run_putConditional_new(1) [OF new]
        put_update_def)
qed

lemma run_CreateUpdate_no_lock:
  assumes doc: "has_doc w (stackKey org project stack) st" and kind: "kind \<noteq> ''preview''"
    and not: "\<not> live {clock w} (st_Lock st) updateID"
  shows "run h (CreateUpdate org project stack kind updateID) w = (Inl ErrNoLock, w)"
  using not kind by (auto simp: CreateUpdate_def run_GetStack [OF doc] split: option.split)

text \<open>A repeated \<^verbatim>\<open>CreateUpdate\<close> returns the record of the first one and does not count a version.\<close>

lemma run_CreateUpdate_again:
  assumes doc: "has_doc w (stackKey org project stack) st"
    and live: "st_Lock st = Some l" "l_UpdateID l = updateID" "\<not> Expired l (clock w)"
    and time: "time_marshals (clock w)" and kind: "kind \<noteq> ''preview''"
    and upd: "has_update w (updateKey org project stack (st_Incarnation st) updateID) u"
    and same: "u_Kind u = kind" "u_Version u = st_Version st"
  shows "run h (CreateUpdate org project stack kind updateID) w =
     (Inr (u\<lparr>u_etag := utag u, u_Incarnation := st_Incarnation st\<rparr>), w)"
proof -
  have obj: "objs w (updateKey org project stack (st_Incarnation st) updateID) = Some (Doc (update_json u))"
    using upd by (simp add: has_update_def)
  have ID: "u_ID (new_update (clock w) kind updateID v) = updateID" for v by (simp add: new_update_def)
  have live': "live_gen {clock w} (st_Lock st) updateID (l_Generation l)" using live by simp
  show ?thesis
    unfolding CreateUpdate_def createUpdate_record_def createUpdate_existing_def Let_def new_update_fold
    using live kind same ID
    by (simp add: run_GetStack [OF doc] marshal_update_def run_putConditional_new(2) [OF obj]
        run_GetUpdate [OF doc upd] run_commitUpdateVersion [OF doc refl live' time])
qed

lemma run_CreateUpdate_preview:
  assumes ok: "ref_ok org project stack" and doc: "has_doc w (stackKey org project stack) st"
    and key: "key = updateKey org project stack (st_Incarnation st) updateID" and new: "objs w key = None"
  shows "run h (CreateUpdate org project stack ''preview'' updateID) w =
    (case st_Lock st of
       Some l \<Rightarrow> if deletionFence (Some l) then (Inl (LockHeldError l), w)
         else (Inr ((new_update (clock w) ''preview'' updateID (st_Version st))\<lparr>u_Incarnation := st_Incarnation st\<rparr>),
           put_doc (stackKey org project stack) st (put_update key (new_update (clock w) ''preview'' updateID (st_Version st)) w))
     | None \<Rightarrow> (Inr ((new_update (clock w) ''preview'' updateID (st_Version st))\<lparr>u_Incarnation := st_Incarnation st\<rparr>),
           put_doc (stackKey org project stack) st (put_update key (new_update (clock w) ''preview'' updateID (st_Version st)) w)))"
proof -
  let ?u = "new_update (clock w) ''preview'' updateID (st_Version st)"
  have "stackKey org project stack \<noteq> key" unfolding key using stackKey_not_object(5) [OF ok ok] .
  note doc' = has_doc_put_update [OF doc this]
  have st: "storable st" using doc by (simp add: has_doc_def)
  have put: "run h (putJSONIfMatch (stackKey org project stack) (marshal_stack st) (tag st)) (put_update key ?u w) =
      (Inr (), put_doc (stackKey org project stack) st (put_update key ?u w))"
    using run_putJSONIfMatch [OF doc' st] st by simp
  have ID: "u_ID ?u = updateID" by (simp add: new_update_def)
  have step: "run h (previewBarrier 5 org project stack (st_Incarnation st) key e u') (put_update key ?u w) =
      (Inr u', put_doc (stackKey org project stack) st (put_update key ?u w))"
    if "\<not> deletionFence (st_Lock st)" for e u'
    using that unfolding numeral_eq_Suc previewBarrier.simps
    by (simp add: run_GetStack [OF doc'] fencing_lock_def put)
  show ?thesis
    unfolding CreateUpdate_def createUpdate_record_def Let_def new_update_fold
    using ID step
    by (auto simp: run_GetStack [OF doc] key [symmetric] marshal_update_def run_putConditional_new(1) [OF new]
        put_update_def fencing_lock_def deletionFence_def split: option.split)
qed

end

section \<open>Deleting and listing stacks\<close>

text \<open>The objects that belong to an incarnation of a stack, its document apart.\<close>

definition belongs :: "string \<Rightarrow> string \<Rightarrow> string \<Rightarrow> string \<Rightarrow> string \<Rightarrow> bool" where
  "belongs org project stack incarnation k \<longleftrightarrow>
     (if incarnation \<noteq> '''' then HasPrefix k (stackDataPrefix org project stack incarnation)
      else HasPrefix k (stackPrefix org project stack) \<and> k \<noteq> stackKey org project stack \<and>
        \<not> HasPrefix k (stackPrefix org project stack @ ''incarnations/''))"

lemma belongs_not_doc: "ref_ok org project stack \<Longrightarrow> \<not> belongs org project stack incarnation (stackKey org project stack)"
  unfolding belongs_def using stackKey_not_data [of org project stack org project stack incarnation]
  by (auto elim!: HasPrefixE)

context s3_ideal
begin

lemma run_listStackIncarnationObjects:
  "\<exists>ks. run h (listStackIncarnationObjects org project stack incarnation) w = (Inr ks, w) \<and>
     set ks = {k. objs w k \<noteq> None \<and> belongs org project stack incarnation k}"
  using pages_exact [of "stackDataPrefix org project stack incarnation" w]
    pages_exact [of "stackPrefix org project stack" w]
  by (auto simp: listStackIncarnationObjects_def listObjectsExcept_def Let_def belongs_def simp del: not_None_eq)

text \<open>The conditions under which the fence of a deletion is found intact.\<close>

definition fenced :: "'w \<Rightarrow> string \<Rightarrow> stack \<Rightarrow> string \<Rightarrow> uint64 \<Rightarrow> bool" where
  "fenced w k st u g \<longleftrightarrow> has_doc w k st \<and> k = stackKey (st_Org st) (st_Project st) (st_Name st) \<and>
     live_gen {clock w} (st_Lock st) u g"

lemma run_validateDeletionFence:
  assumes "fenced w k st u g"
  shows "run h (validateDeletionFence (st\<lparr>st_etag := tag st\<rparr>) u g) w = (Inr (), w)"
proof -
  have doc: "has_doc w (stackKey (st_Org st) (st_Project st) (st_Name st)) st"
    using assms by (auto simp: fenced_def)
  show ?thesis
    using assms by (auto simp: validateDeletionFence_def run_GetStack [OF doc] fenced_def live_gen_def)
qed

lemma fenced_delete:
  "fenced w k st u g \<Longrightarrow> k \<notin> set ks \<Longrightarrow> fenced (fold (\<lambda>k. store k None) ks w) k st u g"
  by (auto simp: fenced_def has_doc_def)

lemma run_deleteObjects_loop:
  assumes "fenced w k st u g" "k \<notin> set ks" "st' = st\<lparr>st_etag := tag st\<rparr>"
  shows "\<exists>w'. run h (deleteObjects_loop st' u g ks) w = (Inr (), w') \<and>
     objs w' = (objs w) |` (- set ks) \<and> fenced w' k st u g"
  using assms
proof (induction st' u g ks arbitrary: w rule: deleteObjects_loop.induct)
  case (1 st' u g ks)
  show ?case
  proof (cases "ks = []")
    case True
    then show ?thesis using "1.prems" by (auto simp: deleteObjects_loop.simps fun_eq_iff)
  next
    case False
    let ?w1 = "fold (\<lambda>k. store k None) (take 1000 ks) w"
    have "k \<notin> set (take 1000 ks)" "k \<notin> set (drop 1000 ks)"
      using "1.prems"(2) by (auto dest: in_set_takeD in_set_dropD)
    then have f1: "fenced ?w1 k st u g" using "1.prems"(1) fenced_delete by blast
    obtain w' where w': "run h (deleteObjects_loop st' u g (drop 1000 ks)) ?w1 = (Inr (), w')"
      "objs w' = (objs ?w1) |` (- set (drop 1000 ks))" "fenced w' k st u g"
      using "1.IH" [OF False f1 \<open>k \<notin> set (drop 1000 ks)\<close> "1.prems"(3)] by blast
    have "set ks = set (take 1000 ks) \<union> set (drop 1000 ks)"
      by (metis append_take_drop_id set_append)
    then have "objs w' = (objs w) |` (- set ks)"
      unfolding w'(2) by (auto simp: restrict_map_def fun_eq_iff)
    moreover have "run h (deleteObjects_loop st' u g ks) w = (Inr (), w')"
      unfolding deleteObjects_loop.simps [of st' u g ks]
      using False w'(1) run_validateDeletionFence [OF "1.prems"(1)] by (simp add: "1.prems"(3))
    ultimately show ?thesis using w'(3) by blast
  qed
qed

lemma run_DeleteStack:
  assumes ok: "ref_ok org project stack" and doc: "has_doc w (stackKey org project stack) st"
    and ref: "st_Org st = org" "st_Project st = project" "st_Name st = stack" "st_Incarnation st = incarnation"
    and live: "live_gen {clock w} (st_Lock st) u g" and fence: "HasPrefix u ''delete-''"
  shows "\<exists>w'. run h (DeleteStack org project stack incarnation u g) w = (Inr (), w') \<and>
     objs w' = (\<lambda>k. if k = stackKey org project stack \<or> belongs org project stack incarnation k then None else objs w k)"
proof -
  let ?k = "stackKey org project stack"
  have f: "fenced w ?k st u g" using doc ref live by (simp add: fenced_def)
  obtain ks where ks: "run h (listStackIncarnationObjects org project stack incarnation) w = (Inr ks, w)"
    "set ks = {k. objs w k \<noteq> None \<and> belongs org project stack incarnation k}"
    using run_listStackIncarnationObjects by blast
  have "?k \<notin> set ks" using ks(2) belongs_not_doc [OF ok] by auto
  from run_deleteObjects_loop [OF f this refl] obtain w1 where
    w1: "run h (deleteObjects_loop (st\<lparr>st_etag := tag st\<rparr>) u g ks) w = (Inr (), w1)"
      "objs w1 = (objs w) |` (- set ks)" "fenced w1 ?k st u g" by blast
  have none: "objs w1 k = None" if "belongs org project stack incarnation k" for k
    using that unfolding w1(2) ks(2) by (auto simp: restrict_map_def)
  obtain ks' where ks': "run h (listStackIncarnationObjects org project stack incarnation) w1 = (Inr ks', w1)"
    "set ks' = {k. objs w1 k \<noteq> None \<and> belongs org project stack incarnation k}"
    using run_listStackIncarnationObjects by blast
  have "set ks' = {}" unfolding ks'(2) using none by auto
  then have "ks' = []" by simp
  have k1: "objs w1 ?k = Some (Doc (stack_json st))" using w1(3) by (auto simp: fenced_def has_doc_def)
  have del: "run h (deleteIfMatch ?k (tag st)) w1 = (Inr (), store ?k None w1)"
    using k1 by (simp add: deleteIfMatch_def numeral_2_eq_2 tag_def)
  obtain l where l: "st_Lock st = Some l" "l_UpdateID l = u" "l_Generation l = g" "\<not> Expired l (clock w)"
    using live by (auto simp: live_gen_def)
  have "run h (DeleteStack org project stack incarnation u g) w = (Inr (), store ?k None w1)"
    using l fence ref(4)
    by (simp add: DeleteStack_def run_GetStack [OF doc] deletionFence_def ks(1) w1(1) ks'(1) \<open>ks' = []\<close>
        run_validateDeletionFence [OF w1(3)] del)
  moreover have "objs (store ?k None w1) =
      (\<lambda>k. if k = ?k \<or> belongs org project stack incarnation k then None else objs w k)"
    using none ks(2) by (auto simp: w1(2) restrict_map_def fun_eq_iff)
  ultimately show ?thesis by blast
qed

text \<open>Every branch in which \<^verbatim>\<open>DeleteStack\<close> refuses leaves the bucket as it is.\<close>

lemma run_DeleteStack_refused:
  assumes doc: "has_doc w (stackKey org project stack) st"
  shows "st_Incarnation st \<noteq> incarnation \<Longrightarrow>
      run h (DeleteStack org project stack incarnation u g) w = (Inl ErrConcurrentMutation, w)"
    and "dead {clock w} (st_Lock st) \<Longrightarrow> st_Incarnation st = incarnation \<Longrightarrow>
      run h (DeleteStack org project stack incarnation u g) w = (Inl ErrNoLock, w)"
    and "st_Lock st = Some l \<Longrightarrow> \<not> Expired l (clock w) \<Longrightarrow> \<not> deletionFence (Some l) \<Longrightarrow>
      st_Incarnation st = incarnation \<Longrightarrow>
      run h (DeleteStack org project stack incarnation u g) w = (Inl (LockHeldError l), w)"
  by (auto simp: DeleteStack_def run_GetStack [OF doc] split: option.split)

text \<open>\<^verbatim>\<open>ListStacks\<close> reads every document below the prefix.\<close>

lemma run_get_object:
  assumes "objs w k = Some (Doc j)" "dec j = Some x"
  shows "run h (get_object k dec) w = (Inr x, w)"
  using assms by (simp add: get_object_def run_getWithETag)

lemma run_listStacks_page:
  assumes "\<And>k. k \<in> set page \<Longrightarrow> HasSuffix k ''/stack.json'' \<Longrightarrow> has_doc w k (docs k)"
  shows "run h (listStacks_page page stacks) w =
     (Inr (stacks @ map docs (filter (\<lambda>k. HasSuffix k ''/stack.json'') page)), w)"
  using assms
proof (induction page arbitrary: stacks)
  case (Cons k page)
  have "run h (get_object k unmarshal_stack) w = (Inr (docs k), w)" if "HasSuffix k ''/stack.json''"
    using Cons.prems [of k] that clean_roundtrip by (auto simp: has_doc_def intro: run_get_object)
  then show ?case using Cons by simp
qed simp

lemma run_listStacks_pages:
  assumes "\<And>k. k \<in> set (concat pgs) \<Longrightarrow> HasSuffix k ''/stack.json'' \<Longrightarrow> has_doc w k (docs k)"
  shows "run h (listStacks_pages pgs stacks) w =
     (Inr (stacks @ map docs (filter (\<lambda>k. HasSuffix k ''/stack.json'') (concat pgs))), w)"
  using assms
proof (induction pgs arbitrary: stacks)
  case (Cons page pgs)
  have "run h (listStacks_page page stacks) w =
      (Inr (stacks @ map docs (filter (\<lambda>k. HasSuffix k ''/stack.json'') page)), w)"
    by (rule run_listStacks_page) (use Cons.prems in auto)
  then show ?case using Cons by simp
qed simp

lemma run_ListStacks:
  assumes "\<And>k. objs w k \<noteq> None \<Longrightarrow> HasPrefix k (if org = '''' then '''' else org @ ''/'') \<Longrightarrow>
     HasSuffix k ''/stack.json'' \<Longrightarrow> has_doc w k (docs k)"
  shows "\<exists>stacks ks. run h (ListStacks org) w = (Inr stacks, w) \<and> sorted (map stack_sort_name stacks) \<and>
     mset stacks = mset (map docs ks) \<and> distinct ks \<and>
     set ks = {k. objs w k \<noteq> None \<and> HasPrefix k (if org = '''' then '''' else org @ ''/'') \<and> HasSuffix k ''/stack.json''}"
proof -
  let ?p = "if org = '''' then '''' else org @ ''/''"
  let ?ks = "filter (\<lambda>k. HasSuffix k ''/stack.json'') (concat (pages ?p w))"
  have p: "(if org \<noteq> '''' then org @ ''/'' else org) = ?p" by simp
  have "run h (listStacks_pages (pages ?p w) []) w = (Inr (map docs ?ks), w)"
  proof (subst run_listStacks_pages [where docs = docs])
    show "has_doc w k (docs k)" if "k \<in> set (concat (pages ?p w))" "HasSuffix k ''/stack.json''" for k
      using that assms pages_exact [of ?p w] by blast
  qed simp
  then have "run h (ListStacks org) w = (Inr (sort_key stack_sort_name (map docs ?ks)), w)"
    by (simp add: ListStacks_def p Let_def)
  then show ?thesis
    using pages_exact [of ?p w] pages_distinct [of ?p w]
    by (intro exI [of _ "sort_key stack_sort_name (map docs ?ks)"] exI [of _ ?ks]) auto
qed

end

section \<open>The results, for every ideal service\<close>

text \<open>
  C18. Acquiring a lock. For a stack whose document is its own lock authority, \<^verbatim>\<open>AcquireLock\<close>
  returns what \<open>acquire_spec\<close> computes from the document: a grant with a new generation when
  there is no lock or its lease has run out, a renewal when update and owner are the same, and
  otherwise \<^verbatim>\<open>LockHeldError\<close> with the lock that is in the way. Only a returned lock is written,
  together with the fence; an error leaves every object as it was.
\<close>

theorem AcquireLock_refines_spec:
  assumes service: "s3_ideal h objs store etag pages clock rand reseed nf pf"
    and doc: "objs w (stackKey org project stack) = Some (Doc (stack_json st))" "storable st"
    and canon: "usesCanonicalLock st" and time: "time_marshals (clock w + ttl)"
    and run: "run h (AcquireLock org project stack incarnation u owner ttl) w = (r, w')"
  shows "r = (if st_Incarnation st \<noteq> incarnation then Inl ErrConcurrentMutation
        else acquire_spec (clock w) st u owner ttl) \<and>
     objs w' = (case r of Inl err \<Rightarrow> objs w
       | Inr l \<Rightarrow> (objs w)(stackKey org project stack \<mapsto> Doc (stack_json (with_lock st (l_Generation l) (Some l)))))"
proof -
  have "s3_ideal.has_doc objs w (stackKey org project stack) st"
    using doc by (simp add: s3_ideal.has_doc_def [OF service])
  from s3_ideal.run_AcquireLock [OF service this canon time] run show ?thesis
    by (auto simp: s3_ideal.put_doc_simps [OF service] split: if_splits sum.splits)
qed

lemma demo_storable [simp]: "storable (demo_stack (map_option demo_lock u))"
  using demo_marshal [of u]
  by (cases u) (simp_all add: storable_def clean_stack_def clean_lock_def persisted_lock_def demo_stack_def zero_stack_def demo_lock_def)

lemma demo_storables [simp]: "storable (demo_stack None)" "storable (demo_stack (Some (demo_lock u)))"
  using demo_storable [of None] demo_storable [of "Some u"] by simp_all

lemma demo_canonical [simp]: "usesCanonicalLock (demo_stack lk)"
  by (simp add: usesCanonicalLock_def demo_stack_def)

lemma demo_object: "ref_objs (demo_bucket lk) (stackKey ''o'' ''p'' ''s'') = Some (Doc (stack_json (demo_stack lk)))"
  using demo_objs by (simp add: demo_key_def)

theorem AcquireLock_refines_spec_witness:
  "\<exists>w' l. run ref_service (AcquireLock ''o'' ''p'' ''s'' ''i'' ''u2'' ''bob'' hour) (demo_bucket None) = (Inr l, w') \<and>
     l_Generation l = 2 \<and> l_UpdateID l = ''u2''"
proof -
  obtain r w' where run:
    "run ref_service (AcquireLock ''o'' ''p'' ''s'' ''i'' ''u2'' ''bob'' hour) (demo_bucket None) = (r, w')"
    by fastforce
  have time: "time_marshals (bk_clock (demo_bucket None) + hour)"
    by (simp add: time_marshals_def demo_bucket_def)
  from AcquireLock_refines_spec [OF ref.s3_ideal_axioms demo_object demo_storables(1) demo_canonical time run] run
  show ?thesis
    by (auto simp: acquire_spec_def granted_def settled_def next_generation_def demo_stack_def zero_stack_def)
qed

text \<open>
  C19. A lock is exclusive and passes on. After \<^verbatim>\<open>AcquireLock\<close> returned a lock, \<^verbatim>\<open>GetLock\<close>
  returns it; while its lease runs, another update gets \<^verbatim>\<open>LockHeldError\<close> with this lock and
  changes nothing; after \<^verbatim>\<open>ReleaseLock\<close> there is no lock, and the next grant has a larger
  generation, unless the fence has reached the last \<^verbatim>\<open>uint64\<close>.
\<close>

theorem lock_handover:
  assumes service: "s3_ideal h objs store etag pages clock rand reseed nf pf"
    and doc: "objs w (stackKey org project stack) = Some (Doc (stack_json st))" "storable st"
    and canon: "usesCanonicalLock st" and time: "time_marshals (clock w + ttl)" "0 < ttl"
    and free: "st_Lock st = None" and inc: "st_Incarnation st = incarnation"
    and other: "u' \<noteq> u" and first: "run h (AcquireLock org project stack incarnation u owner ttl) w = (r, w1)"
    and second: "run h (AcquireLock org project stack incarnation u' owner' ttl) w1 = (r', w2)"
    and rel: "run h (ReleaseLock org project stack u 0) w2 = (r3, w3)"
    and third: "run h (AcquireLock org project stack incarnation u' owner' ttl) w3 = (r4, w4)"
  shows "\<exists>l l'. r = Inr l \<and> run h (GetLock org project stack) w1 = (Inr l, w1) \<and>
     r' = Inl (LockHeldError l) \<and> w2 = w1 \<and>
     r3 = Inr () \<and> run h (GetLock org project stack) w3 = (Inl ErrNoLock, w3) \<and>
     r4 = Inr l' \<and> l_UpdateID l' = u' \<and> (st_Fence st \<noteq> - 1 \<and> l_Generation l \<noteq> - 1 \<longrightarrow> l_Generation l < l_Generation l')"
proof -
  have "s3_ideal.lock_view objs clock org project stack incarnation ttl w = Some (st_Fence st, None)"
    using doc canon time free inc by (auto simp: s3_ideal.lock_view_iff [OF service] s3_ideal.has_doc_def [OF service])
  from s3_ideal.stack_lock_handover [OF service this other first second rel third] show ?thesis .
qed

theorem lock_handover_witness:
  "\<exists>l l' w1 w3 w4. run ref_service (AcquireLock ''o'' ''p'' ''s'' ''i'' ''u1'' ''alice'' hour) (demo_bucket None) = (Inr l, w1) \<and>
     run ref_service (AcquireLock ''o'' ''p'' ''s'' ''i'' ''u2'' ''bob'' hour) w1 = (Inl (LockHeldError l), w1) \<and>
     run ref_service (ReleaseLock ''o'' ''p'' ''s'' ''u1'' 0) w1 = (Inr (), w3) \<and>
     run ref_service (AcquireLock ''o'' ''p'' ''s'' ''i'' ''u2'' ''bob'' hour) w3 = (Inr l', w4) \<and> l_UpdateID l' = ''u2''"
proof -
  obtain r w1 r' w2 r3 w3 r4 w4 where runs:
    "run ref_service (AcquireLock ''o'' ''p'' ''s'' ''i'' ''u1'' ''alice'' hour) (demo_bucket None) = (r, w1)"
    "run ref_service (AcquireLock ''o'' ''p'' ''s'' ''i'' ''u2'' ''bob'' hour) w1 = (r', w2)"
    "run ref_service (ReleaseLock ''o'' ''p'' ''s'' ''u1'' 0) w2 = (r3, w3)"
    "run ref_service (AcquireLock ''o'' ''p'' ''s'' ''i'' ''u2'' ''bob'' hour) w3 = (r4, w4)"
    by (metis surj_pair)
  have time: "time_marshals (bk_clock (demo_bucket None) + hour)" "(0 :: int) < hour"
    by (simp_all add: time_marshals_def demo_bucket_def)
  have st: "st_Lock (demo_stack None) = None" "st_Incarnation (demo_stack None) = ''i''" "''u2'' \<noteq> ''u1''"
    by (simp_all add: demo_stack_def)
  from lock_handover [OF ref.s3_ideal_axioms demo_object demo_storables(1) demo_canonical time st runs] runs
  show ?thesis by metis
qed

text \<open>
  C20. Checkpoint round trip. A \<^verbatim>\<open>SaveCheckpoint\<close> by the holder of the live lock, at the
  version of the stack, succeeds, and then both \<^verbatim>\<open>GetCheckpoint\<close> and \<^verbatim>\<open>GetCheckpointVersion\<close> at
  that version return the very deployment, provided that an object stored under its digest is
  this deployment.
\<close>

theorem checkpoint_roundtrip:
  assumes service: "s3_ideal h objs store etag pages clock rand reseed nf pf"
    and ok: "ref_ok org project stack"
    and doc: "objs w (stackKey org project stack) = Some (Doc (stack_json st))" "storable st"
    and inc: "st_Incarnation st = incarnation"
    and lock: "st_Lock st = Some l" "l_UpdateID l = u" "l_Generation l = g" "\<not> Expired l (clock w)"
      "u \<noteq> ''''" "st_Version st = v"
    and digest: "objs w (checkpointObjectKey sha org project stack incarnation d) \<in> {None, Some (Doc d)}"
    and run: "run h (SaveCheckpoint sha org project stack incarnation u g v d) w = (r, w')"
  shows "r = Inr () \<and> run h (GetCheckpoint org project stack) w' = (Inr d, w') \<and>
     run h (GetCheckpointVersion org project stack v) w' = (Inr d, w')"
proof -
  have "s3_ideal.has_doc objs w (stackKey org project stack) st"
    using doc by (simp add: s3_ideal.has_doc_def [OF service])
  moreover have "save_spec (clock w) st u g v = Inr ()" using lock by (simp add: save_spec_def)
  ultimately show ?thesis
    using s3_ideal.run_SaveCheckpoint_read [OF service ok _ inc _ digest run] by blast
qed

theorem checkpoint_roundtrip_witness:
  "\<exists>w'. run ref_service (SaveCheckpoint (\<lambda>_. ''d'') ''o'' ''p'' ''s'' ''i'' ''u1'' 1 3 (JInt 7)) (demo_bucket (Some (demo_lock ''u1''))) =
       (Inr (), w') \<and> run ref_service (GetCheckpoint ''o'' ''p'' ''s'') w' = (Inr (JInt 7), w')"
proof -
  let ?w = "demo_bucket (Some (demo_lock ''u1''))"
  obtain r w' where run: "run ref_service (SaveCheckpoint (\<lambda>_. ''d'') ''o'' ''p'' ''s'' ''i'' ''u1'' 1 3 (JInt 7)) ?w = (r, w')"
    by fastforce
  have st: "st_Incarnation (demo_stack (Some (demo_lock ''u1''))) = ''i''"
    "st_Lock (demo_stack (Some (demo_lock ''u1''))) = Some (demo_lock ''u1'')" "l_UpdateID (demo_lock ''u1'') = ''u1''"
    "l_Generation (demo_lock ''u1'') = 1" "\<not> Expired (demo_lock ''u1'') (bk_clock ?w)" "''u1'' \<noteq> ''''"
    "st_Version (demo_stack (Some (demo_lock ''u1''))) = 3"
    by (simp_all add: demo_stack_def demo_lock_def Expired_def demo_bucket_def)
  have digest: "ref_objs ?w (checkpointObjectKey (\<lambda>_. ''d'') ''o'' ''p'' ''s'' ''i'' (JInt 7)) \<in> {None, Some (Doc (JInt 7))}"
    by (simp add: ref_objs_def demo_bucket_def demo_key_def stackKey_def checkpointObjectKey_def stackDataPrefix_def)
  from checkpoint_roundtrip [OF ref.s3_ideal_axioms demo_ref demo_object demo_storables(2) st digest run] run
  show ?thesis by blast
qed

text \<open>
  C21. Creating an update. For the holder of the live lock \<^verbatim>\<open>CreateUpdate\<close> writes a record
  with the next version, in status \<^verbatim>\<open>not-started\<close>, and advances the version of the stack by
  one; \<^verbatim>\<open>GetUpdate\<close> reads the record back; and when the call is repeated it returns the same
  record and counts no further version.
\<close>

theorem CreateUpdate_once:
  assumes service: "s3_ideal h objs store etag pages clock rand reseed nf pf"
    and ok: "ref_ok org project stack"
    and doc: "objs w (stackKey org project stack) = Some (Doc (stack_json st))" "storable st"
    and lock: "st_Lock st = Some l" "l_UpdateID l = updateID" "\<not> Expired l (clock w)"
    and time: "time_marshals (clock w)" and kind: "kind \<noteq> ''preview''"
    and new: "objs w (updateKey org project stack (st_Incarnation st) updateID) = None"
    and run: "run h (CreateUpdate org project stack kind updateID) w = (r, w1)"
  shows "\<exists>u e. r = Inr u \<and> u_Kind u = kind \<and> u_Status u = ''not-started'' \<and> u_Version u = st_Version st + 1 \<and>
     objs w1 (stackKey org project stack) =
       Some (Doc (stack_json (st\<lparr>st_Version := st_Version st + 1, st_LastUpdate := clock w\<rparr>))) \<and>
     run h (GetUpdate org project stack updateID) w1 = (Inr (u\<lparr>u_etag := e\<rparr>), w1) \<and>
     run h (CreateUpdate org project stack kind updateID) w1 = (Inr (u\<lparr>u_etag := e\<rparr>), w1)"
proof -
  let ?k = "stackKey org project stack" and ?key = "updateKey org project stack (st_Incarnation st) updateID"
  let ?u = "new_update (clock w) kind updateID (st_Version st + 1)"
  let ?st = "st\<lparr>st_Version := st_Version st + 1, st_LastUpdate := clock w\<rparr>"
  note simps = s3_ideal.has_doc_def [OF service] s3_ideal.has_update_def [OF service]
    s3_ideal.put_doc_simps [OF service] s3_ideal.put_update_def [OF service] s3_ideal.objs_store [OF service]
    s3_ideal.clock_store [OF service]
  have d: "s3_ideal.has_doc objs w ?k st" using doc by (simp add: simps)
  have key: "?k \<noteq> ?key" using stackKey_not_object(5) [OF ok ok] .
  have 1: "r = Inr (?u\<lparr>u_Incarnation := st_Incarnation st\<rparr>)"
    "w1 = s3_ideal.put_doc store ?k ?st (s3_ideal.put_update store ?key ?u w)"
    using run s3_ideal.run_CreateUpdate [OF service ok d lock time kind refl new] by (simp_all add: Let_def)
  have d1: "s3_ideal.has_doc objs w1 ?k ?st" and c1: "clock w1 = clock w"
    using doc(2) time by (simp_all add: 1(2) simps)
  have u1: "s3_ideal.has_update objs w1 (updateKey org project stack (st_Incarnation ?st) updateID) ?u"
    using key by (simp add: 1(2) simps)
  have lock1: "st_Lock ?st = Some l" "\<not> Expired l (clock w1)" "time_marshals (clock w1)"
    "u_Kind ?u = kind" "u_Version ?u = st_Version ?st"
    using lock time by (simp_all add: c1 new_update_def)
  have commute: "?u\<lparr>u_etag := e, u_Incarnation := i\<rparr> = ?u\<lparr>u_Incarnation := i, u_etag := e\<rparr>" for e i
    by (simp add: new_update_def zero_update_def)
  let ?e = "s3_ideal.utag etag ?u"
  have get: "run h (GetUpdate org project stack updateID) w1 =
      (Inr (?u\<lparr>u_Incarnation := st_Incarnation st, u_etag := ?e\<rparr>), w1)"
    using s3_ideal.run_GetUpdate [OF service d1 u1] by (simp add: commute)
  have again: "run h (CreateUpdate org project stack kind updateID) w1 =
      (Inr (?u\<lparr>u_Incarnation := st_Incarnation st, u_etag := ?e\<rparr>), w1)"
    using s3_ideal.run_CreateUpdate_again [OF service d1 lock1(1) lock(2) lock1(2,3) kind u1 lock1(4,5)]
    by (simp add: commute)
  have "objs w1 ?k = Some (Doc (stack_json ?st))" using d1 by (simp add: simps(1))
  with get again show ?thesis
    by (intro exI [of _ "?u\<lparr>u_Incarnation := st_Incarnation st\<rparr>"] exI [of _ ?e]) (simp add: 1(1) new_update_def)
qed

theorem CreateUpdate_once_witness:
  "\<exists>u e w1. run ref_service (CreateUpdate ''o'' ''p'' ''s'' ''update'' ''u1'') (demo_bucket (Some (demo_lock ''u1''))) = (Inr u, w1) \<and>
     u_Version u = 4 \<and> run ref_service (GetUpdate ''o'' ''p'' ''s'' ''u1'') w1 = (Inr (u\<lparr>u_etag := e\<rparr>), w1)"
proof -
  let ?w = "demo_bucket (Some (demo_lock ''u1''))"
  obtain r w1 where run: "run ref_service (CreateUpdate ''o'' ''p'' ''s'' ''update'' ''u1'') ?w = (r, w1)" by fastforce
  have st: "st_Lock (demo_stack (Some (demo_lock ''u1''))) = Some (demo_lock ''u1'')" "l_UpdateID (demo_lock ''u1'') = ''u1''"
    "\<not> Expired (demo_lock ''u1'') (bk_clock ?w)" "time_marshals (bk_clock ?w)" "''update'' \<noteq> ''preview''"
    by (simp_all add: demo_stack_def demo_lock_def Expired_def demo_bucket_def time_marshals_def)
  have new: "ref_objs ?w (updateKey ''o'' ''p'' ''s'' (st_Incarnation (demo_stack (Some (demo_lock ''u1'')))) ''u1'') = None"
    by (simp add: ref_objs_def demo_bucket_def demo_key_def stackKey_def updateKey_def stackDataPrefix_def demo_stack_def)
  have "st_Version (demo_stack (Some (demo_lock ''u1''))) + 1 = 4" by (simp add: demo_stack_def)
  with CreateUpdate_once [OF ref.s3_ideal_axioms demo_ref demo_object demo_storables(2) st new run] run
  show ?thesis by metis
qed

text \<open>
  C22. The life of an update. \<^verbatim>\<open>StartUpdate\<close> and \<^verbatim>\<open>CompleteUpdate\<close> move a record exactly as
  the state machine \<open>start_spec\<close>, \<open>complete_spec\<close> says: from \<^verbatim>\<open>not-started\<close> to \<^verbatim>\<open>in-progress\<close>,
  from there to any final status, and from \<^verbatim>\<open>not-started\<close> only to \<^verbatim>\<open>cancelled\<close>. Repeating the
  step that was made last succeeds without a write; a finished update never changes again, and
  every other attempt is \<^verbatim>\<open>ErrInvalidUpdateState\<close>.
\<close>

theorem update_state_machine:
  assumes service: "s3_ideal h objs store etag pages clock rand reseed nf pf"
    and doc: "objs w (stackKey org project stack) = Some (Doc (stack_json st))" "storable st"
    and upd: "objs w (updateKey org project stack (st_Incarnation st) updateID) = Some (Doc (update_json u))" "clean_update u"
    and start: "run h (StartUpdate org project stack updateID) w = (r, w1)"
    and complete: "run h (CompleteUpdate org project stack updateID status message changes) w = (r', w2)"
  shows "r = map_sum id (\<lambda>_. ()) (start_spec (clock w) u) \<and>
     objs w1 (updateKey org project stack (st_Incarnation st) updateID) =
       Some (Doc (update_json (case start_spec (clock w) u of Inl err \<Rightarrow> u | Inr u' \<Rightarrow> u'))) \<and>
     r' = map_sum id (\<lambda>_. ()) (complete_spec (clock w) u status message changes) \<and>
     objs w2 (updateKey org project stack (st_Incarnation st) updateID) =
       Some (Doc (update_json (case complete_spec (clock w) u status message changes of Inl err \<Rightarrow> u | Inr u' \<Rightarrow> u'))) \<and>
     (u_Status u \<notin> {''not-started'', ''in-progress'', status} \<longrightarrow>
        w1 = w \<and> w2 = w \<and> r = Inl ErrInvalidUpdateState \<and> r' = Inl ErrInvalidUpdateState)"
proof -
  note simps = s3_ideal.put_update_def [OF service] s3_ideal.objs_store [OF service]
  have d: "s3_ideal.has_doc objs w (stackKey org project stack) st"
    using doc by (simp add: s3_ideal.has_doc_def [OF service])
  have h: "s3_ideal.has_update objs w (updateKey org project stack (st_Incarnation st) updateID) u"
    using upd by (simp add: s3_ideal.has_update_def [OF service])
  have 1: "r = map_sum id (\<lambda>_. ()) (start_spec (clock w) u)"
    "w1 = (case start_spec (clock w) u of Inl err \<Rightarrow> w | Inr u' \<Rightarrow> if u_Status u = ''in-progress'' then w
       else s3_ideal.put_update store (updateKey org project stack (st_Incarnation st) updateID) u' w)"
    using start by (auto simp: s3_ideal.run_StartUpdate [OF service d h] split: sum.splits)
  have 2: "r' = map_sum id (\<lambda>_. ()) (complete_spec (clock w) u status message changes)"
    "w2 = (case complete_spec (clock w) u status message changes of Inl err \<Rightarrow> w | Inr u' \<Rightarrow> if u_Status u = status then w
       else s3_ideal.put_update store (updateKey org project stack (st_Incarnation st) updateID) u' w)"
    using complete by (auto simp: s3_ideal.run_CompleteUpdate [OF service d h] split: sum.splits)
  have 3: "objs w1 (updateKey org project stack (st_Incarnation st) updateID) =
       Some (Doc (update_json (case start_spec (clock w) u of Inl err \<Rightarrow> u | Inr u' \<Rightarrow> u')))"
    using upd(1) by (simp add: 1(2) simps start_spec_def)
  have 4: "objs w2 (updateKey org project stack (st_Incarnation st) updateID) =
       Some (Doc (update_json (case complete_spec (clock w) u status message changes of Inl err \<Rightarrow> u | Inr u' \<Rightarrow> u')))"
    using upd(1) by (simp add: 2(2) simps complete_spec_def)
  have 5: "w1 = w \<and> w2 = w \<and> r = Inl ErrInvalidUpdateState \<and> r' = Inl ErrInvalidUpdateState"
    if "u_Status u \<notin> {''not-started'', ''in-progress'', status}"
    using that by (simp add: 1 2 start_spec_def complete_spec_def)
  show ?thesis using 1(1) 2(1) 3 4 5 by simp
qed

theorem update_state_machine_witness:
  "\<exists>w1. run ref_service (StartUpdate ''o'' ''p'' ''s'' ''u1'')
      (ref_store (updateKey ''o'' ''p'' ''s'' ''i'' ''u1'') (Some (Doc (update_json (new_update 0 ''update'' ''u1'' 4)))) (demo_bucket None)) =
     (Inr (), w1)"
proof -
  let ?u = "new_update 0 ''update'' ''u1'' 4"
  let ?w = "ref_store (updateKey ''o'' ''p'' ''s'' ''i'' ''u1'') (Some (Doc (update_json ?u))) (demo_bucket None)"
  obtain r w1 r' w2 where runs: "run ref_service (StartUpdate ''o'' ''p'' ''s'' ''u1'') ?w = (r, w1)"
    "run ref_service (CompleteUpdate ''o'' ''p'' ''s'' ''u1'' ''succeeded'' '''' []) ?w = (r', w2)"
    by (metis surj_pair)
  have doc: "ref_objs ?w (stackKey ''o'' ''p'' ''s'') = Some (Doc (stack_json (demo_stack None)))"
    using demo_object [of None] stackKey_not_object(5) [OF demo_ref demo_ref] by (simp add: ref_objs_store)
  have upd: "ref_objs ?w (updateKey ''o'' ''p'' ''s'' (st_Incarnation (demo_stack None)) ''u1'') = Some (Doc (update_json ?u))"
    by (simp add: ref_objs_store demo_stack_def)
  have "start_spec t ?u = Inr (?u\<lparr>u_Status := ''in-progress'', u_StartTime := word_of_int (unix t)\<rparr>)" for t
    by (simp add: start_spec_def new_update_def)
  with update_state_machine [OF ref.s3_ideal_axioms doc demo_storables(1) upd clean_new_update runs] runs
  show ?thesis by simp
qed

text \<open>
  C24. Creating a stack. \<^verbatim>\<open>CreateStack\<close> of a stack that does not exist returns it, and
  \<^verbatim>\<open>GetStack\<close> then returns the same document with its ETag; creating it again is
  \<^verbatim>\<open>ErrStackExists\<close> and changes no object. No other object is touched.
\<close>

theorem CreateStack_once:
  assumes service: "s3_ideal h objs store etag pages clock rand reseed nf pf"
    and time: "time_marshals (clock w)" and new: "objs w (stackKey org project stack) = None"
    and run: "run h (CreateStack org project stack) w = (r, w1)"
    and again: "run h (CreateStack org project stack) w1 = (r', w2)"
  shows "\<exists>st e. r = Inr st \<and> fresh_doc st \<and> st_Org st = org \<and> st_Project st = project \<and> st_Name st = stack \<and>
     run h (GetStack org project stack) w1 = (Inr (st\<lparr>st_etag := e\<rparr>), w1) \<and>
     (\<forall>k. k \<noteq> stackKey org project stack \<longrightarrow> objs w1 k = objs w k) \<and>
     r' = Inl ErrStackExists \<and> objs w2 = objs w1"
proof -
  let ?k = "stackKey org project stack"
  let ?st = "fresh_stack org project stack (clock w) (hex (rand 16 w))"
  note simps = s3_ideal.put_doc_simps [OF service] s3_ideal.objs_reseed [OF service] s3_ideal.clock_reseed [OF service]
  have 1: "r = Inr ?st" "w1 = s3_ideal.put_doc store ?k ?st (reseed 16 w)"
    using run new by (simp_all add: s3_ideal.run_CreateStack [OF service time])
  have "s3_ideal.has_doc objs w1 ?k ?st"
    using storable_fresh [OF time] by (simp add: 1(2) s3_ideal.has_doc_put [OF service])
  note get = s3_ideal.run_GetStack [OF service this]
  have time1: "time_marshals (clock w1)" using time by (simp add: 1(2) simps)
  have 2: "r' = Inl ErrStackExists \<and> objs w2 = objs w1"
    using again unfolding s3_ideal.run_CreateStack [OF service time1] by (auto simp: 1(2) simps)
  have "length (hex (rand 16 w)) = 32" using s3_ideal.rand_length [OF service] by (simp add: hex_length)
  then have "fresh_doc ?st" by (auto simp: fresh_doc_def fresh_stack_def zero_stack_def)
  with get 2 show ?thesis
    by (intro exI [of _ ?st] exI [of _ "s3_ideal.tag etag ?st"]) (simp add: 1 simps fresh_stack_def)
qed

definition empty_bucket :: bucket where
  "empty_bucket = \<lparr>bk_objects = [], bk_clock = 50 * second, bk_seed = 0\<rparr>"

theorem CreateStack_once_witness:
  "\<exists>st w1 w2. run ref_service (CreateStack ''o'' ''p'' ''s'') empty_bucket = (Inr st, w1) \<and> st_Name st = ''s'' \<and>
     run ref_service (CreateStack ''o'' ''p'' ''s'') w1 = (Inl ErrStackExists, w2)"
proof -
  obtain r w1 r' w2 where runs: "run ref_service (CreateStack ''o'' ''p'' ''s'') empty_bucket = (r, w1)"
    "run ref_service (CreateStack ''o'' ''p'' ''s'') w1 = (r', w2)" by (metis surj_pair)
  have "time_marshals (bk_clock empty_bucket)" "ref_objs empty_bucket (stackKey ''o'' ''p'' ''s'') = None"
    by (simp_all add: empty_bucket_def time_marshals_def ref_objs_def)
  from CreateStack_once [OF ref.s3_ideal_axioms this runs] runs show ?thesis by auto
qed

lemma belongs_prefix: "belongs org project stack incarnation k \<Longrightarrow> HasPrefix k (stackPrefix org project stack)"
  by (auto simp: belongs_def stackDataPrefix_def HasPrefix_iff_prefix dest: append_prefixD split: if_splits)

text \<open>
  C23. Deleting a stack. Under a live deletion fence of its own, \<^verbatim>\<open>DeleteStack\<close> succeeds and
  removes the document and exactly the objects of the deleted incarnation (the bulk deletion
  in batches of a thousand leaves none); every object of any other stack is left as it was.
\<close>

theorem DeleteStack_exact:
  assumes service: "s3_ideal h objs store etag pages clock rand reseed nf pf"
    and ok: "ref_ok org project stack"
    and doc: "objs w (stackKey org project stack) = Some (Doc (stack_json st))" "storable st"
    and ref: "st_Org st = org" "st_Project st = project" "st_Name st = stack" "st_Incarnation st = incarnation"
    and lock: "st_Lock st = Some l" "l_UpdateID l = u" "l_Generation l = g" "\<not> Expired l (clock w)" "HasPrefix u ''delete-''"
    and run: "run h (DeleteStack org project stack incarnation u g) w = (r, w')"
  shows "r = Inr () \<and> (\<forall>k. objs w' k =
       (if k = stackKey org project stack \<or> belongs org project stack incarnation k then None else objs w k)) \<and>
     (\<forall>org' project' stack' x. ref_ok org' project' stack' \<and> (org', project', stack') \<noteq> (org, project, stack) \<longrightarrow>
        objs w' (stackPrefix org' project' stack' @ x) = objs w (stackPrefix org' project' stack' @ x))"
proof -
  have d: "s3_ideal.has_doc objs w (stackKey org project stack) st"
    using doc by (simp add: s3_ideal.has_doc_def [OF service])
  have live: "live_gen {clock w} (st_Lock st) u g" using lock by simp
  have w': "r = Inr ()" "objs w' = (\<lambda>k. if k = stackKey org project stack \<or> belongs org project stack incarnation k
      then None else objs w k)"
    using s3_ideal.run_DeleteStack [OF service ok d ref live lock(5)] run by auto
  have "k \<noteq> stackKey org project stack \<and> \<not> belongs org project stack incarnation k"
    if "ref_ok org' project' stack'" "(org', project', stack') \<noteq> (org, project, stack)"
      "k = stackPrefix org' project' stack' @ x" for org' project' stack' x k
  proof -
    have "HasPrefix k' (stackPrefix org project stack)"
      if "k' = stackKey org project stack \<or> belongs org project stack incarnation k'" for k'
      using that belongs_prefix by (auto simp: stackKey_def HasPrefix_append)
    moreover have "\<not> HasPrefix k (stackPrefix org project stack)"
      using HasPrefix_stackPrefix [OF that(1) ok, of x] that(2,3) by auto
    ultimately show ?thesis by metis
  qed
  then have "objs w' (stackPrefix org' project' stack' @ x) = objs w (stackPrefix org' project' stack' @ x)"
    if "ref_ok org' project' stack'" "(org', project', stack') \<noteq> (org, project, stack)" for org' project' stack' x
    unfolding w'(2) using that by simp
  then show ?thesis using w' by simp
qed

theorem DeleteStack_exact_witness:
  "\<exists>w'. run ref_service (DeleteStack ''o'' ''p'' ''s'' ''i'' ''delete-1'' 1) (demo_bucket (Some (demo_lock ''delete-1''))) = (Inr (), w') \<and>
     ref_objs w' (stackKey ''o'' ''p'' ''s'') = None"
proof -
  let ?w = "demo_bucket (Some (demo_lock ''delete-1''))" and ?st = "demo_stack (Some (demo_lock ''delete-1''))"
  obtain r w' where run: "run ref_service (DeleteStack ''o'' ''p'' ''s'' ''i'' ''delete-1'' 1) ?w = (r, w')" by fastforce
  have st: "st_Org ?st = ''o''" "st_Project ?st = ''p''" "st_Name ?st = ''s''" "st_Incarnation ?st = ''i''"
    "st_Lock ?st = Some (demo_lock ''delete-1'')" "l_UpdateID (demo_lock ''delete-1'') = ''delete-1''"
    "l_Generation (demo_lock ''delete-1'') = 1" "\<not> Expired (demo_lock ''delete-1'') (bk_clock ?w)"
    "HasPrefix ''delete-1'' ''delete-''"
    by (simp_all add: demo_stack_def demo_lock_def Expired_def demo_bucket_def HasPrefix_def)
  from DeleteStack_exact [OF ref.s3_ideal_axioms demo_ref demo_object demo_storables(2) st run] run
  show ?thesis by simp
qed

text \<open>
  C25. Listing. When every document below the listed prefix can be read, \<^verbatim>\<open>ListStacks\<close> returns
  the documents of exactly the keys that end in \<^verbatim>\<open>/stack.json\<close>, each once, in the order of
  project and name, however the listing is split into pages; it changes nothing.
\<close>

theorem ListStacks_exact:
  assumes service: "s3_ideal h objs store etag pages clock rand reseed nf pf"
    and readable: "\<forall>k b. objs w k = Some b \<and> HasPrefix k (if org = '''' then '''' else org @ ''/'') \<and>
       HasSuffix k ''/stack.json'' \<longrightarrow> storable (docs k) \<and> b = Doc (stack_json (docs k))"
    and run: "run h (ListStacks org) w = (r, w')"
  shows "\<exists>stacks ks. r = Inr stacks \<and> w' = w \<and> sorted (map (\<lambda>st. st_Project st @ ''/'' @ st_Name st) stacks) \<and>
     mset stacks = mset (map docs ks) \<and> distinct ks \<and>
     set ks = {k. objs w k \<noteq> None \<and> HasPrefix k (if org = '''' then '''' else org @ ''/'') \<and> HasSuffix k ''/stack.json''}"
proof -
  have docs: "s3_ideal.has_doc objs w k (docs k)"
    if "objs w k \<noteq> None" "HasPrefix k (if org = '''' then '''' else org @ ''/'')" "HasSuffix k ''/stack.json''" for k
    using that readable by (auto simp: s3_ideal.has_doc_def [OF service])
  have "\<exists>stacks ks. run h (ListStacks org) w = (Inr stacks, w) \<and> sorted (map stack_sort_name stacks) \<and>
     mset stacks = mset (map docs ks) \<and> distinct ks \<and>
     set ks = {k. objs w k \<noteq> None \<and> HasPrefix k (if org = [] then [] else org @ ''/'') \<and> HasSuffix k ''/stack.json''}"
    by (rule s3_ideal.run_ListStacks [OF service docs])
  moreover have "stack_sort_name = (\<lambda>st. st_Project st @ ''/'' @ st_Name st)"
    by (simp add: fun_eq_iff stack_sort_name_def)
  ultimately show ?thesis using run by auto
qed

theorem ListStacks_exact_witness:
  "\<exists>stacks. run ref_service (ListStacks ''o'') (demo_bucket None) = (Inr stacks, demo_bucket None)"
proof -
  obtain r w' where run: "run ref_service (ListStacks ''o'') (demo_bucket None) = (r, w')" by fastforce
  have "\<forall>k b. ref_objs (demo_bucket None) k = Some b \<and> HasPrefix k (if ''o'' = '''' then '''' else ''o'' @ ''/'') \<and>
      HasSuffix k ''/stack.json'' \<longrightarrow> storable (demo_stack None) \<and> b = Doc (stack_json (demo_stack None))"
    by (auto simp: ref_objs_def demo_bucket_def split: if_splits)
  from ListStacks_exact [OF ref.s3_ideal_axioms this run] run show ?thesis by auto
qed

end
