(* ===== verification/Authz.thy ===== *)
theory Authz
  imports Prelude
begin

text \<open>
  Package \<^verbatim>\<open>internal/authz\<close>: the group-based access rules. An \<^verbatim>\<open>Action\<close> is a Go string
  type, so any string is a value of it; the four named constants are the ones the routes use.
\<close>

section \<open>Data\<close>

type_synonym action = string

definition Read :: action where "Read = ''read''"
definition Write :: action where "Write = ''write''"
definition Delete :: action where "Delete = ''delete''"
definition Secrets :: action where "Secrets = ''secrets''"

lemmas action_defs = Read_def Write_def Delete_def Secrets_def

record rule =
  Groups :: "string list"
  Organizations :: "string list"
  Projects :: "string list"
  Stacks :: "string list"
  Actions :: "action list"

record authorizer =
  rules :: "rule list"

definition New :: "rule list \<Rightarrow> authorizer" where
  "New rs = \<lparr>rules = rs\<rparr>"

section \<open>Matching\<close>

fun intersects :: "string list \<Rightarrow> string list \<Rightarrow> bool" where
  "intersects [] b = False"
| "intersects (left # a) b = (if left \<in> set b then True else intersects a b)"

fun matchesAction :: "action list \<Rightarrow> action \<Rightarrow> bool" where
  "matchesAction [] want = False"
| "matchesAction (action # actions) want =
     (if action = ''*'' \<or> action = want then True else matchesAction actions want)"

fun matchesScope_loop :: "string list \<Rightarrow> string \<Rightarrow> bool" where
  "matchesScope_loop [] want = False"
| "matchesScope_loop (v # vs) want =
     (if v = ''*'' \<or> v = want then True else matchesScope_loop vs want)"

definition matchesScope :: "string list \<Rightarrow> string \<Rightarrow> bool" where
  "matchesScope vs want = (if want = '''' then False else matchesScope_loop vs want)"

section \<open>Decisions\<close>

fun Allows_loop :: "rule list \<Rightarrow> string list \<Rightarrow> action \<Rightarrow> string \<Rightarrow> string \<Rightarrow> string \<Rightarrow> bool" where
  "Allows_loop [] groups action org project stack = False"
| "Allows_loop (rule # rs) groups action org project stack =
     (if intersects groups (Groups rule) \<and> matchesAction (Actions rule) action
         \<and> matchesScope (Organizations rule) org \<and> matchesScope (Projects rule) project
         \<and> matchesScope (Stacks rule) stack
      then True else Allows_loop rs groups action org project stack)"

definition Allows ::
  "authorizer \<Rightarrow> string list \<Rightarrow> action \<Rightarrow> string \<Rightarrow> string \<Rightarrow> string \<Rightarrow> bool" where
  "Allows a groups action org project stack =
     Allows_loop (rules a) groups action org project stack"

fun AllowsProject_loop :: "rule list \<Rightarrow> string list \<Rightarrow> action \<Rightarrow> string \<Rightarrow> string \<Rightarrow> bool" where
  "AllowsProject_loop [] groups action org project = False"
| "AllowsProject_loop (rule # rs) groups action org project =
     (if intersects groups (Groups rule) \<and> matchesAction (Actions rule) action
         \<and> matchesScope (Organizations rule) org \<and> matchesScope (Projects rule) project
      then True else AllowsProject_loop rs groups action org project)"

definition AllowsProject :: "authorizer \<Rightarrow> string list \<Rightarrow> action \<Rightarrow> string \<Rightarrow> string \<Rightarrow> bool" where
  "AllowsProject a groups action org project =
     AllowsProject_loop (rules a) groups action org project"

fun HasAnyGrant_loop :: "rule list \<Rightarrow> string list \<Rightarrow> bool" where
  "HasAnyGrant_loop [] groups = False"
| "HasAnyGrant_loop (rule # rs) groups =
     (if intersects groups (Groups rule) then True else HasAnyGrant_loop rs groups)"

definition HasAnyGrant :: "authorizer \<Rightarrow> string list \<Rightarrow> bool" where
  "HasAnyGrant a groups = HasAnyGrant_loop (rules a) groups"

section \<open>Validation of configured rules\<close>

text \<open>
  The error texts are represented by their kind, the rule's index and the field or the
  offending action that they name.
\<close>

datatype rule_error =
    NoRules
  | FieldRequired nat string
  | FieldEmptyValue nat string
  | GroupWildcard nat string
  | ActionsRequired nat
  | UnsupportedAction nat action

fun validateStrings_loop :: "string list \<Rightarrow> string \<Rightarrow> nat \<Rightarrow> bool \<Rightarrow> rule_error option" where
  "validateStrings_loop [] field rule allowWildcard = None"
| "validateStrings_loop (v # vs) field rule allowWildcard =
     (if v = '''' then Some (FieldEmptyValue rule field)
      else if v = ''*'' \<and> \<not> allowWildcard then Some (GroupWildcard rule field)
      else validateStrings_loop vs field rule allowWildcard)"

definition validateStrings :: "string list \<Rightarrow> string \<Rightarrow> nat \<Rightarrow> bool \<Rightarrow> rule_error option" where
  "validateStrings vs field rule allowWildcard =
     (if vs = [] then Some (FieldRequired rule field)
      else validateStrings_loop vs field rule allowWildcard)"

fun validateActions_loop :: "action list \<Rightarrow> nat \<Rightarrow> rule_error option" where
  "validateActions_loop [] i = None"
| "validateActions_loop (a # as) i =
     (if a \<noteq> ''*'' \<and> a \<noteq> Read \<and> a \<noteq> Write \<and> a \<noteq> Delete \<and> a \<noteq> Secrets
      then Some (UnsupportedAction i a) else validateActions_loop as i)"

text \<open>
  The three scope fields are visited by ranging over a Go map, whose order is unspecified:
  the visiting order is the argument \<open>order\<close>, a list of the three field names.
\<close>

definition scope_field :: "rule \<Rightarrow> string \<Rightarrow> string list" where
  "scope_field rule field =
     (if field = ''organizations'' then Organizations rule
      else if field = ''projects'' then Projects rule else Stacks rule)"

fun validateScopes_loop :: "string list \<Rightarrow> rule \<Rightarrow> nat \<Rightarrow> rule_error option" where
  "validateScopes_loop [] rule i = None"
| "validateScopes_loop (field # fs) rule i =
     (case validateStrings (scope_field rule field) field i True of
        Some e \<Rightarrow> Some e
      | None \<Rightarrow> validateScopes_loop fs rule i)"

fun ValidateRules_loop :: "(nat \<Rightarrow> string list) \<Rightarrow> nat \<Rightarrow> rule list \<Rightarrow> rule_error option" where
  "ValidateRules_loop order i [] = None"
| "ValidateRules_loop order i (rule # rs) =
     (case validateStrings (Groups rule) ''groups'' i False of
        Some e \<Rightarrow> Some e
      | None \<Rightarrow>
        (case validateScopes_loop (order i) rule i of
           Some e \<Rightarrow> Some e
         | None \<Rightarrow>
           if Actions rule = [] then Some (ActionsRequired i)
           else case validateActions_loop (Actions rule) i of
                  Some e \<Rightarrow> Some e
                | None \<Rightarrow> ValidateRules_loop order (Suc i) rs))"

definition ValidateRules :: "(nat \<Rightarrow> string list) \<Rightarrow> rule list \<Rightarrow> rule_error option" where
  "ValidateRules order rs = (if rs = [] then Some NoRules else ValidateRules_loop order 0 rs)"

text \<open>A visiting order of the map literal: its three keys, each exactly once.\<close>

definition scope_order :: "string list \<Rightarrow> bool" where
  "scope_order fs \<longleftrightarrow>
     distinct fs \<and> set fs = {''organizations'', ''projects'', ''stacks''}"

section \<open>What the loops compute\<close>

lemma intersects_iff: "intersects a b \<longleftrightarrow> set a \<inter> set b \<noteq> {}"
  by (induction a) auto

lemma matchesAction_iff: "matchesAction as want \<longleftrightarrow> ''*'' \<in> set as \<or> want \<in> set as"
  by (induction as) auto

lemma matchesScope_loop_iff: "matchesScope_loop vs want \<longleftrightarrow> ''*'' \<in> set vs \<or> want \<in> set vs"
  by (induction vs) auto

lemma matchesScope_iff:
  "matchesScope vs want \<longleftrightarrow> want \<noteq> '''' \<and> (''*'' \<in> set vs \<or> want \<in> set vs)"
  by (simp add: matchesScope_def matchesScope_loop_iff)

lemmas match_iffs = intersects_iff matchesAction_iff matchesScope_iff

text \<open>When one rule grants an action on a stack.\<close>

definition grants :: "rule \<Rightarrow> string list \<Rightarrow> action \<Rightarrow> string \<Rightarrow> string \<Rightarrow> string \<Rightarrow> bool" where
  "grants rule groups action org project stack \<longleftrightarrow>
     (\<exists>g \<in> set groups. g \<in> set (Groups rule)) \<and>
     (''*'' \<in> set (Actions rule) \<or> action \<in> set (Actions rule)) \<and>
     org \<noteq> '''' \<and> (''*'' \<in> set (Organizations rule) \<or> org \<in> set (Organizations rule)) \<and>
     project \<noteq> '''' \<and> (''*'' \<in> set (Projects rule) \<or> project \<in> set (Projects rule)) \<and>
     stack \<noteq> '''' \<and> (''*'' \<in> set (Stacks rule) \<or> stack \<in> set (Stacks rule))"

lemma grants_matches:
  "grants rule groups action org project stack \<longleftrightarrow>
     intersects groups (Groups rule) \<and> matchesAction (Actions rule) action
     \<and> matchesScope (Organizations rule) org \<and> matchesScope (Projects rule) project
     \<and> matchesScope (Stacks rule) stack"
  unfolding grants_def match_iffs disjoint_iff by blast

lemma Allows_loop_iff:
  "Allows_loop rs groups action org project stack \<longleftrightarrow>
     (\<exists>rule \<in> set rs. grants rule groups action org project stack)"
proof (induction rs)
  case (Cons rule rs)
  then show ?case
    by (cases "grants rule groups action org project stack") (auto simp: grants_matches)
qed simp

lemma Allows_iff:
  "Allows a groups action org project stack \<longleftrightarrow>
     (\<exists>rule \<in> set (rules a). grants rule groups action org project stack)"
  by (simp add: Allows_def Allows_loop_iff)

lemma AllowsProject_iff:
  "AllowsProject a groups action org project \<longleftrightarrow>
     (\<exists>rule \<in> set (rules a). intersects groups (Groups rule) \<and> matchesAction (Actions rule) action
        \<and> matchesScope (Organizations rule) org \<and> matchesScope (Projects rule) project)"
proof -
  have "AllowsProject_loop rs groups action org project \<longleftrightarrow>
     (\<exists>rule \<in> set rs. intersects groups (Groups rule) \<and> matchesAction (Actions rule) action
        \<and> matchesScope (Organizations rule) org \<and> matchesScope (Projects rule) project)" for rs
    by (induction rs) auto
  then show ?thesis by (simp add: AllowsProject_def)
qed

lemma HasAnyGrant_iff:
  "HasAnyGrant a groups \<longleftrightarrow> (\<exists>rule \<in> set (rules a). \<exists>g \<in> set groups. g \<in> set (Groups rule))"
proof -
  have "HasAnyGrant_loop rs groups \<longleftrightarrow> (\<exists>rule \<in> set rs. intersects groups (Groups rule))" for rs
    by (induction rs) auto
  then show ?thesis by (auto simp: HasAnyGrant_def intersects_iff)
qed

lemma Allows_AllowsProject:
  "Allows a groups action org project stack \<Longrightarrow> AllowsProject a groups action org project"
  unfolding Allows_iff AllowsProject_iff grants_matches by blast

lemma Allows_HasAnyGrant: "Allows a groups action org project stack \<Longrightarrow> HasAnyGrant a groups"
  by (auto simp: Allows_iff HasAnyGrant_iff grants_def)

lemma validateStrings_None_iff:
  "validateStrings vs field i w = None \<longleftrightarrow>
     vs \<noteq> [] \<and> '''' \<notin> set vs \<and> (w \<or> ''*'' \<notin> set vs)"
proof -
  have "validateStrings_loop vs field i w = None \<longleftrightarrow> '''' \<notin> set vs \<and> (w \<or> ''*'' \<notin> set vs)" for vs
    by (induction vs) auto
  then show ?thesis by (simp add: validateStrings_def)
qed

lemma validateActions_None_iff:
  "validateActions_loop as i = None \<longleftrightarrow> set as \<subseteq> {''*'', Read, Write, Delete, Secrets}"
  by (induction as) auto

text \<open>A rule that passes validation.\<close>

definition valid_rule :: "rule \<Rightarrow> bool" where
  "valid_rule rule \<longleftrightarrow>
     Groups rule \<noteq> [] \<and> '''' \<notin> set (Groups rule) \<and> ''*'' \<notin> set (Groups rule) \<and>
     Organizations rule \<noteq> [] \<and> '''' \<notin> set (Organizations rule) \<and>
     Projects rule \<noteq> [] \<and> '''' \<notin> set (Projects rule) \<and>
     Stacks rule \<noteq> [] \<and> '''' \<notin> set (Stacks rule) \<and>
     Actions rule \<noteq> [] \<and> set (Actions rule) \<subseteq> {''*'', Read, Write, Delete, Secrets}"

lemma validateScopes_None_iff:
  "validateScopes_loop fs rule i = None \<longleftrightarrow>
     (\<forall>f \<in> set fs. scope_field rule f \<noteq> [] \<and> '''' \<notin> set (scope_field rule f))"
proof (induction fs)
  case (Cons f fs)
  then show ?case
    using validateStrings_None_iff [of "scope_field rule f" f i True]
    by (cases "validateStrings (scope_field rule f) f i True") auto
qed simp

lemma ValidateRules_step:
  "ValidateRules_loop order i (rule # rs) = None \<longleftrightarrow>
     validateStrings (Groups rule) ''groups'' i False = None \<and>
     validateScopes_loop (order i) rule i = None \<and> Actions rule \<noteq> [] \<and>
     validateActions_loop (Actions rule) i = None \<and> ValidateRules_loop order (Suc i) rs = None"
  by (simp split: option.split)

lemma ValidateRules_loop_None_iff:
  assumes "\<And>i. scope_order (order i)"
  shows "ValidateRules_loop order i rs = None \<longleftrightarrow> (\<forall>rule \<in> set rs. valid_rule rule)"
proof (induction rs arbitrary: i)
  case Nil
  show ?case by simp
next
  case (Cons rule rs)
  have "validateScopes_loop (order i) rule i = None \<longleftrightarrow>
     (\<forall>f \<in> {''organizations'', ''projects'', ''stacks''}.
        scope_field rule f \<noteq> [] \<and> '''' \<notin> set (scope_field rule f))"
    using assms [of i] by (simp only: validateScopes_None_iff scope_order_def)
  then show ?case
    using Cons.IH [of "Suc i"]
    by (simp only: ValidateRules_step validateStrings_None_iff validateActions_None_iff
        valid_rule_def list.set ball_simps)
      (simp add: scope_field_def conj_ac)
qed

section \<open>Properties\<close>

text \<open>
  C28. The decision is default-deny and independent of rule order: an action is allowed
  exactly when some configured rule names one of the caller's groups, lists the action (or the
  wildcard) and matches each of the three non-empty scope segments exactly or by a full
  wildcard. A decision for a stack implies the decisions for its project and for any grant.
\<close>

theorem authz_decision:
  "(Allows (New rs) groups action org project stack \<longleftrightarrow>
      (\<exists>rule \<in> set rs. grants rule groups action org project stack)) \<and>
   (Allows (New rs) groups action org project stack \<longrightarrow>
      AllowsProject (New rs) groups action org project \<and> HasAnyGrant (New rs) groups)"
  using Allows_AllowsProject Allows_HasAnyGrant by (auto simp: Allows_iff New_def)

text \<open>Witness: a reader of every stack of one organization.\<close>

definition sample_rule :: rule where
  "sample_rule = \<lparr>Groups = [''dev''], Organizations = [''acme''], Projects = [''*''],
     Stacks = [''*''], Actions = [Read]\<rparr>"

theorem authz_decision_witness:
  "Allows (New [sample_rule]) [''ops'', ''dev''] Read ''acme'' ''web'' ''prod'' \<and>
   AllowsProject (New [sample_rule]) [''ops'', ''dev''] Read ''acme'' ''web'' \<and>
   HasAnyGrant (New [sample_rule]) [''ops'', ''dev'']"
proof -
  have "Allows (New [sample_rule]) [''ops'', ''dev''] Read ''acme'' ''web'' ''prod''"
    by (simp add: Allows_def New_def sample_rule_def matchesScope_def)
  with authz_decision [of "[sample_rule]" "[''ops'', ''dev'']" Read "''acme''" "''web''" "''prod''"]
  show ?thesis by blast
qed

text \<open>
  C29. Validation at start-up accepts a rule list, whatever order Go's map iteration takes,
  exactly when it is non-empty and every rule is complete: groups, scopes and actions are
  non-empty lists without empty strings, groups are explicit (never the wildcard) and actions
  are the wildcard or one of the four known ones.
\<close>

theorem ValidateRules_accepts_iff:
  assumes "\<And>i. scope_order (order i)"
  shows "ValidateRules order rs = None \<longleftrightarrow> rs \<noteq> [] \<and> (\<forall>rule \<in> set rs. valid_rule rule)"
  by (simp add: ValidateRules_def ValidateRules_loop_None_iff [OF assms])

theorem ValidateRules_accepts_iff_witness:
  "ValidateRules (\<lambda>_. [''stacks'', ''organizations'', ''projects'']) [sample_rule] = None \<and>
   ValidateRules (\<lambda>_. [''stacks'', ''organizations'', ''projects''])
     [sample_rule, sample_rule\<lparr>Groups := [''*'']\<rparr>] \<noteq> None"
proof -
  have order: "\<And>i :: nat. scope_order ((\<lambda>_. [''stacks'', ''organizations'', ''projects'']) i)"
    by (auto simp: scope_order_def)
  show ?thesis
    unfolding ValidateRules_accepts_iff [OF order]
    by (simp add: valid_rule_def sample_rule_def)
qed

end
