(* ===== verification/Net.thy ===== *)
theory Net
  imports Prelude
begin

text \<open>
  The functions of packages \<^verbatim>\<open>net\<close> and \<^verbatim>\<open>net/netip\<close> behind \<^verbatim>\<open>isLoopbackListen\<close> in
  \<^verbatim>\<open>internal/config/config.go\<close>: \<^verbatim>\<open>net.SplitHostPort\<close>, \<^verbatim>\<open>net.ParseIP\<close> and
  \<^verbatim>\<open>IP.IsLoopback\<close>. Errors are \<open>None\<close>: the caller looks at their presence only. An
  address is the list of its sixteen bytes. The lemmas say which texts are read: a host and a port, and the
  dotted form of IPv4 addresses.
\<close>

section \<open>Host and port\<close>

text \<open>\<^verbatim>\<open>IndexByteString\<close> and \<^verbatim>\<open>LastIndexByteString\<close>, with \<open>None\<close> for -1.\<close>

fun index_byte :: "char \<Rightarrow> string \<Rightarrow> nat option" where
  "index_byte c [] = None"
| "index_byte c (x # s) = (if x = c then Some 0 else map_option Suc (index_byte c s))"

definition last_index_byte :: "char \<Rightarrow> string \<Rightarrow> nat option" where
  "last_index_byte c s = map_option (\<lambda>i. length s - Suc i) (index_byte c (rev s))"

text \<open>The host part of \<^verbatim>\<open>net.SplitHostPort\<close>; the port is not used.\<close>

definition SplitHostPort :: "string \<Rightarrow> string option" where
  "SplitHostPort hostport = (case last_index_byte CHR '':'' hostport of
      None \<Rightarrow> None
    | Some i \<Rightarrow>
        if hd hostport = CHR ''['' then
          (case index_byte CHR '']'' hostport of
             None \<Rightarrow> None
           | Some e \<Rightarrow>
               if e + 1 = length hostport \<or> e + 1 \<noteq> i then None
               else if CHR ''['' \<in> set (drop 1 hostport) \<or> CHR '']'' \<in> set (drop (e + 1) hostport) then None
               else Some (take (e - 1) (drop 1 hostport)))
        else
          let host = take i hostport
          in if CHR '':'' \<in> set host \<or> CHR ''['' \<in> set hostport \<or> CHR '']'' \<in> set hostport then None
             else Some host)"

section \<open>Addresses\<close>

text \<open>\<^verbatim>\<open>parseIPv4Fields\<close>: the loop over the characters, with the fields that are complete.\<close>

fun parseIPv4_loop :: "string \<Rightarrow> nat list \<Rightarrow> nat \<Rightarrow> nat \<Rightarrow> nat list option" where
  "parseIPv4_loop [] fields val digLen =
     (if length fields < 3 then None else Some (fields @ [val]))"
| "parseIPv4_loop (c # s) fields val digLen =
     (if is_digit c then
        (if digLen = 1 \<and> val = 0 then None
         else if val * 10 + digit_val c > 255 then None
         else parseIPv4_loop s fields (val * 10 + digit_val c) (Suc digLen))
      else if c = CHR ''.'' then
        (if digLen = 0 \<or> s = [] then None
         else if length fields = 3 then None
         else parseIPv4_loop s (fields @ [val]) 0 0)
      else None)"

definition parseIPv4Fields :: "string \<Rightarrow> nat list option" where
  "parseIPv4Fields s = parseIPv4_loop s [] 0 0"

definition hex_val :: "char \<Rightarrow> nat option" where
  "hex_val c = (let n = of_char c :: nat in
     if 48 \<le> n \<and> n \<le> 57 then Some (n - 48)
     else if 97 \<le> n \<and> n \<le> 102 then Some (n - 87)
     else if 65 \<le> n \<and> n \<le> 70 then Some (n - 55)
     else None)"

definition is_hex :: "char \<Rightarrow> bool" where
  "is_hex c \<longleftrightarrow> hex_val c \<noteq> None"

text \<open>The number a run of hexadecimal digits denotes.\<close>

definition hex_number :: "string \<Rightarrow> nat" where
  "hex_number s = foldl (\<lambda>n c. 16 * n + (case hex_val c of None \<Rightarrow> 0 | Some d \<Rightarrow> d)) 0 s"

text \<open>
  The loop of \<^verbatim>\<open>parseIPv6\<close>. \<open>bytes\<close> are the bytes stored so far, \<open>ellipsis\<close> the position of
  the double colon, if it was seen. The result is these two when the text is used up; at
  most eight rounds store two bytes each. A group has at most four digits, so its value
  always fits into 16 bits.
\<close>

fun parseIPv6_loop :: "nat \<Rightarrow> string \<Rightarrow> nat list \<Rightarrow> nat option \<Rightarrow> (nat list \<times> nat option) option" where
  "parseIPv6_loop 0 s bytes ellipsis = (if s = [] then Some (bytes, ellipsis) else None)"
| "parseIPv6_loop (Suc n) s bytes ellipsis =
     (let digits = takeWhile is_hex s; rest = dropWhile is_hex s
      in if length digits > 4 \<or> digits = [] then None
         else if rest \<noteq> [] \<and> hd rest = CHR ''.'' then
           (if ellipsis = None \<and> length bytes \<noteq> 12 then None
            else if length bytes + 4 > 16 then None
            else case parseIPv4Fields s of
              None \<Rightarrow> None
            | Some fields \<Rightarrow> Some (bytes @ fields, ellipsis))
         else
           let bytes' = bytes @ [hex_number digits div 256, hex_number digits mod 256]
           in if rest = [] then Some (bytes', ellipsis)
              else if hd rest \<noteq> CHR '':'' then None
              else if tl rest = [] then None
              else if hd (tl rest) = CHR '':'' then
                (if ellipsis \<noteq> None then None
                 else if tl (tl rest) = [] then Some (bytes', Some (length bytes'))
                 else parseIPv6_loop n (tl (tl rest)) bytes' (Some (length bytes')))
              else parseIPv6_loop n (tl rest) bytes' ellipsis)"

text \<open>An address text with a zone is refused by \<^verbatim>\<open>net.ParseIP\<close> whether or not it is valid.\<close>

definition parseIPv6 :: "string \<Rightarrow> nat list option" where
  "parseIPv6 s =
     (if CHR ''%'' \<in> set s then None
      else
        let leading = HasPrefix s ''::''; s' = (if leading then drop 2 s else s)
        in if leading \<and> s' = [] then Some (replicate 16 0)
           else case parseIPv6_loop 8 s' [] (if leading then Some 0 else None) of
             None \<Rightarrow> None
           | Some (bytes, ellipsis) \<Rightarrow>
               if length bytes < 16 then
                 (case ellipsis of
                    None \<Rightarrow> None
                  | Some e \<Rightarrow> Some (take e bytes @ replicate (16 - length bytes) 0 @ drop e bytes))
               else if ellipsis \<noteq> None then None
               else Some bytes)"

text \<open>\<^verbatim>\<open>net.ParseIP\<close>: the first dot, colon or percent sign decides the kind of address.\<close>

definition ParseIP :: "string \<Rightarrow> nat list option" where
  "ParseIP s = (case dropWhile (\<lambda>c. c \<noteq> CHR ''.'' \<and> c \<noteq> CHR '':'' \<and> c \<noteq> CHR ''%'') s of
      [] \<Rightarrow> None
    | c # _ \<Rightarrow>
        if c = CHR ''.'' then map_option (\<lambda>fields. replicate 10 0 @ [255, 255] @ fields) (parseIPv4Fields s)
        else if c = CHR '':'' then parseIPv6 s
        else None)"

definition IsLoopback :: "nat list \<Rightarrow> bool" where
  "IsLoopback ip \<longleftrightarrow>
     (if take 12 ip = replicate 10 0 @ [255, 255] then ip ! 12 = 127
      else ip = replicate 15 0 @ [1])"

section \<open>Addresses are well formed\<close>

lemma parseIPv4_loop_bytes:
  "parseIPv4_loop s fields val n = Some fs \<Longrightarrow> \<forall>b \<in> set (val # fields). b < 256 \<Longrightarrow> length fields \<le> 3 \<Longrightarrow>
     length fs = 4 \<and> (\<forall>b \<in> set fs. b < 256)"
  by (induction s fields val n rule: parseIPv4_loop.induct) (auto split: if_splits)

lemma parseIPv4Fields_bytes: "parseIPv4Fields s = Some fs \<Longrightarrow> length fs = 4 \<and> (\<forall>b \<in> set fs. b < 256)"
  unfolding parseIPv4Fields_def by (drule parseIPv4_loop_bytes) simp_all

lemma hex_val_bound: "hex_val c = Some d \<Longrightarrow> d < 16"
  by (auto simp: hex_val_def Let_def split: if_splits)

lemma hex_number_bound: "hex_number s < 16 ^ length s"
proof (induction s rule: rev_induct)
  case (snoc c s)
  have "(case hex_val c of None \<Rightarrow> 0 | Some d \<Rightarrow> d) < 16" by (auto dest: hex_val_bound split: option.split)
  with snoc show ?case by (simp add: hex_number_def)
qed (simp add: hex_number_def)

lemma hex_number_bytes:
  assumes "length s \<le> 4"
  shows "hex_number s div 256 < 256" "hex_number s mod 256 < 256"
proof -
  have "hex_number s < 16 ^ 4"
    using hex_number_bound [of s] power_increasing [OF assms, of "16 :: nat"] by simp
  then show "hex_number s div 256 < 256" by (simp add: less_mult_imp_div_less)
qed simp

definition address_prefix :: "nat list \<Rightarrow> nat option \<Rightarrow> bool" where
  "address_prefix bytes ellipsis \<longleftrightarrow>
     length bytes \<le> 16 \<and> (\<forall>b \<in> set bytes. b < 256) \<and> (\<forall>e. ellipsis = Some e \<longrightarrow> e \<le> length bytes)"

lemma parseIPv6_loop_bytes:
  "parseIPv6_loop n s bytes ellipsis = Some (bs, el) \<Longrightarrow> address_prefix bytes ellipsis \<Longrightarrow>
     length bytes + 2 * n \<le> 16 \<Longrightarrow> address_prefix bs el"
proof (induction n arbitrary: s bytes ellipsis)
  case (Suc n)
  let ?digits = "takeWhile is_hex s"
  let ?bytes' = "bytes @ [hex_number ?digits div 256, hex_number ?digits mod 256]"
  have digits: "length ?digits \<le> 4" using Suc.prems(1) by (auto simp: Let_def split: if_splits)
  have next_prefix: "address_prefix ?bytes' ellipsis" "address_prefix ?bytes' (Some (length ?bytes'))"
    using hex_number_bytes [OF digits] Suc.prems(2,3) by (auto simp: address_prefix_def)
  have len: "length ?bytes' + 2 * n \<le> 16" using Suc.prems(3) by simp
  have v4: "address_prefix (bytes @ fields) ellipsis"
    if "parseIPv4Fields s = Some fields" "\<not> 16 < length bytes + 4" for fields
    using Suc.prems(2) parseIPv4Fields_bytes [OF that(1)] that(2) by (auto simp: address_prefix_def)
  note IH = Suc.IH [OF _ next_prefix(1) len] Suc.IH [OF _ next_prefix(2) len, simplified]
  show ?case
    using Suc.prems(1) next_prefix unfolding parseIPv6_loop.simps Let_def
    by (auto dest: v4 IH split: if_splits option.splits)
qed (auto split: if_splits)

lemma ParseIP_bytes: "ParseIP s = Some ip \<Longrightarrow> length ip = 16 \<and> (\<forall>b \<in> set ip. b < 256)"
proof -
  have v6: "length ip = 16 \<and> (\<forall>b \<in> set ip. b < 256)" if "parseIPv6 s = Some ip" for s ip
  proof (cases "HasPrefix s ''::'' \<and> drop 2 s = []")
    case True
    with that show ?thesis by (auto simp: parseIPv6_def Let_def split: if_splits)
  next
    case False
    let ?s' = "if HasPrefix s ''::'' then drop 2 s else s" and ?e = "if HasPrefix s ''::'' then Some 0 else None"
    from that False obtain bytes el where loop: "parseIPv6_loop 8 ?s' [] ?e = Some (bytes, el)"
      and ip: "(if length bytes < 16 then
                 (case el of None \<Rightarrow> None
                  | Some e \<Rightarrow> Some (take e bytes @ replicate (16 - length bytes) 0 @ drop e bytes))
               else if el \<noteq> None then None else Some bytes) = Some ip"
      by (auto simp: parseIPv6_def Let_def simp del: parseIPv6_loop.simps split: if_splits option.splits)
    have "address_prefix bytes el"
      by (rule parseIPv6_loop_bytes [OF loop]) (auto simp: address_prefix_def)
    with ip show ?thesis
      by (auto simp: address_prefix_def split: if_splits option.splits)
        (meson in_set_takeD in_set_dropD)+
  qed
  assume "ParseIP s = Some ip"
  then show ?thesis
    using v6 by (auto simp: ParseIP_def dest!: parseIPv4Fields_bytes split: list.splits if_splits)
qed

section \<open>The texts of addresses\<close>

text \<open>The usual text of an IPv4 address.\<close>

definition dotted :: "nat \<Rightarrow> nat \<Rightarrow> nat \<Rightarrow> nat \<Rightarrow> string" where
  "dotted a b c d = FormatUint a @ ''.'' @ FormatUint b @ ''.'' @ FormatUint c @ ''.'' @ FormatUint d"

lemma FormatUint_small:
  "n < 10 \<Longrightarrow> FormatUint n = [digit_char n]"
  "10 \<le> n \<Longrightarrow> n < 100 \<Longrightarrow> FormatUint n = [digit_char (n div 10), digit_char (n mod 10)]"
  "100 \<le> n \<Longrightarrow> n < 1000 \<Longrightarrow> FormatUint n = [digit_char (n div 100), digit_char (n div 10 mod 10), digit_char (n mod 10)]"
proof -
  show one: "FormatUint n = [digit_char n]" if "n < 10" for n
    using that by (simp add: FormatUint.simps [of n])
  show two: "FormatUint n = [digit_char (n div 10), digit_char (n mod 10)]" if "10 \<le> n" "n < 100" for n
    using that one [of "n div 10"] by (simp add: FormatUint.simps [of n] less_mult_imp_div_less)
  assume n: "100 \<le> n" "n < 1000"
  then have "10 \<le> n div 10" "n div 10 < 100" by (simp_all add: less_eq_div_iff_mult_less_eq less_mult_imp_div_less)
  then show "FormatUint n = [digit_char (n div 100), digit_char (n div 10 mod 10), digit_char (n mod 10)]"
    using n two [of "n div 10"] by (simp add: FormatUint.simps [of n] div_mult2_eq [symmetric])
qed

lemma parseIPv4_loop_octet:
  assumes "n < 256"
  shows "\<exists>k. 0 < k \<and> parseIPv4_loop (FormatUint n @ rest) fs 0 0 = parseIPv4_loop rest fs n k"
proof -
  have small: "m mod 10 < 10" for m :: nat by simp
  consider "n < 10" | "10 \<le> n" "n < 100" | "100 \<le> n" by linarith
  then show ?thesis
  proof cases
    case 1
    then show ?thesis by (intro exI [of _ 1]) (simp add: FormatUint_small digit_char_props)
  next
    case 2
    then have "n div 10 < 10" "0 < n div 10" "n div 10 * 10 + n mod 10 = n" "\<not> 255 < n div 10"
      by (simp_all add: less_mult_imp_div_less)
    with 2 assms show ?thesis
      by (intro exI [of _ 2]) (simp add: FormatUint_small digit_char_props numeral_2_eq_2)
  next
    case 3
    have "n div 10 div 10 = n div 100" by (simp add: div_mult2_eq [symmetric])
    then have d: "n div 100 * 10 + n div 10 mod 10 = n div 10" "n div 10 * 10 + n mod 10 = n"
      using div_mult_mod_eq [of "n div 10" 10] by simp_all
    have "n div 100 < 10" "1 \<le> n div 100" "n div 10 \<le> 25" "10 \<le> n div 10"
      using 3 assms by (simp_all add: less_mult_imp_div_less less_eq_div_iff_mult_less_eq div_le_mono [of n 255 10, simplified])
    have "n < 1000" using assms by simp
    with 3 assms d \<open>n div 100 < 10\<close> \<open>1 \<le> n div 100\<close> \<open>n div 10 \<le> 25\<close> \<open>10 \<le> n div 10\<close> show ?thesis
      by (intro exI [of _ 3]) (simp add: FormatUint_small digit_char_props numeral_3_eq_3)
  qed
qed

lemma parseIPv4_dotted:
  assumes "a < 256" "b < 256" "c < 256" "d < 256"
  shows "parseIPv4Fields (dotted a b c d) = Some [a, b, c, d]"
proof -
  obtain i j k l where
    "0 < i" "parseIPv4_loop (FormatUint a @ CHR ''.'' # FormatUint b @ CHR ''.'' # FormatUint c @ CHR ''.'' # FormatUint d) [] 0 0 =
      parseIPv4_loop (CHR ''.'' # FormatUint b @ CHR ''.'' # FormatUint c @ CHR ''.'' # FormatUint d) [] a i"
    "0 < j" "parseIPv4_loop (FormatUint b @ CHR ''.'' # FormatUint c @ CHR ''.'' # FormatUint d) [a] 0 0 =
      parseIPv4_loop (CHR ''.'' # FormatUint c @ CHR ''.'' # FormatUint d) [a] b j"
    "0 < k" "parseIPv4_loop (FormatUint c @ CHR ''.'' # FormatUint d) [a, b] 0 0 =
      parseIPv4_loop (CHR ''.'' # FormatUint d) [a, b] c k"
    "0 < l" "parseIPv4_loop (FormatUint d @ []) [a, b, c] 0 0 = parseIPv4_loop [] [a, b, c] d l"
    using parseIPv4_loop_octet [OF assms(1)] parseIPv4_loop_octet [OF assms(2)] parseIPv4_loop_octet [OF assms(3)]
      parseIPv4_loop_octet [OF assms(4)] by metis
  moreover have "\<not> is_digit CHR ''.''" by (simp add: is_digit_def)
  ultimately show ?thesis by (simp add: parseIPv4Fields_def dotted_def)
qed

lemma dotted_chars: "c \<in> set (dotted a b c' d) \<Longrightarrow> is_digit c \<or> c = CHR ''.''"
  using FormatUint_digits by (auto simp: dotted_def list_all_iff)

lemma ParseIP_dotted:
  assumes "a < 256" "b < 256" "c < 256" "d < 256"
  shows "ParseIP (dotted a b c d) = Some (replicate 10 0 @ [255, 255, a, b, c, d])"
proof -
  have "dropWhile (\<lambda>c. c \<noteq> CHR ''.'' \<and> c \<noteq> CHR '':'' \<and> c \<noteq> CHR ''%'') (FormatUint a @ CHR ''.'' # rest) = CHR ''.'' # rest" for rest
    using FormatUint_digits [of a] by (subst dropWhile_append2) (auto simp: list_all_iff is_digit_def)
  then show ?thesis
    using parseIPv4_dotted [OF assms] by (simp add: ParseIP_def dotted_def)
qed

text \<open>
  The texts that the parser accepts are no others: a field is written without leading zeros. \<open>t\<close>
  is the part of the current field that was read.
\<close>

fun dots :: "nat list \<Rightarrow> string" where
  "dots [] = []"
| "dots [m] = FormatUint m"
| "dots (m # ms) = FormatUint m @ CHR ''.'' # dots ms"

lemma digit_char_val: "is_digit c \<Longrightarrow> digit_char (digit_val c) = c \<and> digit_val c < 10"
  by (auto simp: is_digit_def digit_char_def digit_val_def)

lemma FormatUint_snoc: "0 < n \<Longrightarrow> d < 10 \<Longrightarrow> FormatUint (n * 10 + d) = FormatUint n @ [digit_char d]"
  by (subst FormatUint.simps) simp

definition field_text :: "string \<Rightarrow> nat \<Rightarrow> bool" where
  "field_text t val \<longleftrightarrow> t = FormatUint val \<or> t = '''' \<and> val = 0"

lemma field_text_digit:
  assumes "field_text t val" "is_digit c" "\<not> (length t = 1 \<and> val = 0)"
  shows "field_text (t @ [c]) (val * 10 + digit_val c)"
proof (cases "val = 0")
  case True
  with assms have "t = ''''" by (auto simp: field_text_def FormatUint_small)
  with True digit_char_val [OF assms(2)] show ?thesis by (simp add: field_text_def FormatUint_small)
next
  case False
  with assms digit_char_val [OF assms(2)] show ?thesis by (simp add: field_text_def FormatUint_snoc)
qed

lemma parseIPv4_loop_text:
  "parseIPv4_loop s fields val (length t) = Some fs \<Longrightarrow> field_text t val \<Longrightarrow> t @ s \<noteq> '''' \<Longrightarrow>
     \<exists>ms. fs = fields @ ms \<and> ms \<noteq> [] \<and> t @ s = dots ms"
proof (induction s arbitrary: fields val t)
  case Nil
  then show ?case by (intro exI [of _ "[val]"]) (auto simp: field_text_def split: if_splits)
next
  case (Cons c s)
  show ?case
  proof (cases "is_digit c")
    case True
    with Cons.prems have "parseIPv4_loop s fields (val * 10 + digit_val c) (length (t @ [c])) = Some fs"
      "\<not> (length t = 1 \<and> val = 0)" by (auto split: if_splits)
    from Cons.IH [OF this(1) field_text_digit [OF Cons.prems(2) True this(2)]] show ?thesis by simp
  next
    case False
    with Cons.prems have c: "c = CHR ''.''" "t \<noteq> ''''" "s \<noteq> ''''"
      and loop: "parseIPv4_loop s (fields @ [val]) 0 (length '''') = Some fs" by (auto split: if_splits)
    from Cons.IH [OF loop] c(3) obtain ms where "fs = (fields @ [val]) @ ms" "ms \<noteq> []" "s = dots ms"
      by (auto simp: field_text_def)
    with c Cons.prems(2) show ?thesis
      by (intro exI [of _ "val # ms"]) (cases ms; auto simp: field_text_def)
  qed
qed

lemma length_four:
  assumes "length xs = 4"
  obtains a b c d where "xs = [a, b, c, d]"
  using assms by (auto simp: numeral_eq_Suc length_Suc_conv)

lemma parseIPv4Fields_iff:
  "parseIPv4Fields s = Some fs \<longleftrightarrow>
     (\<exists>a b c d. a < 256 \<and> b < 256 \<and> c < 256 \<and> d < 256 \<and> s = dotted a b c d \<and> fs = [a, b, c, d])"
proof
  assume parse: "parseIPv4Fields s = Some fs"
  then have "s \<noteq> ''''" by (auto simp: parseIPv4Fields_def)
  with parse parseIPv4_loop_text [of s "[]" 0 "''''" fs] have "s = dots fs"
    by (auto simp: parseIPv4Fields_def field_text_def)
  moreover obtain a b c d where fs: "fs = [a, b, c, d]"
    using parseIPv4Fields_bytes [OF parse] length_four by blast
  moreover have "a < 256" "b < 256" "c < 256" "d < 256" using parseIPv4Fields_bytes [OF parse] by (simp_all add: fs)
  ultimately show "\<exists>a b c d. a < 256 \<and> b < 256 \<and> c < 256 \<and> d < 256 \<and> s = dotted a b c d \<and> fs = [a, b, c, d]"
    by (intro exI [of _ a] exI [of _ b] exI [of _ c] exI [of _ d]) (simp add: dotted_def)
qed (auto simp: parseIPv4_dotted)

lemma ParseIP_plain_iff:
  assumes "CHR '':'' \<notin> set host"
  shows "ParseIP host = Some ip \<longleftrightarrow>
     (\<exists>a b c d. a < 256 \<and> b < 256 \<and> c < 256 \<and> d < 256 \<and> host = dotted a b c d \<and> ip = replicate 10 0 @ [255, 255, a, b, c, d])"
proof
  assume parse: "ParseIP host = Some ip"
  let ?rest = "dropWhile (\<lambda>c. c \<noteq> CHR ''.'' \<and> c \<noteq> CHR '':'' \<and> c \<noteq> CHR ''%'') host"
  obtain c cs where rest: "?rest = c # cs" using parse by (cases ?rest) (simp_all add: ParseIP_def)
  have "c \<in> set ?rest" unfolding rest by simp
  then have "c \<noteq> CHR '':''" using set_dropWhileD assms by metis
  with parse have "map_option (\<lambda>fields. replicate 10 0 @ [255, 255] @ fields) (parseIPv4Fields host) = Some ip"
    unfolding ParseIP_def rest by (simp only: list.case if_False option.distinct split: if_splits)
  then obtain fs where "parseIPv4Fields host = Some fs" "ip = replicate 10 0 @ [255, 255] @ fs" by blast
  then show "\<exists>a b c d. a < 256 \<and> b < 256 \<and> c < 256 \<and> d < 256 \<and> host = dotted a b c d \<and> ip = replicate 10 0 @ [255, 255, a, b, c, d]"
    unfolding parseIPv4Fields_iff by auto
qed (auto simp: ParseIP_dotted)

lemma index_byte_append: "c \<notin> set s \<Longrightarrow> index_byte c (s @ c # t) = Some (length s)"
  by (induction s) auto

lemma index_byte_Some: "index_byte c s = Some i \<Longrightarrow> \<exists>u v. s = u @ c # v \<and> c \<notin> set u \<and> i = length u"
proof (induction s arbitrary: i)
  case (Cons x s)
  show ?case
  proof (cases "x = c")
    case False
    with Cons.prems obtain j where "index_byte c s = Some j" "i = Suc j" by auto
    with Cons.IH obtain u v where "s = u @ c # v" "c \<notin> set u" "j = length u" by blast
    with False \<open>i = Suc j\<close> show ?thesis by (intro exI [of _ "x # u"] exI [of _ v]) auto
  qed (use Cons.prems in \<open>auto intro: exI [of _ "[]"]\<close>)
qed simp

lemma last_index_byte_append: "c \<notin> set t \<Longrightarrow> last_index_byte c (s @ c # t) = Some (length s)"
  using index_byte_append [of c "rev t" "rev s"] by (simp add: last_index_byte_def)

lemma last_index_byte_Some: "last_index_byte c s = Some i \<Longrightarrow> \<exists>u v. s = u @ c # v \<and> c \<notin> set v \<and> i = length u"
proof -
  assume "last_index_byte c s = Some i"
  then obtain j where j: "index_byte c (rev s) = Some j" "i = length s - Suc j" by (auto simp: last_index_byte_def)
  from index_byte_Some [OF j(1)] obtain u v where "rev s = u @ c # v" "c \<notin> set u" "j = length u" by blast
  moreover from this have "s = rev v @ c # rev u" by (metis rev_rev_ident rev_append rev.simps(2) append_assoc append_Cons append_Nil)
  ultimately show ?thesis using j(2) by (intro exI [of _ "rev v"] exI [of _ "rev u"]) simp
qed

text \<open>An address with a port: the host as it is, or in brackets, where it may contain colons.\<close>

definition host_port :: "string \<Rightarrow> string \<Rightarrow> string \<Rightarrow> bool" where
  "host_port listen host port \<longleftrightarrow>
     CHR '':'' \<notin> set port \<and> {CHR ''['', CHR '']''} \<inter> (set host \<union> set port) = {} \<and>
     (CHR '':'' \<notin> set host \<and> listen = host @ '':'' @ port \<or> listen = ''['' @ host @ '']:'' @ port)"

lemma SplitHostPort_iff: "SplitHostPort listen = Some host \<longleftrightarrow> (\<exists>port. host_port listen host port)"
proof
  assume "\<exists>port. host_port listen host port"
  then obtain port where port: "host_port listen host port" ..
  show "SplitHostPort listen = Some host"
  proof (cases "CHR '':'' \<notin> set host \<and> listen = host @ '':'' @ port")
    case True
    moreover from True port have "hd listen \<noteq> CHR ''[''" by (cases host) (auto simp: host_port_def)
    ultimately show ?thesis using port by (simp add: SplitHostPort_def last_index_byte_append Let_def host_port_def)
  next
    case False
    with port have l: "listen = (''['' @ host @ '']'') @ CHR '':'' # port"
      and chars: "CHR '':'' \<notin> set port" "{CHR ''['', CHR '']''} \<inter> (set host \<union> set port) = {}" by (auto simp: host_port_def)
    have "last_index_byte CHR '':'' listen = Some (length host + 2)"
      unfolding l using chars by (subst last_index_byte_append) simp_all
    moreover have "index_byte CHR '']'' listen = Some (length host + 1)"
      using index_byte_append [of "CHR '']''" "''['' @ host" "CHR '':'' # port"] chars by (simp add: l)
    ultimately show ?thesis using chars by (simp add: SplitHostPort_def l)
  qed
next
  assume split: "SplitHostPort listen = Some host"
  then obtain i where "last_index_byte CHR '':'' listen = Some i" by (auto simp: SplitHostPort_def split: option.splits)
  then obtain u v where colon: "last_index_byte CHR '':'' listen = Some (length u)" "listen = u @ CHR '':'' # v" "CHR '':'' \<notin> set v"
    using last_index_byte_Some by blast
  show "\<exists>port. host_port listen host port"
  proof (cases "hd listen = CHR ''[''")
    case False
    with split colon(1) have "host = take (length u) listen" "CHR '':'' \<notin> set host" "CHR ''['' \<notin> set listen" "CHR '']'' \<notin> set listen"
      by (auto simp: SplitHostPort_def Let_def split: if_splits)
    with colon(2,3) show ?thesis by (intro exI [of _ v]) (simp add: host_port_def)
  next
    case True
    with split colon(1) obtain e where e: "index_byte CHR '']'' listen = Some e" "e + 1 = length u"
      and chars: "CHR ''['' \<notin> set (drop 1 listen)" "CHR '']'' \<notin> set (drop (e + 1) listen)"
      and host: "host = take (e - 1) (drop 1 listen)"
      by (auto simp: SplitHostPort_def split: option.splits if_splits)
    from index_byte_Some [OF e(1)] obtain x y where x: "listen = x @ CHR '']'' # y" "CHR '']'' \<notin> set x" "e = length x" by blast
    with e(2) colon(2) have u: "u = x @ '']''" "y = CHR '':'' # v" by (auto simp: append_eq_append_conv2 Cons_eq_append_conv append_eq_Cons_conv)
    from True x obtain x' where "x = CHR ''['' # x'" by (cases x) auto
    with x u host chars colon(3) show ?thesis by (intro exI [of _ v]) (auto simp: host_port_def)
  qed
qed

text \<open>
  The hosts of the loopback interface: the name \<^verbatim>\<open>localhost\<close>, an IPv4 address of 127.0.0.0/8 in
  the usual text, and the texts of the IPv6 address 1 and of the IPv4-mapped addresses
  of 127.0.0.0/8.
\<close>

definition loopback_host :: "string \<Rightarrow> bool" where
  "loopback_host host \<longleftrightarrow>
     host = ''localhost'' \<or> (\<exists>b c d. b < 256 \<and> c < 256 \<and> d < 256 \<and> host = dotted 127 b c d) \<or>
     CHR '':'' \<in> set host \<and>
       (ParseIP host = Some (replicate 15 0 @ [1]) \<or>
        (\<exists>b c d. ParseIP host = Some (replicate 10 0 @ [255, 255, 127, b, c, d])))"

lemma IsLoopback_iff:
  assumes "length ip = 16"
  shows "IsLoopback ip \<longleftrightarrow> ip = replicate 15 0 @ [1] \<or> (\<exists>b c d. ip = replicate 10 0 @ [255, 255, 127, b, c, d])"
proof -
  have "length (drop 12 ip) = 4" using assms by simp
  then obtain a b c d where "drop 12 ip = [a, b, c, d]" by (rule length_four)
  moreover obtain p where "p = take 12 ip" "length p = 12" using assms by simp
  ultimately have ip: "ip = p @ [a, b, c, d]" "length p = 12" using append_take_drop_id [of 12 ip] by simp_all
  have one: "replicate 15 0 @ [1] = replicate 12 0 @ [0, 0, 0, 1 :: nat]"
    and mapped: "replicate 10 0 @ [255, 255, 127, x, y, z] = (replicate 10 0 @ [255, 255]) @ [127, x, y, z :: nat]" for x y z
    by (simp_all add: numeral_eq_Suc)
  have "ip = replicate 15 0 @ [1] \<longleftrightarrow> p = replicate 12 0 \<and> [a, b, c, d] = [0, 0, 0, 1]"
    "ip = replicate 10 0 @ [255, 255, 127, x, y, z] \<longleftrightarrow> p = replicate 10 0 @ [255, 255] \<and> [a, b, c, d] = [127, x, y, z]" for x y z
    unfolding ip one mapped using ip(2) by (subst append_eq_append_conv; simp)+
  moreover have "replicate 10 0 @ [255, 255] \<noteq> replicate 12 (0 :: nat)" by (simp add: numeral_eq_Suc)
  ultimately show ?thesis using ip by (auto simp: IsLoopback_def nth_append)
qed

end
