(* ===== verification/Secrets.thy ===== *)
theory Secrets
  imports S3_Client
begin

text \<open>
  The service-managed secrets provider (\<^verbatim>\<open>internal/secrets/secrets.go\<close>). Byte slices are strings.
  Base64 (\<^verbatim>\<open>base64.StdEncoding\<close>) is modelled as the standard library implements it. HKDF, AES
  and GCM are parameters: the record \<open>crypto\<close> holds the functions that the code calls,
  and \<open>crypto_laws\<close> states what their documentation promises.
\<close>

section \<open>Base64\<close>

definition base64_alphabet :: string where
  "base64_alphabet = ''ABCDEFGHIJKLMNOPQRSTUVWXYZabcdefghijklmnopqrstuvwxyz0123456789+/''"

definition b64_char :: "nat \<Rightarrow> char" where
  "b64_char n = base64_alphabet ! (n mod 64)"

definition b64_val :: "char \<Rightarrow> nat option" where
  "b64_val c = (case filter (\<lambda>i. base64_alphabet ! i = c) [0..<64] of [] \<Rightarrow> None | i # _ \<Rightarrow> Some i)"

abbreviation byte :: "char \<Rightarrow> nat" where
  "byte c \<equiv> of_char c"

text \<open>\<^verbatim>\<open>Encoding.EncodeToString\<close>.\<close>

fun base64_encode :: "string \<Rightarrow> string" where
  "base64_encode [] = []"
| "base64_encode [a] = [b64_char (byte a div 4), b64_char (byte a mod 4 * 16), CHR ''='', CHR ''='']"
| "base64_encode [a, b] = [b64_char (byte a div 4), b64_char (byte a mod 4 * 16 + byte b div 16),
     b64_char (byte b mod 16 * 4), CHR ''='']"
| "base64_encode (a # b # c # rest) =
     b64_char (byte a div 4) # b64_char (byte a mod 4 * 16 + byte b div 16) #
     b64_char (byte b mod 16 * 4 + byte c div 64) # b64_char (byte c mod 64) # base64_encode rest"

text \<open>
  \<^verbatim>\<open>Encoding.DecodeString\<close>: line breaks are skipped, padding is required and must end the
  input, and (the encoding is not \<^verbatim>\<open>Strict\<close>) the unused bits of a padded group are ignored.
\<close>

fun base64_groups :: "string \<Rightarrow> string option" where
  "base64_groups [] = Some []"
| "base64_groups (a # b # c # d # rest) = (case (b64_val a, b64_val b) of
     (Some x, Some y) \<Rightarrow>
       if c = CHR ''='' then
         (if d = CHR ''='' \<and> rest = [] then Some [char_of (x * 4 + y div 16)] else None)
       else (case b64_val c of
         None \<Rightarrow> None
       | Some z \<Rightarrow>
           if d = CHR ''='' then
             (if rest = [] then Some [char_of (x * 4 + y div 16), char_of (y mod 16 * 16 + z div 4)] else None)
           else (case (b64_val d, base64_groups rest) of
             (Some t, Some bs) \<Rightarrow>
               Some (char_of (x * 4 + y div 16) # char_of (y mod 16 * 16 + z div 4) # char_of (z mod 4 * 64 + t) # bs)
           | _ \<Rightarrow> None))
   | _ \<Rightarrow> None)"
| "base64_groups _ = None"

definition base64_decode :: "string \<Rightarrow> string option" where
  "base64_decode s = base64_groups (filter (\<lambda>c. c \<noteq> CHR 0x0A \<and> c \<noteq> CHR 0x0D) s)"

lemma b64_val_char [simp]: "n < 64 \<Longrightarrow> b64_val (b64_char n) = Some n"
proof -
  have "\<forall>n \<in> set [0..<64]. b64_val (b64_char n) = Some n" by code_simp
  then show "n < 64 \<Longrightarrow> b64_val (b64_char n) = Some n" by simp
qed

lemma b64_char_plain [simp]: "b64_char n \<noteq> CHR ''=''" "b64_char n \<noteq> CHR 0x0A" "b64_char n \<noteq> CHR 0x0D"
proof -
  have "\<forall>n \<in> set [0..<64]. base64_alphabet ! n \<noteq> CHR ''='' \<and> base64_alphabet ! n \<noteq> CHR 0x0A \<and> base64_alphabet ! n \<noteq> CHR 0x0D"
    by code_simp
  then have "base64_alphabet ! (n mod 64) \<noteq> CHR ''='' \<and> base64_alphabet ! (n mod 64) \<noteq> CHR 0x0A \<and>
      base64_alphabet ! (n mod 64) \<noteq> CHR 0x0D"
    by simp
  then show "b64_char n \<noteq> CHR ''=''" "b64_char n \<noteq> CHR 0x0A" "b64_char n \<noteq> CHR 0x0D"
    by (simp_all add: b64_char_def)
qed

lemma byte_bound: "byte c < 256"
  using of_char_mod_256 [of c, where 'a = nat] by (metis mod_less_divisor zero_less_numeral)

text \<open>The four sextets of three bytes, and back.\<close>

lemma sextets:
  fixes a b c :: nat
  assumes "a < 256" "b < 256" "c < 256"
  shows "a div 4 < 64" "a mod 4 * 16 < 64" "a mod 4 * 16 + b div 16 < 64" "b mod 16 * 4 < 64"
    "b mod 16 * 4 + c div 64 < 64" "c mod 64 < 64"
    "a div 4 * 4 + (a mod 4 * 16) div 16 = a" "a div 4 * 4 + (a mod 4 * 16 + b div 16) div 16 = a"
    "(a mod 4 * 16 + b div 16) mod 16 * 16 + (b mod 16 * 4) div 4 = b"
    "(a mod 4 * 16 + b div 16) mod 16 * 16 + (b mod 16 * 4 + c div 64) div 4 = b"
    "(b mod 16 * 4 + c div 64) mod 4 * 64 + c mod 64 = c"
proof -
  have q: "b div 16 < 16" "c div 64 < 4" "a div 4 < 64" using assms by (simp_all add: less_mult_imp_div_less)
  then have "(a mod 4 * 16 + b div 16) div 16 = a mod 4" "(a mod 4 * 16 + b div 16) mod 16 = b div 16"
    "(b mod 16 * 4 + c div 64) div 4 = b mod 16" "(b mod 16 * 4 + c div 64) mod 4 = c div 64"
    by simp_all
  moreover have "a mod 4 < 4" "b mod 16 < 16" by simp_all
  ultimately show "a div 4 < 64" "a mod 4 * 16 < 64" "a mod 4 * 16 + b div 16 < 64" "b mod 16 * 4 < 64"
    "b mod 16 * 4 + c div 64 < 64" "c mod 64 < 64"
    "a div 4 * 4 + (a mod 4 * 16) div 16 = a" "a div 4 * 4 + (a mod 4 * 16 + b div 16) div 16 = a"
    "(a mod 4 * 16 + b div 16) mod 16 * 16 + (b mod 16 * 4) div 4 = b"
    "(a mod 4 * 16 + b div 16) mod 16 * 16 + (b mod 16 * 4 + c div 64) div 4 = b"
    "(b mod 16 * 4 + c div 64) mod 4 * 64 + c mod 64 = c"
    using q by simp_all
qed

lemma base64_groups_encode: "base64_groups (base64_encode bs) = Some bs"
proof (induction bs rule: base64_encode.induct)
  case (2 a)
  show ?case using sextets [OF byte_bound [of a] byte_bound [of a] byte_bound [of a]] by simp
next
  case (3 a b)
  show ?case using sextets [OF byte_bound [of a] byte_bound [of b] byte_bound [of b]] by simp
next
  case (4 a b c rest)
  then show ?case using sextets [OF byte_bound [of a] byte_bound [of b] byte_bound [of c]] by simp
qed simp

lemma base64_encode_plain: "c \<in> set (base64_encode bs) \<Longrightarrow> c \<noteq> CHR 0x0A \<and> c \<noteq> CHR 0x0D"
  by (induction bs rule: base64_encode.induct) auto

lemma base64_decode_encode [simp]: "base64_decode (base64_encode bs) = Some bs"
proof -
  have "filter (\<lambda>c. c \<noteq> CHR 0x0A \<and> c \<noteq> CHR 0x0D) (base64_encode bs) = base64_encode bs"
    using base64_encode_plain by (auto simp: filter_id_conv)
  then show ?thesis by (simp add: base64_decode_def base64_groups_encode)
qed

section \<open>The library functions that the code calls\<close>

text \<open>
  \<open>hkdf_Key root info n\<close> is \<^verbatim>\<open>hkdf.Key(sha256.New, root, nil, info, n)\<close>; \<open>'b\<close> is the type of
  cipher blocks, \<open>'g\<close> that of AEAD ciphers. Errors are given by their texts.
\<close>

record ('b, 'g) crypto =
  hkdf_Key :: "string \<Rightarrow> string \<Rightarrow> nat \<Rightarrow> string + string"
  aes_NewCipher :: "string \<Rightarrow> string + 'b"
  cipher_NewGCM :: "'b \<Rightarrow> string + 'g"
  NonceSize :: "'g \<Rightarrow> nat"
  Seal :: "'g \<Rightarrow> string \<Rightarrow> string \<Rightarrow> string \<Rightarrow> string"
  Open :: "'g \<Rightarrow> string \<Rightarrow> string \<Rightarrow> string \<Rightarrow> string + string"

text \<open>
  What the packages document: a key of 32 bytes can be derived from any root key, AES accepts
  it and GCM accepts AES; \<^verbatim>\<open>Open\<close> inverts \<^verbatim>\<open>Seal\<close> for a nonce of the right size, and succeeds
  only on what \<^verbatim>\<open>Seal\<close> yields for the same nonce and additional data.
\<close>

definition crypto_laws :: "('b, 'g) crypto \<Rightarrow> bool" where
  "crypto_laws cl \<longleftrightarrow>
     (\<forall>root info. \<exists>key. hkdf_Key cl root info 32 = Inr key \<and> length key = 32) \<and>
     (\<forall>key. length key = 32 \<longrightarrow> (\<exists>b g. aes_NewCipher cl key = Inr b \<and> cipher_NewGCM cl b = Inr g)) \<and>
     (\<forall>g nonce p ad. length nonce = NonceSize cl g \<longrightarrow> Open cl g nonce (Seal cl g nonce p ad) ad = Inr p) \<and>
     (\<forall>g nonce c p ad. Open cl g nonce c ad = Inr p \<longrightarrow> c = Seal cl g nonce p ad)"

section \<open>The crypter\<close>

definition keySize :: nat where
  "keySize = 32"

definition ciphertextPrefix :: string where
  "ciphertextPrefix = ''v2:''"

definition stackKeyPrefix :: string where
  "stackKeyPrefix = ''pulumi-backend/secrets/stack/v2''"

record Crypter =
  rootKey :: string

definition NewCrypter :: "string \<Rightarrow> error + Crypter" where
  "NewCrypter secretsKey = (case base64_decode secretsKey of
      None \<Rightarrow> Inl (Wrap ''decode secretsKey: '' (NewError ''illegal base64 data''))
    | Some key \<Rightarrow>
        if length key \<noteq> keySize then Inl (NewError (''secretsKey must decode to '' @ Itoa (int keySize) @ '' bytes''))
        else Inr \<lparr>rootKey = key\<rparr>)"

text \<open>\<^verbatim>\<open>fmt.Sprintf\<close> with \<^verbatim>\<open>%d:%s\<close> for each segment.\<close>

definition scope_segment :: "string \<Rightarrow> string" where
  "scope_segment s = FormatUint (length s) @ '':'' @ s"

definition stackScope :: "string \<Rightarrow> string \<Rightarrow> string \<Rightarrow> string" where
  "stackScope org project stack =
     stackKeyPrefix @ [CHR 0x00] @ scope_segment org @ scope_segment project @ scope_segment stack"

definition gcm :: "('b, 'g) crypto \<Rightarrow> Crypter \<Rightarrow> string \<Rightarrow> string \<Rightarrow> string \<Rightarrow> error + 'g \<times> string" where
  "gcm cl c org project stack =
     (let scope = stackScope org project stack
      in case hkdf_Key cl (rootKey c) scope keySize of
           Inl e \<Rightarrow> Inl (Wrap ''derive stack key: '' (NewError e))
         | Inr key \<Rightarrow> (case aes_NewCipher cl key of
             Inl e \<Rightarrow> Inl (Wrap ''aes cipher: '' (NewError e))
           | Inr block \<Rightarrow> (case cipher_NewGCM cl block of
               Inl e \<Rightarrow> Inl (Wrap ''gcm: '' (NewError e))
             | Inr g \<Rightarrow> Inr (g, scope))))"

text \<open>\<^verbatim>\<open>rand.Read\<close> of \<^verbatim>\<open>crypto/rand\<close> never returns an error.\<close>

definition Encrypt ::
  "('b, 'g) crypto \<Rightarrow> Crypter \<Rightarrow> string \<Rightarrow> string \<Rightarrow> string \<Rightarrow> string \<Rightarrow> (error + string) prog" where
  "Encrypt cl c org project stack plaintext = (case gcm cl c org project stack of
      Inl err \<Rightarrow> Return (Inl err)
    | Inr (g, scope) \<Rightarrow> RandRead (NonceSize cl g) (\<lambda>nonce.
        let sealed = nonce @ Seal cl g nonce plaintext scope
        in Return (Inr (ciphertextPrefix @ base64_encode sealed))))"

definition Decrypt ::
  "('b, 'g) crypto \<Rightarrow> Crypter \<Rightarrow> string \<Rightarrow> string \<Rightarrow> string \<Rightarrow> string \<Rightarrow> error + string" where
  "Decrypt cl c org project stack ciphertext = (case CutPrefix ciphertext ciphertextPrefix of
      None \<Rightarrow> Inl (NewError ''not a v2 ciphertext'')
    | Some payload \<Rightarrow> (case base64_decode payload of
        None \<Rightarrow> Inl (Wrap ''decode payload: '' (NewError ''illegal base64 data''))
      | Some sealed \<Rightarrow> (case gcm cl c org project stack of
          Inl err \<Rightarrow> Inl err
        | Inr (g, scope) \<Rightarrow>
            if length sealed < NonceSize cl g then Inl (NewError ''payload too short'')
            else (case Open cl g (take (NonceSize cl g) sealed) (drop (NonceSize cl g) sealed) scope of
                Inl e \<Rightarrow> Inl (Wrap ''open ciphertext: '' (NewError e))
              | Inr plaintext \<Rightarrow> Inr plaintext))))"

section \<open>Scopes of different stacks differ\<close>

lemma scope_segment_split:
  assumes "scope_segment a @ x = scope_segment b @ y"
  shows "a = b \<and> x = y"
proof -
  have split: "d = d' \<and> r = r'"
    if "d @ CHR '':'' # r = d' @ CHR '':'' # r'" "list_all is_digit d" "list_all is_digit d'" for d d' r r'
    using that
  proof (induction d arbitrary: d')
    case Nil
    then show ?case by (cases d') (auto simp: is_digit_def)
  next
    case (Cons c d)
    then show ?case by (cases d') (auto simp: is_digit_def)
  qed
  have "FormatUint (length a) @ CHR '':'' # (a @ x) = FormatUint (length b) @ CHR '':'' # (b @ y)"
    using assms by (simp add: scope_segment_def)
  from split [OF this] have "FormatUint (length a) = FormatUint (length b)" "a @ x = b @ y"
    by (simp_all add: FormatUint_digits)
  then show ?thesis using FormatUint_inject by auto
qed

lemma crypto_gcm:
  assumes "crypto_laws cl"
  shows "\<exists>g. gcm cl c org project stack = Inr (g, stackScope org project stack)"
proof -
  obtain key where key: "hkdf_Key cl (rootKey c) (stackScope org project stack) 32 = Inr key" "length key = 32"
    using assms unfolding crypto_laws_def by blast
  obtain b g where "aes_NewCipher cl key = Inr b" "cipher_NewGCM cl b = Inr g"
    using assms key(2) unfolding crypto_laws_def by blast
  with key(1) show ?thesis by (simp add: gcm_def keySize_def)
qed

text \<open>
  A concrete instance of the library interface (with no secrecy at all), to show that its
  laws can hold.
\<close>

definition plain_crypto :: "(string, string) crypto" where
  "plain_crypto = \<lparr>
     hkdf_Key = (\<lambda>root info n. Inr (take n (root @ replicate n CHR ''k''))),
     aes_NewCipher = (\<lambda>key. if length key \<in> {16, 24, 32} then Inr key else Inl ''invalid key size''),
     cipher_NewGCM = Inr,
     NonceSize = (\<lambda>g. 12),
     Seal = (\<lambda>g nonce p ad. ad @ p),
     Open = (\<lambda>g nonce c ad. case CutPrefix c ad of None \<Rightarrow> Inl ''message authentication failed'' | Some p \<Rightarrow> Inr p)\<rparr>"

lemma plain_crypto_laws: "crypto_laws plain_crypto"
  by (auto simp: crypto_laws_def plain_crypto_def CutPrefix_eq_Some split: option.splits)

text \<open>Decryption undoes encryption, for any nonce.\<close>

lemma Encrypt_Decrypt:
  assumes "crypto_laws cl" "\<forall>n w. length (fst (h_rand h n w)) = n"
    and "run h (Encrypt cl c org project stack plaintext) w = (r, w')"
  shows "\<exists>ct. r = Inr ct \<and> HasPrefix ct ''v2:'' \<and> Decrypt cl c org project stack ct = Inr plaintext"
proof -
  obtain g where g: "gcm cl c org project stack = Inr (g, stackScope org project stack)"
    using crypto_gcm [OF assms(1)] by blast
  obtain nonce w1 where nonce: "h_rand h (NonceSize cl g) w = (nonce, w1)" "length nonce = NonceSize cl g"
    using assms(2) by (metis prod.collapse)
  have "r = Inr (ciphertextPrefix @ base64_encode (nonce @ Seal cl g nonce plaintext (stackScope org project stack)))"
    using assms(3) by (simp add: Encrypt_def g nonce Let_def)
  moreover have "Open cl g nonce (Seal cl g nonce plaintext (stackScope org project stack)) (stackScope org project stack) = Inr plaintext"
    using assms(1) nonce(2) by (simp add: crypto_laws_def)
  ultimately show ?thesis
    using nonce(2) by (simp add: Decrypt_def g) (simp add: ciphertextPrefix_def HasPrefix_def)
qed

text \<open>
  C34. Secrets round trip. A value that the backend encrypts for a stack is a \<^verbatim>\<open>v2:\<close> ciphertext
  and decrypts, with the same root key and for the same stack, to the value, whatever random
  nonce was drawn.
\<close>

theorem Encrypt_Decrypt_roundtrip:
  assumes "crypto_laws cl" "\<forall>n w. length (fst (h_rand h n w)) = n"
    and "run h (Encrypt cl c org project stack plaintext) w = (r, w')"
  shows "\<exists>ct. r = Inr ct \<and> HasPrefix ct ''v2:'' \<and> Decrypt cl c org project stack ct = Inr plaintext"
  using assms by (rule Encrypt_Decrypt)

theorem Encrypt_Decrypt_roundtrip_witness:
  "\<exists>ct w'. run ref_service (Encrypt plain_crypto \<lparr>rootKey = ''k''\<rparr> ''o'' ''p'' ''s'' ''secret'') \<lparr>bk_objects = [], bk_clock = 0, bk_seed = 0\<rparr> =
     (Inr ct, w') \<and> Decrypt plain_crypto \<lparr>rootKey = ''k''\<rparr> ''o'' ''p'' ''s'' ct = Inr ''secret''"
proof -
  obtain r w' where run: "run ref_service (Encrypt plain_crypto \<lparr>rootKey = ''k''\<rparr> ''o'' ''p'' ''s'' ''secret'')
      \<lparr>bk_objects = [], bk_clock = 0, bk_seed = 0\<rparr> = (r, w')" by fastforce
  have "\<forall>n w. length (fst (h_rand ref_service n w)) = n"
    by (simp add: ref_service_def ref_rand_def)
  from Encrypt_Decrypt_roundtrip [OF plain_crypto_laws this run] run show ?thesis by blast
qed

text \<open>
  C35. What decrypts. \<^verbatim>\<open>Decrypt\<close> returns a value only for a text that is \<^verbatim>\<open>v2:\<close> and the base64
  form of a nonce followed by the sealed value, sealed under the key and with the additional
  data of this very stack; the scope that goes into both is different for every stack.
\<close>

theorem Decrypt_only_own_ciphertexts:
  assumes "crypto_laws cl" "Decrypt cl c org project stack ct = Inr plaintext"
  shows "(\<exists>payload g nonce. ct = ''v2:'' @ payload \<and> gcm cl c org project stack = Inr (g, stackScope org project stack) \<and>
       length nonce = NonceSize cl g \<and>
       base64_decode payload = Some (nonce @ Seal cl g nonce plaintext (stackScope org project stack))) \<and>
     (\<forall>org' project' stack'. stackScope org' project' stack' = stackScope org project stack \<longleftrightarrow>
        (org', project', stack') = (org, project, stack))"
proof -
  obtain g where g: "gcm cl c org project stack = Inr (g, stackScope org project stack)"
    using crypto_gcm [OF assms(1)] by blast
  from assms(2) obtain payload sealed where ct: "CutPrefix ct ciphertextPrefix = Some payload"
    "base64_decode payload = Some sealed" "NonceSize cl g \<le> length sealed"
    "Open cl g (take (NonceSize cl g) sealed) (drop (NonceSize cl g) sealed) (stackScope org project stack) = Inr plaintext"
    by (auto simp: Decrypt_def g split: option.splits if_splits sum.splits)
  have "drop (NonceSize cl g) sealed =
      Seal cl g (take (NonceSize cl g) sealed) plaintext (stackScope org project stack)"
    using assms(1) ct(4) unfolding crypto_laws_def by blast
  then have sealed: "base64_decode payload = Some (take (NonceSize cl g) sealed @
      Seal cl g (take (NonceSize cl g) sealed) plaintext (stackScope org project stack))"
    using ct(2) by (metis append_take_drop_id)
  have "ct = ''v2:'' @ payload" using ct(1) by (simp add: CutPrefix_eq_Some ciphertextPrefix_def)
  moreover have "length (take (NonceSize cl g) sealed) = NonceSize cl g" using ct(3) by simp
  moreover have "stackScope org' project' stack' = stackScope org project stack \<longleftrightarrow>
      (org', project', stack') = (org, project, stack)" for org' project' stack'
  proof
    assume eq: "stackScope org' project' stack' = stackScope org project stack"
    then have "scope_segment org' @ scope_segment project' @ scope_segment stack' =
        scope_segment org @ scope_segment project @ scope_segment stack"
      by (simp add: stackScope_def)
    then show "(org', project', stack') = (org, project, stack)"
      using scope_segment_split scope_segment_split [where x = "''''" and y = "''''"] by (metis append_Nil2)
  qed simp
  ultimately show ?thesis using g sealed by blast
qed

lemma plain_decrypt:
  assumes "length nonce = 12"
  shows "Decrypt plain_crypto c org project stack
     (''v2:'' @ base64_encode (nonce @ stackScope org project stack @ x)) = Inr x"
proof -
  obtain g where g: "gcm plain_crypto c org project stack = Inr (g, stackScope org project stack)"
    using crypto_gcm [OF plain_crypto_laws] by blast
  show ?thesis
    unfolding Decrypt_def ciphertextPrefix_def CutPrefix_append
    using assms g by (simp add: plain_crypto_def)
qed

theorem Decrypt_only_own_ciphertexts_witness:
  "Decrypt plain_crypto \<lparr>rootKey = ''k''\<rparr> ''o'' ''p'' ''s''
     (''v2:'' @ base64_encode (replicate 12 CHR ''n'' @ stackScope ''o'' ''p'' ''s'' @ ''x'')) = Inr ''x'' \<and>
   stackScope ''o1'' ''p'' ''s'' \<noteq> stackScope ''o'' ''p'' ''s''"
proof -
  have "length (replicate 12 CHR ''n'') = 12" by simp
  note dec = plain_decrypt [OF this]
  note scopes = Decrypt_only_own_ciphertexts [OF plain_crypto_laws dec, THEN conjunct2, rule_format]
  show ?thesis by (intro conjI, rule dec, simp only: scopes prod.inject, simp)
qed

end
