(* ===== verification/Authn.thy ===== *)
theory Authn
  imports S3_Client
begin

text \<open>
  Identities and backend tokens (\<^verbatim>\<open>internal/authn/authn.go\<close>). The JWT library's codec and HMAC
  are parameters (record \<open>jwt_lib\<close>, laws \<open>jwt_laws\<close>); the checks that
  \<^verbatim>\<open>jwt.Parse\<close> makes with the options of this code (algorithm, key, signature, times) are
  modelled. The OIDC verifier is a parameter too. SHA-256 is a parameter of the identity that
  stands for an opaque credential.
\<close>

section \<open>Identities\<close>

record Identity =
  id_Issuer :: string
  id_Subject :: string
  id_Username :: string
  id_Groups :: "string list"

definition Principal :: "Identity \<Rightarrow> string" where
  "Principal ident = (if id_Issuer ident = '''' then id_Subject ident else id_Issuer ident @ ''|'' @ id_Subject ident)"

definition backendTokenType :: string where "backendTokenType = ''backend''"
definition updateTokenType :: string where "updateTokenType = ''update''"
definition backendTokenAudience :: string where "backendTokenAudience = ''pulumi-backend''"
definition updateTokenAudience :: string where "updateTokenAudience = ''pulumi-backend-update''"
definition minimumTokenTTL :: duration where "minimumTokenTTL = 2 * second"

text \<open>A type assertion \<^verbatim>\<open>claims[key].(string)\<close> whose failure leaves the empty string.\<close>

definition claim_string :: "json smap \<Rightarrow> string \<Rightarrow> string" where
  "claim_string claims key = (case sm_get claims key of Some (JStr s) \<Rightarrow> s | _ \<Rightarrow> '''')"

definition claim_is_string :: "json smap \<Rightarrow> string \<Rightarrow> bool" where
  "claim_is_string claims key = (case sm_get claims key of Some (JStr s) \<Rightarrow> True | _ \<Rightarrow> False)"

definition localIdentity :: "string \<Rightarrow> Identity" where
  "localIdentity name = \<lparr>id_Issuer = ''local'', id_Subject = name, id_Username = name, id_Groups = []\<rparr>"

text \<open>The loop over the claims that may hold a display name.\<close>

primrec username_loop :: "json smap \<Rightarrow> string list \<Rightarrow> string \<Rightarrow> string" where
  "username_loop claims [] username = username"
| "username_loop claims (key # keys) username =
     (if claim_string claims key \<noteq> '''' then claim_string claims key else username_loop claims keys username)"

definition claim_groups :: "json smap \<Rightarrow> string list" where
  "claim_groups claims = (case sm_get claims ''groups'' of
      Some (JArr gs) \<Rightarrow> concat (map (\<lambda>g. case g of JStr s \<Rightarrow> [s] | _ \<Rightarrow> []) gs)
    | _ \<Rightarrow> [])"

definition identityFromClaims :: "json smap \<Rightarrow> string \<Rightarrow> error + Identity" where
  "identityFromClaims claims issuer0 =
     (let subject = claim_string claims ''sub''
      in if subject = '''' then Inl (NewError ''no subject claim'')
         else let issuer1 = (if issuer0 = '''' then claim_string claims ''oidc_iss'' else issuer0);
                  issuer = (if issuer1 = '''' then claim_string claims ''iss'' else issuer1)
           in if issuer = '''' then Inl (NewError ''no issuer claim'')
              else Inr \<lparr>id_Issuer = issuer, id_Subject = subject,
                id_Username = username_loop claims [''preferred_username'', ''name'', ''email''] subject,
                id_Groups = claim_groups claims\<rparr>)"

section \<open>The JWT library\<close>

record jwt_token =
  tok_Header :: "json smap"
  tok_Claims :: "json smap"

text \<open>
  \<open>jwt_SignedString header claims key\<close> encodes and signs with HS256; \<open>jwt_ParseUnverified\<close>
  decodes; \<open>jwt_Verify raw key\<close> checks the HS256 signature of a token; \<open>jwt_whole\<close>
  gives the whole seconds of a number literal with a fraction or an exponent.
\<close>

record jwt_lib =
  jwt_SignedString :: "json smap \<Rightarrow> json smap \<Rightarrow> string \<Rightarrow> string + string"
  jwt_ParseUnverified :: "string \<Rightarrow> string + jwt_token"
  jwt_Verify :: "string \<Rightarrow> string \<Rightarrow> bool"
  jwt_whole :: "string \<Rightarrow> int"

text \<open>
  What the library documents: signing with a byte key succeeds, and the signed token decodes to
  its header and claims and verifies with the key.
\<close>

definition jwt_laws :: "jwt_lib \<Rightarrow> bool" where
  "jwt_laws J \<longleftrightarrow> (\<forall>header claims key. key \<noteq> '''' \<longrightarrow> sm_wf header \<longrightarrow> sm_wf claims \<longrightarrow>
     (\<exists>raw. jwt_SignedString J header claims key = Inr raw \<and> raw \<noteq> '''' \<and> jwt_Verify J raw key \<and>
       jwt_ParseUnverified J raw = Inr \<lparr>tok_Header = header, tok_Claims = claims\<rparr>))"

text \<open>\<^verbatim>\<open>MapClaims.parseNumericDate\<close>: \<open>Inr None\<close> when the claim is missing (or zero).\<close>

definition numeric_date :: "jwt_lib \<Rightarrow> json smap \<Rightarrow> string \<Rightarrow> error + time option" where
  "numeric_date J claims key = (case sm_get claims key of
      None \<Rightarrow> Inr None
    | Some (JInt n) \<Rightarrow> Inr (if n = 0 then None else Some (n * second))
    | Some (JDec s) \<Rightarrow> Inr (Some (jwt_whole J s * second))
    | Some _ \<Rightarrow> Inl (NewError (key @ '' is invalid'')))"

text \<open>The validator with \<^verbatim>\<open>WithExpirationRequired\<close> and \<^verbatim>\<open>WithIssuedAt\<close>: all three checks must pass.\<close>

definition times_valid :: "jwt_lib \<Rightarrow> json smap \<Rightarrow> time \<Rightarrow> bool" where
  "times_valid J claims now \<longleftrightarrow>
     (case numeric_date J claims ''exp'' of Inr (Some exp) \<Rightarrow> now < exp | _ \<Rightarrow> False) \<and>
     (case numeric_date J claims ''nbf'' of Inl e \<Rightarrow> False | Inr None \<Rightarrow> True | Inr (Some nbf) \<Rightarrow> nbf \<le> now) \<and>
     (case numeric_date J claims ''iat'' of Inl e \<Rightarrow> False | Inr None \<Rightarrow> True | Inr (Some iat) \<Rightarrow> iat \<le> now)"

text \<open>
  \<^verbatim>\<open>jwt.Parse(raw, keyFunc, WithValidMethods(HS256), WithExpirationRequired(), WithIssuedAt())\<close>.
  The clock is read for the time checks only.
\<close>

definition jwt_Parse ::
  "jwt_lib \<Rightarrow> (jwt_token \<Rightarrow> error + string) \<Rightarrow> string \<Rightarrow> (error + jwt_token) prog" where
  "jwt_Parse J keyFunc raw = (case jwt_ParseUnverified J raw of
      Inl e \<Rightarrow> Return (Inl (NewError e))
    | Inr token \<Rightarrow>
        if sm_get (tok_Header token) ''alg'' \<noteq> Some (JStr ''HS256'')
        then Return (Inl (NewError ''token signature is invalid: signing method is invalid''))
        else case keyFunc token of
          Inl e \<Rightarrow> Return (Inl (Wrap ''token is unverifiable: error while executing keyfunc: '' e))
        | Inr key \<Rightarrow>
            if \<not> jwt_Verify J raw key then Return (Inl (NewError ''token signature is invalid''))
            else TimeNow (\<lambda>now.
              if \<not> times_valid J (tok_Claims token) now then Return (Inl (NewError ''token has invalid claims''))
              else Return (Inr token)))"

section \<open>Issuing and verifying tokens\<close>

record TokenIssuer =
  ti_Keys :: "string smap"
  ti_ActiveKeyID :: string
  ti_TTL :: duration

definition validateIdentity :: "Identity \<Rightarrow> error option" where
  "validateIdentity ident =
     (if id_Issuer ident = '''' then Some (NewError ''identity issuer is required'')
      else if id_Subject ident = '''' then Some (NewError ''identity subject is required'')
      else None)"

text \<open>\<^verbatim>\<open>fmt\<close>'s \<^verbatim>\<open>%q\<close> in the error texts is written without its escapes.\<close>

definition quoted :: "string \<Rightarrow> string" where
  "quoted s = [CHR 0x22] @ s @ [CHR 0x22]"

definition sign :: "jwt_lib \<Rightarrow> TokenIssuer \<Rightarrow> json smap \<Rightarrow> error + string" where
  "sign J ti claims = (case sm_get (ti_Keys ti) (ti_ActiveKeyID ti) of
      None \<Rightarrow> Inl (NewError (''active signing key '' @ quoted (ti_ActiveKeyID ti) @ '' is not configured''))
    | Some key \<Rightarrow>
        if key = '''' then Inl (NewError (''active signing key '' @ quoted (ti_ActiveKeyID ti) @ '' is not configured''))
        else (case jwt_SignedString J [(''alg'', JStr ''HS256''), (''kid'', JStr (ti_ActiveKeyID ti)), (''typ'', JStr ''JWT'')]
               claims key of
            Inl e \<Rightarrow> Inl (Wrap ''sign token: '' (NewError e))
          | Inr tok \<Rightarrow> Inr tok))"

definition keyFunc :: "TokenIssuer \<Rightarrow> jwt_token \<Rightarrow> error + string" where
  "keyFunc ti token =
     (let kid = claim_string (tok_Header token) ''kid''
      in if kid = '''' then Inl (NewError ''token has no key ID'')
         else case sm_get (ti_Keys ti) kid of
           None \<Rightarrow> Inl (NewError (''unknown token key ID '' @ quoted kid))
         | Some key \<Rightarrow> if key = '''' then Inl (NewError (''unknown token key ID '' @ quoted kid)) else Inr key)"

definition parse :: "jwt_lib \<Rightarrow> TokenIssuer \<Rightarrow> string \<Rightarrow> (error + jwt_token) prog" where
  "parse J ti raw = call (jwt_Parse J (keyFunc ti) raw) (\<lambda>r. case r of
      Inl err \<Rightarrow> Return (Inl (Wrap ''parse token: '' err))
    | Inr token \<Rightarrow> Return (Inr token))"

text \<open>The claims map literals; a nil slice of groups is encoded as \<^verbatim>\<open>null\<close>.\<close>

definition groups_json :: "string list \<Rightarrow> json" where
  "groups_json gs = (if gs = [] then JNull else JArr (map JStr gs))"

definition user_claims :: "Identity \<Rightarrow> time \<Rightarrow> time \<Rightarrow> json smap" where
  "user_claims ident now exp = [
     (''aud'', JStr backendTokenAudience),
     (''exp'', JInt (unix exp)),
     (''groups'', groups_json (id_Groups ident)),
     (''iat'', JInt (unix now)),
     (''name'', JStr (id_Username ident)),
     (''oidc_iss'', JStr (id_Issuer ident)),
     (''sub'', JStr (id_Subject ident)),
     (''typ'', JStr backendTokenType)]"

definition Issue :: "jwt_lib \<Rightarrow> TokenIssuer \<Rightarrow> Identity \<Rightarrow> (error + string) prog" where
  "Issue J ti ident =
     (if ti_TTL ti < minimumTokenTTL then Return (Inl (NewError ''token TTL must be at least 2s''))
      else case validateIdentity ident of
        Some err \<Rightarrow> Return (Inl err)
      | None \<Rightarrow> TimeNow (\<lambda>now. Return (sign J ti (user_claims ident now (now + ti_TTL ti)))))"

text \<open>\<^verbatim>\<open>MapClaims.GetAudience\<close>.\<close>

definition audiences :: "json smap \<Rightarrow> error + string list" where
  "audiences claims = (case sm_get claims ''aud'' of
      Some (JStr s) \<Rightarrow> Inr [s]
    | Some (JArr as) \<Rightarrow>
        if list_all (\<lambda>a. case a of JStr s \<Rightarrow> True | _ \<Rightarrow> False) as
        then Inr (map (\<lambda>a. case a of JStr s \<Rightarrow> s | _ \<Rightarrow> '''') as)
        else Inl (NewError ''aud is invalid'')
    | _ \<Rightarrow> Inr [])"

definition requireAudience :: "json smap \<Rightarrow> string \<Rightarrow> error option" where
  "requireAudience claims want = (case audiences claims of
      Inl e \<Rightarrow> Some (Wrap ''read token audience: '' e)
    | Inr as \<Rightarrow> if as \<noteq> [want] then Some (NewError ''invalid token audience'') else None)"

definition Verify :: "jwt_lib \<Rightarrow> TokenIssuer \<Rightarrow> string \<Rightarrow> (error + Identity) prog" where
  "Verify J ti raw = check (parse J ti raw) (\<lambda>tok.
     let claims = tok_Claims tok
     in if claim_string claims ''typ'' \<noteq> backendTokenType then Return (Inl (NewError ''not a backend user token''))
        else case requireAudience claims backendTokenAudience of
          Some err \<Rightarrow> Return (Inl err)
        | None \<Rightarrow> Return (identityFromClaims claims ''''))"

record UpdateClaims =
  uc_UpdateID :: string
  uc_Org :: string
  uc_Project :: string
  uc_Stack :: string
  uc_Kind :: string
  uc_Generation :: uint64

definition update_claims :: "Identity \<Rightarrow> UpdateClaims \<Rightarrow> time \<Rightarrow> time \<Rightarrow> json smap" where
  "update_claims ident uc now exp = [
     (''aud'', JStr updateTokenAudience),
     (''exp'', JInt (unix exp)),
     (''fence'', JStr (FormatUint (unat (uc_Generation uc)))),
     (''groups'', groups_json (id_Groups ident)),
     (''iat'', JInt (unix now)),
     (''kind'', JStr (uc_Kind uc)),
     (''name'', JStr (id_Username ident)),
     (''oidc_iss'', JStr (id_Issuer ident)),
     (''org'', JStr (uc_Org uc)),
     (''prj'', JStr (uc_Project uc)),
     (''stk'', JStr (uc_Stack uc)),
     (''sub'', JStr (id_Subject ident)),
     (''typ'', JStr updateTokenType),
     (''upd'', JStr (uc_UpdateID uc))]"

text \<open>The token and the Unix time of its expiry.\<close>

definition IssueUpdate ::
  "jwt_lib \<Rightarrow> TokenIssuer \<Rightarrow> Identity \<Rightarrow> UpdateClaims \<Rightarrow> duration \<Rightarrow> (error + string \<times> int) prog" where
  "IssueUpdate J ti ident uc ttl =
     (if ttl < minimumTokenTTL then Return (Inl (NewError ''token TTL must be at least 2s''))
      else case validateIdentity ident of
        Some err \<Rightarrow> Return (Inl err)
      | None \<Rightarrow> TimeNow (\<lambda>now. case sign J ti (update_claims ident uc now (now + ttl)) of
            Inl err \<Rightarrow> Return (Inl err)
          | Inr tok \<Rightarrow> Return (Inr (tok, unix (now + ttl)))))"

definition updateTokenScope :: "Identity \<Rightarrow> json smap \<Rightarrow> error + Identity \<times> UpdateClaims option" where
  "updateTokenScope ident claims = (case requireAudience claims updateTokenAudience of
      Some err \<Rightarrow> Inl err
    | None \<Rightarrow>
        if claim_string claims ''upd'' = '''' then Inl (NewError ''update token has no update ID'')
        else case ParseUint (claim_string claims ''fence'') of
          None \<Rightarrow> Inl (NewError ''invalid update token scope'')
        | Some generation \<Rightarrow>
            if list_all (claim_is_string claims) [''org'', ''prj'', ''stk'', ''kind'', ''fence'']
            then Inr (ident, Some \<lparr>uc_UpdateID = claim_string claims ''upd'', uc_Org = claim_string claims ''org'',
              uc_Project = claim_string claims ''prj'', uc_Stack = claim_string claims ''stk'',
              uc_Kind = claim_string claims ''kind'', uc_Generation = of_nat generation\<rparr>)
            else Inl (NewError ''invalid update token scope''))"

definition VerifyScoped ::
  "jwt_lib \<Rightarrow> TokenIssuer \<Rightarrow> string \<Rightarrow> (error + Identity \<times> UpdateClaims option) prog" where
  "VerifyScoped J ti raw = check (parse J ti raw) (\<lambda>tok.
     let claims = tok_Claims tok
     in case identityFromClaims claims '''' of
          Inl err \<Rightarrow> Return (Inl err)
        | Inr ident \<Rightarrow>
            if claim_string claims ''typ'' = backendTokenType
            then (case requireAudience claims backendTokenAudience of
                Some err \<Rightarrow> Return (Inl err)
              | None \<Rightarrow> Return (Inr (ident, None)))
            else if claim_string claims ''typ'' = updateTokenType
            then Return (updateTokenScope ident claims)
            else Return (Inl (NewError ''unknown token type'')))"

section \<open>Identities from other tokens\<close>

text \<open>
  \<open>verify\<close> stands for the provider's \<^verbatim>\<open>IDTokenVerifier\<close>: the decoded claims (or the error of
  decoding them) and the issuer of a valid ID token.
\<close>

definition Validate :: "(string \<Rightarrow> error + (error + json smap) \<times> string) \<Rightarrow> string \<Rightarrow> error + Identity" where
  "Validate verify raw = (case verify raw of
      Inl err \<Rightarrow> Inl (Wrap ''verify id token: '' err)
    | Inr (Inl err, issuer) \<Rightarrow> Inl (Wrap ''claims: '' err)
    | Inr (Inr claims, issuer) \<Rightarrow> identityFromClaims claims issuer)"

definition IdentityFromToken :: "jwt_lib \<Rightarrow> (string \<Rightarrow> string) \<Rightarrow> string \<Rightarrow> Identity" where
  "IdentityFromToken J sha256hex raw =
     (if raw = '''' then localIdentity ''local''
      else case (case jwt_ParseUnverified J raw of
          Inl e \<Rightarrow> Inl (NewError e)
        | Inr tok \<Rightarrow> identityFromClaims (tok_Claims tok) '''') of
        Inr ident \<Rightarrow> ident
      | Inl _ \<Rightarrow>
          if length (filter (\<lambda>c. c = CHR ''.'') raw) = 2 then localIdentity ''local''
          else localIdentity (''local-'' @ take 16 (sha256hex raw)))"

section \<open>Issued tokens verify\<close>

lemma claims_wf: "sm_wf (user_claims ident now exp)" "sm_wf (update_claims ident uc now exp)"
  "sm_wf [(''alg'', JStr a), (''kid'', JStr k), (''typ'', JStr t)]"
  by (simp_all add: sm_wf_def user_claims_def update_claims_def)

text \<open>The identity as a token carries it: an empty display name becomes the subject.\<close>

definition shown :: "Identity \<Rightarrow> Identity" where
  "shown ident = ident\<lparr>id_Username := (if id_Username ident = '''' then id_Subject ident else id_Username ident)\<rparr>"

lemma groups_roundtrip: "sm_get claims ''groups'' = Some (groups_json gs) \<Longrightarrow> claim_groups claims = gs"
proof -
  have "concat (map (\<lambda>g. case g of JStr s \<Rightarrow> [s] | _ \<Rightarrow> []) (map JStr gs)) = gs" by (induction gs) simp_all
  then show "sm_get claims ''groups'' = Some (groups_json gs) \<Longrightarrow> claim_groups claims = gs"
    by (simp add: claim_groups_def groups_json_def split: if_splits)
qed

lemma issued_claims:
  assumes "c = user_claims ident now exp \<or> c = update_claims ident uc now exp"
  shows "claim_string c ''sub'' = id_Subject ident" "claim_string c ''oidc_iss'' = id_Issuer ident"
    "claim_string c ''preferred_username'' = ''''" "claim_string c ''name'' = id_Username ident"
    "claim_string c ''email'' = ''''" "sm_get c ''groups'' = Some (groups_json (id_Groups ident))"
  using assms by (auto simp: claim_string_def user_claims_def update_claims_def)

lemma identity_roundtrip:
  assumes "validateIdentity ident = None" and "c = user_claims ident now exp \<or> c = update_claims ident uc now exp"
  shows "identityFromClaims c '''' = Inr (shown ident)"
proof -
  have "id_Subject ident \<noteq> ''''" "id_Issuer ident \<noteq> ''''"
    using assms(1) by (simp_all add: validateIdentity_def split: if_splits)
  then show ?thesis
    using issued_claims [OF assms(2)] groups_roundtrip [OF issued_claims(6) [OF assms(2)]]
    by (cases ident) (simp add: identityFromClaims_def shown_def Let_def)
qed

text \<open>A key ring that can sign.\<close>

definition can_sign :: "TokenIssuer \<Rightarrow> bool" where
  "can_sign ti \<longleftrightarrow> ti_ActiveKeyID ti \<noteq> '''' \<and> (\<exists>key. sm_get (ti_Keys ti) (ti_ActiveKeyID ti) = Some key \<and> key \<noteq> '''')"

text \<open>The claims are current: issued not after and expiring after the reading of the clock.\<close>

lemma times_valid_issued:
  "c = user_claims ident now exp \<or> c = update_claims ident uc now exp \<Longrightarrow> unix exp \<noteq> 0 \<Longrightarrow>
     times_valid J c t \<longleftrightarrow> unix now * second \<le> t \<and> t < unix exp * second \<or>
       unix now = 0 \<and> t < unix exp * second"
  by (auto simp: times_valid_def numeric_date_def user_claims_def update_claims_def)

text \<open>The header and claims of a token that \<open>sign\<close> makes.\<close>

definition issued_token :: "TokenIssuer \<Rightarrow> json smap \<Rightarrow> jwt_token" where
  "issued_token ti claims = \<lparr>tok_Header =
     [(''alg'', JStr ''HS256''), (''kid'', JStr (ti_ActiveKeyID ti)), (''typ'', JStr ''JWT'')], tok_Claims = claims\<rparr>"

lemma sign_parse:
  assumes "jwt_laws J" "can_sign ti" "sm_wf claims" "h_now h w = (t, w')"
  obtains raw where "sign J ti claims = Inr raw" "raw \<noteq> ''''"
    "run h (parse J ti raw) w = (if times_valid J claims t then (Inr (issued_token ti claims), w')
       else (Inl (Wrap ''parse token: '' (NewError ''token has invalid claims'')), w'))"
proof -
  let ?header = "[(''alg'', JStr ''HS256''), (''kid'', JStr (ti_ActiveKeyID ti)), (''typ'', JStr ''JWT'')]"
  obtain key where key: "sm_get (ti_Keys ti) (ti_ActiveKeyID ti) = Some key" "key \<noteq> ''''" "ti_ActiveKeyID ti \<noteq> ''''"
    using assms(2) by (auto simp: can_sign_def)
  obtain raw where raw: "jwt_SignedString J ?header claims key = Inr raw" "raw \<noteq> ''''" "jwt_Verify J raw key"
    "jwt_ParseUnverified J raw = Inr (issued_token ti claims)"
    using assms(1,3) key(2) claims_wf(3) unfolding jwt_laws_def issued_token_def by blast
  have "keyFunc ti (issued_token ti claims) = Inr key"
    using key by (simp add: keyFunc_def claim_string_def issued_token_def Let_def)
  then have "run h (parse J ti raw) w = (if times_valid J claims t then (Inr (issued_token ti claims), w')
       else (Inl (Wrap ''parse token: '' (NewError ''token has invalid claims'')), w'))"
    using raw assms(4) by (simp add: parse_def jwt_Parse_def issued_token_def)
  moreover have "sign J ti claims = Inr raw" using key raw(1) by (simp add: sign_def)
  ultimately show thesis using that raw(2) by blast
qed

lemma claim_types:
  "claim_string (user_claims ident now exp) ''typ'' = ''backend''"
  "claim_string (update_claims ident uc now exp) ''typ'' = ''update''"
  "requireAudience (user_claims ident now exp) ''pulumi-backend'' = None"
  "requireAudience (update_claims ident uc now exp) ''pulumi-backend-update'' = None"
  by (simp_all add: claim_string_def user_claims_def update_claims_def backendTokenType_def updateTokenType_def
      requireAudience_def audiences_def backendTokenAudience_def updateTokenAudience_def)

lemmas token_constants = backendTokenType_def updateTokenType_def backendTokenAudience_def updateTokenAudience_def

lemma update_scope_roundtrip:
  assumes "uc_UpdateID uc \<noteq> ''''"
  shows "updateTokenScope ident' (update_claims ident uc now exp) = Inr (ident', Some uc)"
proof -
  have c: "claim_string (update_claims ident uc now exp) ''upd'' = uc_UpdateID uc"
    "claim_string (update_claims ident uc now exp) ''org'' = uc_Org uc"
    "claim_string (update_claims ident uc now exp) ''prj'' = uc_Project uc"
    "claim_string (update_claims ident uc now exp) ''stk'' = uc_Stack uc"
    "claim_string (update_claims ident uc now exp) ''kind'' = uc_Kind uc"
    "claim_string (update_claims ident uc now exp) ''fence'' = FormatUint (unat (uc_Generation uc))"
    "list_all (claim_is_string (update_claims ident uc now exp)) [''org'', ''prj'', ''stk'', ''kind'', ''fence'']"
    by (simp_all add: claim_string_def claim_is_string_def update_claims_def)
  have "unat (uc_Generation uc) < 2 ^ LENGTH(64)" by (rule unsigned_less)
  then show ?thesis
    unfolding updateTokenScope_def c
    using claim_types(4) [of ident uc now exp] assms c(7) by (cases uc) (simp add: updateTokenAudience_def)
qed

lemma unix_second: "unix t * second \<le> t"
  by (simp add: unix_def minus_mod_eq_div_mult [symmetric])

lemma unix_mono: "s \<le> t \<Longrightarrow> unix s \<le> unix t"
  by (simp add: unix_def zdiv_mono1)

text \<open>
  C33. User tokens. A token that \<^verbatim>\<open>Issue\<close> mints for an identity is accepted by \<^verbatim>\<open>Verify\<close> and
  by \<^verbatim>\<open>VerifyScoped\<close>, with this identity and without an update scope, at any time from its
  issue until its expiry, and by neither afterwards.
\<close>

theorem user_token_roundtrip:
  assumes laws: "jwt_laws J" "can_sign ti" "2 * second \<le> ti_TTL ti" "validateIdentity ident = None"
    and issue: "h_now h w0 = (t0, w1)" "0 < t0" "run h (Issue J ti ident) w0 = (r, w1')"
    and now: "h_now h w = (t, w')" "t0 \<le> t"
  shows "\<exists>raw. r = Inr raw \<and>
     (if t < unix (t0 + ti_TTL ti) * second
      then run h (Verify J ti raw) w = (Inr (shown ident), w') \<and>
        run h (VerifyScoped J ti raw) w = (Inr (shown ident, None), w')
      else (\<exists>err. run h (Verify J ti raw) w = (Inl err, w') \<and> run h (VerifyScoped J ti raw) w = (Inl err, w')))"
proof -
  let ?c = "user_claims ident t0 (t0 + ti_TTL ti)"
  have r: "r = sign J ti ?c"
    using issue(1,3) laws(3,4) by (simp add: Issue_def minimumTokenTTL_def)
  from sign_parse [OF laws(1,2) claims_wf(1) now(1)] obtain raw where raw: "sign J ti ?c = Inr raw"
    and parse: "run h (parse J ti raw) w = (if times_valid J ?c t then (Inr (issued_token ti ?c), w')
       else (Inl (Wrap ''parse token: '' (NewError ''token has invalid claims'')), w'))" by metis
  have "0 < unix (t0 + ti_TTL ti)"
    using unix_mono [of "2 * second" "t0 + ti_TTL ti"] laws(3) issue(2) by (simp add: unix_def)
  then have valid: "times_valid J ?c t \<longleftrightarrow> t < unix (t0 + ti_TTL ti) * second"
    using times_valid_issued [OF disjI1 [OF refl]] order_trans [OF unix_second now(2)] by (metis less_irrefl)
  have id: "identityFromClaims ?c '''' = Inr (shown ident)"
    using identity_roundtrip [OF laws(4)] by blast
  show ?thesis
    using r raw id claim_types(1,3) [of ident t0 "t0 + ti_TTL ti"]
    by (auto simp: Verify_def VerifyScoped_def parse valid Let_def token_constants issued_token_def)
qed

text \<open>Issuing an update token and verifying it, now or later.\<close>

lemma issued_update_token:
  assumes laws: "jwt_laws J" "can_sign ti" "2 * second \<le> ttl" "validateIdentity ident = None" "uc_UpdateID uc \<noteq> ''''"
    and issue: "h_now h w0 = (t0, w1)" "0 < t0" and now: "h_now h w = (t, w')" "t0 \<le> t"
  obtains raw where "run h (IssueUpdate J ti ident uc ttl) w0 = (Inr (raw, unix (t0 + ttl)), w1)"
    "\<exists>err. run h (Verify J ti raw) w = (Inl err, w')"
    "if t < unix (t0 + ttl) * second
     then run h (VerifyScoped J ti raw) w = (Inr (shown ident, Some uc), w')
     else (\<exists>err. run h (VerifyScoped J ti raw) w = (Inl err, w'))"
proof -
  let ?c = "update_claims ident uc t0 (t0 + ttl)"
  from sign_parse [OF laws(1,2) claims_wf(2) now(1)] obtain raw where raw: "sign J ti ?c = Inr raw"
    and parse: "run h (parse J ti raw) w = (if times_valid J ?c t then (Inr (issued_token ti ?c), w')
       else (Inl (Wrap ''parse token: '' (NewError ''token has invalid claims'')), w'))" by metis
  have r: "run h (IssueUpdate J ti ident uc ttl) w0 = (Inr (raw, unix (t0 + ttl)), w1)"
    using issue(1) laws(3,4) raw by (simp add: IssueUpdate_def minimumTokenTTL_def)
  have "0 < unix (t0 + ttl)"
    using unix_mono [of "2 * second" "t0 + ttl"] laws(3) issue(2) by (simp add: unix_def)
  then have valid: "times_valid J ?c t \<longleftrightarrow> t < unix (t0 + ttl) * second"
    using times_valid_issued [OF disjI2 [OF refl]] order_trans [OF unix_second now(2)] by (metis less_irrefl)
  have id: "identityFromClaims ?c '''' = Inr (shown ident)"
    using identity_roundtrip [OF laws(4)] by blast
  show thesis
    using that [OF r] id claim_types(2,4) [of ident uc t0 "t0 + ttl"] update_scope_roundtrip [OF laws(5)]
    by (auto simp: Verify_def VerifyScoped_def parse valid Let_def token_constants issued_token_def)
qed

text \<open>
  C32. Update tokens. A token that \<^verbatim>\<open>IssueUpdate\<close> mints carries its scope, the fence generation
  included, through \<^verbatim>\<open>VerifyScoped\<close> until its expiry; \<^verbatim>\<open>Verify\<close>, which guards the
  user endpoints, never accepts it.
\<close>

theorem update_token_roundtrip:
  assumes laws: "jwt_laws J" "can_sign ti" "2 * second \<le> ttl" "validateIdentity ident = None" "uc_UpdateID uc \<noteq> ''''"
    and issue: "h_now h w0 = (t0, w1)" "0 < t0" "run h (IssueUpdate J ti ident uc ttl) w0 = (r, w1')"
    and now: "h_now h w = (t, w')" "t0 \<le> t"
  shows "\<exists>raw. r = Inr (raw, unix (t0 + ttl)) \<and> (\<exists>err. run h (Verify J ti raw) w = (Inl err, w')) \<and>
     (if t < unix (t0 + ttl) * second
      then run h (VerifyScoped J ti raw) w = (Inr (shown ident, Some uc), w')
      else (\<exists>err. run h (VerifyScoped J ti raw) w = (Inl err, w')))"
  using issued_update_token [OF laws issue(1,2) now] issue(3) by (metis prod.inject)

subsection \<open>A library that meets the contract\<close>

text \<open>
  A codec over the countable set of signed tokens: a token is a row of marks as long as the
  number of its header, claims and key.
\<close>

definition unary_jwt :: jwt_lib where
  "unary_jwt = \<lparr>
     jwt_SignedString = (\<lambda>header claims key. Inr (replicate (Suc (to_nat (header, claims, key))) CHR ''x'')),
     jwt_ParseUnverified = (\<lambda>raw. case from_nat (length raw - 1) :: json smap \<times> json smap \<times> string of
        (header, claims, key) \<Rightarrow> if raw = '''' then Inl ''token is malformed''
          else Inr \<lparr>tok_Header = header, tok_Claims = claims\<rparr>),
     jwt_Verify = (\<lambda>raw key. case from_nat (length raw - 1) :: json smap \<times> json smap \<times> string of
        (header, claims, key') \<Rightarrow> raw \<noteq> '''' \<and> key = key'),
     jwt_whole = (\<lambda>s. 0)\<rparr>"

lemma unary_jwt_laws: "jwt_laws unary_jwt"
  by (simp add: jwt_laws_def unary_jwt_def)

definition demo_issuer :: TokenIssuer where
  "demo_issuer = \<lparr>ti_Keys = [(''k1'', ''secret'')], ti_ActiveKeyID = ''k1'', ti_TTL = hour\<rparr>"

definition demo_identity :: Identity where
  "demo_identity = \<lparr>id_Issuer = ''https://idp'', id_Subject = ''42'', id_Username = ''ada'', id_Groups = [''dev'']\<rparr>"

definition demo_claims :: UpdateClaims where
  "demo_claims = \<lparr>uc_UpdateID = ''u'', uc_Org = ''o'', uc_Project = ''p'', uc_Stack = ''s'', uc_Kind = ''update'',
     uc_Generation = 7\<rparr>"

definition world_at :: "time \<Rightarrow> bucket" where
  "world_at t = \<lparr>bk_objects = [], bk_clock = t, bk_seed = 0\<rparr>"

lemma world_at_now [simp]: "h_now ref_service (world_at t) = (t, world_at t)"
  by (simp add: world_at_def)

lemma demo_issuer_signs: "can_sign demo_issuer" "ti_TTL demo_issuer = hour"
  "validateIdentity demo_identity = None" "shown demo_identity = demo_identity" "uc_UpdateID demo_claims \<noteq> ''''"
  by (simp_all add: can_sign_def demo_issuer_def validateIdentity_def demo_identity_def shown_def demo_claims_def)

theorem user_token_roundtrip_witness:
  "\<exists>raw. fst (run ref_service (Issue unary_jwt demo_issuer demo_identity) (world_at second)) = Inr raw \<and>
     run ref_service (Verify unary_jwt demo_issuer raw) (world_at minute) = (Inr demo_identity, world_at minute)"
proof -
  obtain r w1' where run: "run ref_service (Issue unary_jwt demo_issuer demo_identity) (world_at second) = (r, w1')"
    by (cases "run ref_service (Issue unary_jwt demo_issuer demo_identity) (world_at second)")
  from user_token_roundtrip [OF unary_jwt_laws demo_issuer_signs(1) _ demo_issuer_signs(3) world_at_now _ run
      world_at_now [of minute]]
  show ?thesis unfolding run by (auto simp: demo_issuer_signs unix_def)
qed

theorem update_token_roundtrip_witness:
  "\<exists>raw. fst (run ref_service (IssueUpdate unary_jwt demo_issuer demo_identity demo_claims hour) (world_at second)) =
       Inr (raw, 3601) \<and>
     run ref_service (VerifyScoped unary_jwt demo_issuer raw) (world_at minute) =
       (Inr (demo_identity, Some demo_claims), world_at minute)"
proof -
  obtain r w1' where run:
    "run ref_service (IssueUpdate unary_jwt demo_issuer demo_identity demo_claims hour) (world_at second) = (r, w1')"
    by (cases "run ref_service (IssueUpdate unary_jwt demo_issuer demo_identity demo_claims hour) (world_at second)")
  from update_token_roundtrip [OF unary_jwt_laws demo_issuer_signs(1) _ demo_issuer_signs(3) demo_issuer_signs(5)
      world_at_now _ run world_at_now [of minute]]
  show ?thesis unfolding run by (auto simp: demo_issuer_signs unix_def)
qed
section \<open>What the verifiers accept\<close>

text \<open>
  A token that is current at time \<open>t\<close>: signed with HS256 under a non-empty key of the key ring, the
  one its header names.
\<close>

definition genuine :: "jwt_lib \<Rightarrow> TokenIssuer \<Rightarrow> string \<Rightarrow> time \<Rightarrow> json smap \<Rightarrow> bool" where
  "genuine J ti raw t claims \<longleftrightarrow> (\<exists>header kid key.
     jwt_ParseUnverified J raw = Inr \<lparr>tok_Header = header, tok_Claims = claims\<rparr> \<and>
     sm_get header ''alg'' = Some (JStr ''HS256'') \<and> sm_get header ''kid'' = Some (JStr kid) \<and> kid \<noteq> '''' \<and>
     sm_get (ti_Keys ti) kid = Some key \<and> key \<noteq> '''' \<and> jwt_Verify J raw key \<and> times_valid J claims t)"

lemma claim_string_nonempty: "claim_string m k = s \<and> s \<noteq> '''' \<longleftrightarrow> sm_get m k = Some (JStr s) \<and> s \<noteq> ''''"
  by (auto simp: claim_string_def split: option.splits json.splits)

lemma keyFunc_accepts: "keyFunc ti tok = Inr key \<longleftrightarrow> (\<exists>kid. sm_get (tok_Header tok) ''kid'' = Some (JStr kid) \<and>
     kid \<noteq> '''' \<and> sm_get (ti_Keys ti) kid = Some key \<and> key \<noteq> '''')"
proof -
  have "keyFunc ti tok = Inr key \<longleftrightarrow> (\<exists>kid. (claim_string (tok_Header tok) ''kid'' = kid \<and> kid \<noteq> '''') \<and>
     sm_get (ti_Keys ti) kid = Some key \<and> key \<noteq> '''')"
    by (auto simp: keyFunc_def Let_def split: option.splits)
  then show ?thesis unfolding claim_string_nonempty by auto
qed

lemma parse_accepts:
  "run h (parse J ti raw) w = (Inr tok, w') \<longleftrightarrow>
     (\<exists>t. h_now h w = (t, w') \<and> jwt_ParseUnverified J raw = Inr tok \<and> genuine J ti raw t (tok_Claims tok))"
proof -
  have "run h (parse J ti raw) w = (Inr tok, w') \<longleftrightarrow> (\<exists>t key. h_now h w = (t, w') \<and>
      jwt_ParseUnverified J raw = Inr tok \<and> sm_get (tok_Header tok) ''alg'' = Some (JStr ''HS256'') \<and>
      keyFunc ti tok = Inr key \<and> jwt_Verify J raw key \<and> times_valid J (tok_Claims tok) t)"
    by (auto simp: parse_def jwt_Parse_def split: sum.splits prod.splits if_splits)
  also have "\<dots> \<longleftrightarrow> (\<exists>t. h_now h w = (t, w') \<and> jwt_ParseUnverified J raw = Inr tok \<and> genuine J ti raw t (tok_Claims tok))"
    by (cases tok) (auto simp: genuine_def keyFunc_accepts)
  finally show ?thesis by simp
qed

lemma requireAudience_accepts: "requireAudience claims want = None \<longleftrightarrow> audiences claims = Inr [want]"
  by (auto simp: requireAudience_def split: sum.splits)

definition scope_of_claims :: "json smap \<Rightarrow> UpdateClaims \<Rightarrow> bool" where
  "scope_of_claims claims u \<longleftrightarrow>
     uc_UpdateID u \<noteq> '''' \<and> sm_get claims ''upd'' = Some (JStr (uc_UpdateID u)) \<and>
     sm_get claims ''org'' = Some (JStr (uc_Org u)) \<and> sm_get claims ''prj'' = Some (JStr (uc_Project u)) \<and>
     sm_get claims ''stk'' = Some (JStr (uc_Stack u)) \<and> sm_get claims ''kind'' = Some (JStr (uc_Kind u)) \<and>
     (\<exists>fence. sm_get claims ''fence'' = Some (JStr fence) \<and> ParseUint fence = Some (unat (uc_Generation u)))"

lemma claim_is_string_iff: "claim_is_string m k \<and> claim_string m k = s \<longleftrightarrow> sm_get m k = Some (JStr s)"
  by (auto simp: claim_string_def claim_is_string_def split: option.splits json.splits)

lemma updateTokenScope_accepts:
  "updateTokenScope ident claims = Inr (ident', uc) \<longleftrightarrow> ident' = ident \<and> audiences claims = Inr [''pulumi-backend-update''] \<and>
     (\<exists>u. uc = Some u \<and> scope_of_claims claims u)"
proof (cases "requireAudience claims updateTokenAudience")
  case None
  then have aud: "audiences claims = Inr [''pulumi-backend-update'']"
    by (simp add: requireAudience_accepts updateTokenAudience_def)
  show ?thesis
  proof (cases "ParseUint (claim_string claims ''fence'')")
    case None
    then have "\<not> scope_of_claims claims u" for u by (auto simp: scope_of_claims_def claim_string_def)
    then show ?thesis by (simp add: updateTokenScope_def None \<open>requireAudience claims updateTokenAudience = None\<close>)
  next
    case (Some g)
    have g: "unat (word_of_nat g :: uint64) = g"
      using ParseUint_bound [OF Some] by (simp add: unat_of_nat)
    show ?thesis
    proof
      assume "updateTokenScope ident claims = Inr (ident', uc)"
      then have "claim_string claims ''upd'' \<noteq> ''''"
        "list_all (claim_is_string claims) [''org'', ''prj'', ''stk'', ''kind'', ''fence'']" "ident' = ident"
        and uc: "uc = Some \<lparr>uc_UpdateID = claim_string claims ''upd'', uc_Org = claim_string claims ''org'',
              uc_Project = claim_string claims ''prj'', uc_Stack = claim_string claims ''stk'',
              uc_Kind = claim_string claims ''kind'', uc_Generation = of_nat g\<rparr>"
        by (simp_all add: updateTokenScope_def None Some split: if_splits)
      then show "ident' = ident \<and> audiences claims = Inr [''pulumi-backend-update''] \<and> (\<exists>u. uc = Some u \<and> scope_of_claims claims u)"
        using Some claim_string_nonempty [of claims "''upd''"] claim_is_string_iff [of claims]
        by (auto simp: scope_of_claims_def aud g)
    next
      assume *: "ident' = ident \<and> audiences claims = Inr [''pulumi-backend-update''] \<and> (\<exists>u. uc = Some u \<and> scope_of_claims claims u)"
      then obtain u where u: "uc = Some u" "scope_of_claims claims u" by blast
      then have "uc_Generation u = of_nat g" using Some by (auto simp: scope_of_claims_def claim_string_def)
      with * u Some show "updateTokenScope ident claims = Inr (ident', uc)"
        by (cases u) (auto simp: updateTokenScope_def None scope_of_claims_def claim_string_def claim_is_string_def)
    qed
  qed
next
  case (Some e)
  then show ?thesis
    using requireAudience_accepts [of claims updateTokenAudience]
    by (auto simp: updateTokenScope_def updateTokenAudience_def)
qed

lemma genuine_parse: "genuine J ti raw t claims \<Longrightarrow> \<exists>tok. jwt_ParseUnverified J raw = Inr tok \<and> tok_Claims tok = claims"
  by (auto simp: genuine_def)

lemma run_check_parse:
  "run h (check (parse J ti raw) g) w = (Inr x, w') \<longleftrightarrow>
     (\<exists>tok t v. h_now h w = (t, v) \<and> jwt_ParseUnverified J raw = Inr tok \<and> genuine J ti raw t (tok_Claims tok) \<and>
        run h (g tok) v = (Inr x, w'))"
  using parse_accepts [of h J ti raw w] by (auto split: prod.splits sum.splits)

text \<open>The branches of the two verifiers after the token is parsed, as conditions on the claims.\<close>

lemma typ_iff:
  "claim_string claims ''typ'' = backendTokenType \<longleftrightarrow> sm_get claims ''typ'' = Some (JStr ''backend'')"
  "claim_string claims ''typ'' = updateTokenType \<longleftrightarrow> sm_get claims ''typ'' = Some (JStr ''update'')"
  using claim_string_nonempty [of claims "''typ''" "''backend''"] claim_string_nonempty [of claims "''typ''" "''update''"]
  by (simp_all add: token_constants)

definition accepted_claims :: "json smap \<Rightarrow> UpdateClaims option \<Rightarrow> bool" where
  "accepted_claims claims uc \<longleftrightarrow> (case uc of
      None \<Rightarrow> sm_get claims ''typ'' = Some (JStr ''backend'') \<and> audiences claims = Inr [''pulumi-backend'']
    | Some u \<Rightarrow> sm_get claims ''typ'' = Some (JStr ''update'') \<and> audiences claims = Inr [''pulumi-backend-update''] \<and>
        scope_of_claims claims u)"

lemma VerifyScoped_accepts:
  "run h (VerifyScoped J ti raw) w = (Inr (ident, uc), w') \<longleftrightarrow>
     (\<exists>t claims. h_now h w = (t, w') \<and> genuine J ti raw t claims \<and> identityFromClaims claims '''' = Inr ident \<and>
       accepted_claims claims uc)"
proof -
  have "run h (let claims = tok_Claims tok
     in case identityFromClaims claims [] of
          Inl err \<Rightarrow> Return (Inl err)
        | Inr ident \<Rightarrow>
            if claim_string claims ''typ'' = backendTokenType
            then (case requireAudience claims backendTokenAudience of
                Some err \<Rightarrow> Return (Inl err)
              | None \<Rightarrow> Return (Inr (ident, None)))
            else if claim_string claims ''typ'' = updateTokenType
            then Return (updateTokenScope ident claims)
            else Return (Inl (NewError ''unknown token type''))) v = (Inr (ident, uc), w') \<longleftrightarrow>
      v = w' \<and> identityFromClaims (tok_Claims tok) [] = Inr ident \<and> accepted_claims (tok_Claims tok) uc"
    for v and tok :: jwt_token
    unfolding accepted_claims_def Let_def typ_iff
    by (cases "identityFromClaims (tok_Claims tok) []"; cases "audiences (tok_Claims tok)"; cases uc)
      (simp_all add: requireAudience_def token_constants updateTokenScope_accepts, auto)
  then show ?thesis
    unfolding VerifyScoped_def run_check_parse by (auto dest: genuine_parse) (metis genuine_parse)
qed
lemma Verify_accepts:
  "run h (Verify J ti raw) w = (Inr ident, w') \<longleftrightarrow>
     (\<exists>t claims. h_now h w = (t, w') \<and> genuine J ti raw t claims \<and> identityFromClaims claims '''' = Inr ident \<and>
       accepted_claims claims None)"
proof -
  have "run h (let claims = tok_Claims tok
     in if claim_string claims ''typ'' \<noteq> backendTokenType then Return (Inl (NewError ''not a backend user token''))
        else case requireAudience claims backendTokenAudience of
          Some err \<Rightarrow> Return (Inl err)
        | None \<Rightarrow> Return (identityFromClaims claims [])) v = (Inr ident, w') \<longleftrightarrow>
      v = w' \<and> identityFromClaims (tok_Claims tok) [] = Inr ident \<and> accepted_claims (tok_Claims tok) None" for v and tok :: jwt_token
    unfolding accepted_claims_def Let_def typ_iff
    by (cases "audiences (tok_Claims tok)") (auto simp: requireAudience_def token_constants)
  then show ?thesis
    unfolding Verify_def run_check_parse by (auto dest: genuine_parse) (metis genuine_parse)
qed

text \<open>
  C31. Verification of tokens is sound and complete. \<^verbatim>\<open>VerifyScoped\<close> accepts exactly the current
  tokens that carry a valid HS256 signature under a configured key, the audience that belongs
  to their type, and a complete identity: user tokens without a scope, update tokens with the
  scope their claims state. \<^verbatim>\<open>Verify\<close> accepts exactly the user tokens among them.
\<close>

theorem verifiers_accept_exactly:
  "(run h (VerifyScoped J ti raw) w = (Inr (ident, uc), w') \<longleftrightarrow>
     (\<exists>t claims. h_now h w = (t, w') \<and> genuine J ti raw t claims \<and> identityFromClaims claims '''' = Inr ident \<and>
       (case uc of
          None \<Rightarrow> sm_get claims ''typ'' = Some (JStr ''backend'') \<and> audiences claims = Inr [''pulumi-backend'']
        | Some u \<Rightarrow> sm_get claims ''typ'' = Some (JStr ''update'') \<and> audiences claims = Inr [''pulumi-backend-update''] \<and>
            uc_UpdateID u \<noteq> '''' \<and> sm_get claims ''upd'' = Some (JStr (uc_UpdateID u)) \<and>
            sm_get claims ''org'' = Some (JStr (uc_Org u)) \<and> sm_get claims ''prj'' = Some (JStr (uc_Project u)) \<and>
            sm_get claims ''stk'' = Some (JStr (uc_Stack u)) \<and> sm_get claims ''kind'' = Some (JStr (uc_Kind u)) \<and>
            (\<exists>fence. sm_get claims ''fence'' = Some (JStr fence) \<and> ParseUint fence = Some (unat (uc_Generation u)))))) \<and>
   (run h (Verify J ti raw) w = (Inr ident, w') \<longleftrightarrow> run h (VerifyScoped J ti raw) w = (Inr (ident, None), w'))"
  unfolding VerifyScoped_accepts Verify_accepts by (cases uc) (simp_all add: accepted_claims_def scope_of_claims_def)

section \<open>Principals\<close>

text \<open>A text that is cut at a vertical bar in two ways.\<close>

lemma bar_split:
  fixes x y s t :: string
  shows "x @ ''|'' @ s = y @ ''|'' @ t \<longleftrightarrow>
     x = y \<and> s = t \<or> (\<exists>m. x = y @ ''|'' @ m \<and> t = m @ ''|'' @ s) \<or> (\<exists>m. y = x @ ''|'' @ m \<and> s = m @ ''|'' @ t)"
proof (induction x arbitrary: y)
  case Nil
  then show ?case by (cases y) auto
next
  case (Cons c x)
  then show ?case by (cases y) auto
qed

lemma local_identity_complete: "validateIdentity (IdentityFromToken J sha256hex raw) = None"
proof -
  have "identityFromClaims claims i = Inr ident \<Longrightarrow> validateIdentity ident = None" for claims i ident
    by (auto simp: identityFromClaims_def validateIdentity_def Let_def split: if_splits)
  moreover have "validateIdentity (localIdentity n) = None" if "n \<noteq> ''''" for n
    using that by (simp add: localIdentity_def validateIdentity_def)
  ultimately show ?thesis
    unfolding IdentityFromToken_def
    by (cases "case jwt_ParseUnverified J raw of Inl e \<Rightarrow> Inl (NewError e) | Inr tok \<Rightarrow> identityFromClaims (tok_Claims tok) []")
      (simp_all split: sum.splits)
qed

text \<open>
  C40. When two complete identities have the same principal, which is what owns locks. Either
  issuer and subject are equal, or one issuer is the other one followed by a vertical bar and a
  text that the other subject begins with. So among the identities of one issuer (a
  configuration names one) and among issuers without a vertical bar, the principal determines the
  identity; for other issuers it does not, and \<^verbatim>\<open>validateIdentity\<close> does not exclude them. The identity
  that local mode makes up for any credential is complete, so tokens can be issued for it.
\<close>

theorem Principal_identifies:
  assumes "validateIdentity a = None" "validateIdentity b = None"
  shows "(Principal a = Principal b \<longleftrightarrow>
       id_Issuer a = id_Issuer b \<and> id_Subject a = id_Subject b \<or>
       (\<exists>m. id_Issuer a = id_Issuer b @ ''|'' @ m \<and> id_Subject b = m @ ''|'' @ id_Subject a) \<or>
       (\<exists>m. id_Issuer b = id_Issuer a @ ''|'' @ m \<and> id_Subject a = m @ ''|'' @ id_Subject b)) \<and>
     (id_Issuer a = id_Issuer b \<or> CHR ''|'' \<notin> set (id_Issuer a @ id_Issuer b) \<longrightarrow>
       (Principal a = Principal b \<longleftrightarrow> id_Issuer a = id_Issuer b \<and> id_Subject a = id_Subject b)) \<and>
     validateIdentity (IdentityFromToken J sha256hex raw) = None"
proof -
  have "id_Issuer a \<noteq> ''''" "id_Issuer b \<noteq> ''''"
    using assms by (auto simp: validateIdentity_def split: if_splits)
  then have principal: "Principal a = Principal b \<longleftrightarrow>
       id_Issuer a = id_Issuer b \<and> id_Subject a = id_Subject b \<or>
       (\<exists>m. id_Issuer a = id_Issuer b @ ''|'' @ m \<and> id_Subject b = m @ ''|'' @ id_Subject a) \<or>
       (\<exists>m. id_Issuer b = id_Issuer a @ ''|'' @ m \<and> id_Subject a = m @ ''|'' @ id_Subject b)"
    using bar_split [of "id_Issuer a" "id_Subject a" "id_Issuer b" "id_Subject b"] by (simp add: Principal_def)
  moreover have "Principal a = Principal b \<longleftrightarrow> id_Issuer a = id_Issuer b \<and> id_Subject a = id_Subject b"
    if "id_Issuer a = id_Issuer b \<or> CHR ''|'' \<notin> set (id_Issuer a @ id_Issuer b)"
    unfolding principal using that by auto
  ultimately show ?thesis using local_identity_complete by blast
qed

text \<open>Two identities of different issuers that share a principal, and two that do not.\<close>

theorem Principal_identifies_witness:
  "Principal (localIdentity ''ada'') \<noteq> Principal demo_identity \<and>
   Principal \<lparr>id_Issuer = ''a|b'', id_Subject = ''c'', id_Username = ''u'', id_Groups = []\<rparr> =
     Principal \<lparr>id_Issuer = ''a'', id_Subject = ''b|c'', id_Username = ''v'', id_Groups = []\<rparr>"
  using Principal_identifies [of "localIdentity ''ada''" demo_identity]
    Principal_identifies [of "\<lparr>id_Issuer = ''a|b'', id_Subject = ''c'', id_Username = ''u'', id_Groups = []\<rparr>"
      "\<lparr>id_Issuer = ''a'', id_Subject = ''b|c'', id_Username = ''v'', id_Groups = []\<rparr>"]
  by (simp add: validateIdentity_def localIdentity_def demo_identity_def)

end
