(* ===== verification/Config.thy ===== *)
theory Config
  imports Authz Net Secrets Authn
begin

text \<open>
  The configuration (\<^verbatim>\<open>internal/config/config.go\<close>): its data, how \<^verbatim>\<open>Load\<close> reads it and what
  it accepts. The file system, the environment and the YAML decoder are not part of the
  repository: they are the fields of the record \<open>config_env\<close>. \<open>order\<close> is the order in
  which \<^verbatim>\<open>ValidateRules\<close> visits its map literal.
\<close>

section \<open>Data\<close>

definition minimumSigningKeyBytes :: nat where "minimumSigningKeyBytes = 32"
definition secretsKeyBytes :: nat where "secretsKeyBytes = 32"

record SigningKey =
  sk_ID :: string
  sk_Key :: string

record Config =
  cfg_NoAuth :: bool
  cfg_Issuer :: string
  cfg_ClientID :: string
  cfg_SigningKeys :: "SigningKey list"
  cfg_ActiveSigningKey :: string
  cfg_SecretsKey :: string
  cfg_Authorization :: "rule list"
  cfg_Listen :: string
  cfg_TokenTTL :: duration
  cfg_LeaseDuration :: duration
  cfg_Bucket :: string
  cfg_Region :: string

text \<open>
  \<open>ce_Decode raw cfg\<close> is the strict decoding of the first YAML document into \<open>cfg\<close>,
  \<open>ce_Next\<close> the result of decoding once more: the end of the input, an error, or
  another document.
\<close>

datatype yaml_next = YamlEOF | YamlError error | YamlDocument

record config_env =
  ce_ReadFile :: "string \<Rightarrow> error + string"
  ce_Decode :: "string \<Rightarrow> Config \<Rightarrow> error + Config"
  ce_Next :: "string \<Rightarrow> yaml_next"
  ce_Getenv :: "string \<Rightarrow> string"

section \<open>Validation\<close>

definition resolveEnvRef :: "(string \<Rightarrow> string) \<Rightarrow> string \<Rightarrow> string \<Rightarrow> error + string" where
  "resolveEnvRef getenv field val = (case CutPrefix val ''env:'' of
      None \<Rightarrow> Inr val
    | Some v \<Rightarrow>
        let key = getenv v
        in if key = '''' then Inl (NewError (field @ '' env var '' @ quoted v @ '' is not set'')) else Inr key)"

definition isLoopbackListen :: "string \<Rightarrow> bool" where
  "isLoopbackListen listen = (case SplitHostPort listen of
      None \<Rightarrow> False
    | Some host \<Rightarrow>
        if host = ''localhost'' then True
        else case ParseIP host of None \<Rightarrow> False | Some ip \<Rightarrow> IsLoopback ip)"

definition validateSecretsKey :: "string \<Rightarrow> error option" where
  "validateSecretsKey val = (case base64_decode val of
      None \<Rightarrow> Some (Wrap ''secretsKey must be valid base64: '' (NewError ''illegal base64 data''))
    | Some decoded \<Rightarrow>
        if length decoded \<noteq> secretsKeyBytes
        then Some (NewError (''secretsKey must decode to '' @ Itoa (int secretsKeyBytes) @ '' bytes'')) else None)"

definition key_field :: "nat \<Rightarrow> string \<Rightarrow> string" where
  "key_field i name = ''signingKeys['' @ Itoa (int i) @ ''].'' @ name"

text \<open>
  The loop over the keys: \<open>i\<close> is the index, \<open>done\<close> the entries already resolved (the loop
  writes them back in place), whose IDs are the keys of \<^verbatim>\<open>seen\<close>.
\<close>

fun resolveSigningKeys_loop ::
  "(string \<Rightarrow> string) \<Rightarrow> string \<Rightarrow> nat \<Rightarrow> string list \<Rightarrow> bool \<Rightarrow> SigningKey list \<Rightarrow> SigningKey list \<Rightarrow>
     error + SigningKey list \<times> bool" where
  "resolveSigningKeys_loop getenv active i seen foundActive resolved [] = Inr (resolved, foundActive)"
| "resolveSigningKeys_loop getenv active i seen foundActive resolved (key # keys) =
     (if sk_ID key = '''' then Inl (NewError (key_field i ''id is required''))
      else if sk_ID key \<in> set seen then Inl (NewError (''duplicate signing key ID '' @ quoted (sk_ID key)))
      else case resolveEnvRef getenv (key_field i ''key'') (sk_Key key) of
        Inl err \<Rightarrow> Inl err
      | Inr r \<Rightarrow>
          if length r < minimumSigningKeyBytes
          then Inl (NewError (key_field i (''key must be at least '' @ Itoa (int minimumSigningKeyBytes) @ '' bytes'')))
          else resolveSigningKeys_loop getenv active (Suc i) (sk_ID key # seen) (foundActive \<or> sk_ID key = active)
            (resolved @ [key\<lparr>sk_Key := r\<rparr>]) keys)"

definition resolveSigningKeys :: "(string \<Rightarrow> string) \<Rightarrow> Config \<Rightarrow> error + Config" where
  "resolveSigningKeys getenv c =
     (if cfg_SigningKeys c = [] then Inl (NewError ''at least one signingKey is required'')
      else if cfg_ActiveSigningKey c = '''' then Inl (NewError ''activeSigningKey is required'')
      else case resolveSigningKeys_loop getenv (cfg_ActiveSigningKey c) 0 [] False [] (cfg_SigningKeys c) of
        Inl err \<Rightarrow> Inl err
      | Inr (keys, foundActive) \<Rightarrow>
          if \<not> foundActive
          then Inl (NewError (''activeSigningKey '' @ quoted (cfg_ActiveSigningKey c) @ '' is not configured''))
          else Inr (c\<lparr>cfg_SigningKeys := keys\<rparr>))"

text \<open>The texts of the errors of package \<^verbatim>\<open>authz\<close>.\<close>

fun rule_error_text :: "rule_error \<Rightarrow> string" where
  "rule_error_text NoRules = ''at least one authorization rule is required when noAuth is false''"
| "rule_error_text (FieldRequired i f) = ''authorization['' @ Itoa (int i) @ ''].'' @ f @ '' is required''"
| "rule_error_text (FieldEmptyValue i f) = ''authorization['' @ Itoa (int i) @ ''].'' @ f @ '' contains an empty value''"
| "rule_error_text (GroupWildcard i f) = ''authorization['' @ Itoa (int i) @ ''].'' @ f @ '' must name an explicit group''"
| "rule_error_text (ActionsRequired i) = ''authorization['' @ Itoa (int i) @ ''].actions is required''"
| "rule_error_text (UnsupportedAction i a) =
     ''authorization['' @ Itoa (int i) @ ''].actions contains unsupported action '' @ quoted a"

text \<open>The checks before the keys are resolved, and those after.\<close>

definition validate_mode :: "Config \<Rightarrow> error option" where
  "validate_mode c =
     (if \<not> cfg_NoAuth c \<and> cfg_Issuer c = '''' then Some (NewError ''issuer is required'')
      else if \<not> cfg_NoAuth c \<and> cfg_ClientID c = '''' then Some (NewError ''clientId is required'')
      else if \<not> cfg_NoAuth c \<and> cfg_ClientID c = ''replace-with-client-id''
      then Some (NewError ''clientId must not be a placeholder'')
      else if cfg_NoAuth c \<and> \<not> isLoopbackListen (cfg_Listen c)
      then Some (NewError ''noAuth requires a loopback listen address'')
      else None)"

definition validate_rest :: "(nat \<Rightarrow> string list) \<Rightarrow> Config \<Rightarrow> error option" where
  "validate_rest order c = (case (if cfg_NoAuth c then None else ValidateRules order (cfg_Authorization c)) of
      Some err \<Rightarrow> Some (Wrap ''authorization: '' (NewError (rule_error_text err)))
    | None \<Rightarrow>
        if cfg_Bucket c = '''' then Some (NewError ''bucket is required'')
        else if cfg_Region c = '''' then Some (NewError ''region is required'')
        else if cfg_TokenTTL c < 2 * second then Some (NewError ''tokenTTL must be at least 2s'')
        else if cfg_LeaseDuration c < 5 * minute then Some (NewError ''leaseDuration must be at least 5m'')
        else None)"

definition validate :: "(nat \<Rightarrow> string list) \<Rightarrow> (string \<Rightarrow> string) \<Rightarrow> Config \<Rightarrow> error + Config" where
  "validate order getenv c = (case validate_mode c of
      Some err \<Rightarrow> Inl err
    | None \<Rightarrow> (case resolveSigningKeys getenv c of
        Inl err \<Rightarrow> Inl err
      | Inr c1 \<Rightarrow>
          if cfg_SecretsKey c1 = '''' then Inl (NewError ''secretsKey is required'')
          else case resolveEnvRef getenv ''secretsKey'' (cfg_SecretsKey c1) of
            Inl err \<Rightarrow> Inl err
          | Inr key \<Rightarrow>
              let c2 = c1\<lparr>cfg_SecretsKey := key\<rparr>
              in case validateSecretsKey key of
                   Some err \<Rightarrow> Inl err
                 | None \<Rightarrow> (case validate_rest order c2 of Some err \<Rightarrow> Inl err | None \<Rightarrow> Inr c2)))"

definition default_config :: Config where
  "default_config = \<lparr>cfg_NoAuth = False, cfg_Issuer = '''', cfg_ClientID = '''', cfg_SigningKeys = [],
     cfg_ActiveSigningKey = '''', cfg_SecretsKey = '''', cfg_Authorization = [], cfg_Listen = '':8080'',
     cfg_TokenTTL = 24 * hour, cfg_LeaseDuration = 5 * minute, cfg_Bucket = '''', cfg_Region = ''''\<rparr>"

definition Load :: "config_env \<Rightarrow> (nat \<Rightarrow> string list) \<Rightarrow> string \<Rightarrow> error + Config" where
  "Load env order path = (case ce_ReadFile env path of
      Inl err \<Rightarrow> Inl (Wrap ''read config: '' err)
    | Inr raw \<Rightarrow> (case ce_Decode env raw default_config of
        Inl err \<Rightarrow> Inl (Wrap ''parse config: '' err)
      | Inr cfg \<Rightarrow> (case ce_Next env raw of
          YamlError err \<Rightarrow> Inl (Wrap ''parse config: '' err)
        | YamlDocument \<Rightarrow> Inl (NewError ''parse config: multiple YAML documents are not supported'')
        | YamlEOF \<Rightarrow> validate order (ce_Getenv env)
            (if cfg_Listen cfg = '''' then cfg\<lparr>cfg_Listen := '':8080''\<rparr> else cfg))))"

section \<open>What is accepted\<close>

text \<open>The value that a setting stands for, if its environment variable is set.\<close>

definition resolved :: "(string \<Rightarrow> string) \<Rightarrow> string \<Rightarrow> string option" where
  "resolved getenv v = (case CutPrefix v ''env:'' of
      None \<Rightarrow> Some v
    | Some name \<Rightarrow> if getenv name = '''' then None else Some (getenv name))"

lemma resolveEnvRef_iff: "resolveEnvRef getenv field v = Inr r \<longleftrightarrow> resolved getenv v = Some r"
  by (auto simp: resolveEnvRef_def resolved_def Let_def split: option.splits)

definition usable_key :: "(string \<Rightarrow> string) \<Rightarrow> SigningKey \<Rightarrow> bool" where
  "usable_key getenv k \<longleftrightarrow> sk_ID k \<noteq> '''' \<and> (\<exists>r. resolved getenv (sk_Key k) = Some r \<and> 32 \<le> length r)"

definition resolve_key :: "(string \<Rightarrow> string) \<Rightarrow> SigningKey \<Rightarrow> SigningKey" where
  "resolve_key getenv k = k\<lparr>sk_Key := the (resolved getenv (sk_Key k))\<rparr>"

lemma resolveSigningKeys_loop_iff:
  "resolveSigningKeys_loop getenv active i seen found acc keys = Inr (keys', found') \<longleftrightarrow>
     (\<forall>k \<in> set keys. usable_key getenv k) \<and> distinct (map sk_ID keys) \<and> set (map sk_ID keys) \<inter> set seen = {} \<and>
     keys' = acc @ map (resolve_key getenv) keys \<and> (found' \<longleftrightarrow> found \<or> active \<in> set (map sk_ID keys))"
proof (induction keys arbitrary: i seen found acc)
  case (Cons k keys)
  show ?case
  proof (cases "resolveEnvRef getenv (key_field i ''key'') (sk_Key k)")
    case (Inl e)
    then have "resolved getenv (sk_Key k) = None" using resolveEnvRef_iff [of getenv _ "sk_Key k"]
      by (metis Inl_Inr_False not_Some_eq)
    then show ?thesis by (simp add: Inl usable_key_def)
  next
    case (Inr r)
    then have r: "resolved getenv (sk_Key k) = Some r" by (simp add: resolveEnvRef_iff)
    show ?thesis
    proof (cases "length r < 32")
      case True
      then show ?thesis by (simp add: Inr r usable_key_def minimumSigningKeyBytes_def)
    next
      case False
      then show ?thesis
        by (auto simp: Inr r Cons.IH usable_key_def resolve_key_def minimumSigningKeyBytes_def)
    qed
  qed
qed auto

definition usable_keys :: "(string \<Rightarrow> string) \<Rightarrow> Config \<Rightarrow> bool" where
  "usable_keys getenv c \<longleftrightarrow> (\<forall>k \<in> set (cfg_SigningKeys c). usable_key getenv k) \<and>
     distinct (map sk_ID (cfg_SigningKeys c)) \<and> cfg_ActiveSigningKey c \<in> set (map sk_ID (cfg_SigningKeys c))"

lemma resolveSigningKeys_iff:
  "resolveSigningKeys getenv c = Inr c' \<longleftrightarrow> usable_keys getenv c \<and>
     c' = c\<lparr>cfg_SigningKeys := map (resolve_key getenv) (cfg_SigningKeys c)\<rparr>"
proof (cases "resolveSigningKeys_loop getenv (cfg_ActiveSigningKey c) 0 [] False [] (cfg_SigningKeys c)")
  case (Inl e)
  then have "\<not> usable_keys getenv c"
    using resolveSigningKeys_loop_iff [of getenv "cfg_ActiveSigningKey c" 0 "[]" False "[]" "cfg_SigningKeys c" _ True]
    by (auto simp: usable_keys_def)
  with Inl show ?thesis by (simp add: resolveSigningKeys_def)
next
  case (Inr r)
  then obtain keys' found where loop: "resolveSigningKeys_loop getenv (cfg_ActiveSigningKey c) 0 [] False []
      (cfg_SigningKeys c) = Inr (keys', found)" by (cases r) auto
  then have *: "(\<forall>k \<in> set (cfg_SigningKeys c). usable_key getenv k)" "distinct (map sk_ID (cfg_SigningKeys c))"
    "keys' = map (resolve_key getenv) (cfg_SigningKeys c)"
    "found \<longleftrightarrow> cfg_ActiveSigningKey c \<in> set (map sk_ID (cfg_SigningKeys c))"
    by (simp_all add: resolveSigningKeys_loop_iff)
  have "cfg_SigningKeys c \<noteq> [] \<and> cfg_ActiveSigningKey c \<noteq> ''''" if found
    using that * by (auto simp: usable_key_def)
  then show ?thesis
    using * by (auto simp: resolveSigningKeys_def loop usable_keys_def)
qed

lemma validateSecretsKey_iff: "validateSecretsKey s = None \<longleftrightarrow> (\<exists>key. base64_decode s = Some key \<and> length key = 32)"
  by (auto simp: validateSecretsKey_def secretsKeyBytes_def split: option.splits)

lemma base64_decode_empty: "base64_decode '''' = Some ''''"
  by (simp add: base64_decode_def)
lemma validate_mode_iff: "validate_mode c = None \<longleftrightarrow>
     (if cfg_NoAuth c then isLoopbackListen (cfg_Listen c)
      else cfg_Issuer c \<noteq> '''' \<and> cfg_ClientID c \<noteq> '''' \<and> cfg_ClientID c \<noteq> ''replace-with-client-id'')"
  by (simp add: validate_mode_def)

lemma validate_rest_iff:
  assumes "\<And>i. scope_order (order i)"
  shows "validate_rest order c = None \<longleftrightarrow>
     (cfg_NoAuth c \<or> cfg_Authorization c \<noteq> [] \<and> (\<forall>rule \<in> set (cfg_Authorization c). valid_rule rule)) \<and>
     cfg_Bucket c \<noteq> '''' \<and> cfg_Region c \<noteq> '''' \<and> 2 * second \<le> cfg_TokenTTL c \<and> 5 * minute \<le> cfg_LeaseDuration c"
proof -
  have "ValidateRules order (cfg_Authorization c) = None \<longleftrightarrow>
      cfg_Authorization c \<noteq> [] \<and> (\<forall>rule \<in> set (cfg_Authorization c). valid_rule rule)"
    by (simp add: ValidateRules_def ValidateRules_loop_None_iff [OF assms])
  then show ?thesis
    by (cases "ValidateRules order (cfg_Authorization c)")
      (auto simp: validate_rest_def not_less)
qed

lemma validate_chain:
  "validate order getenv c = Inr c' \<longleftrightarrow> validate_mode c = None \<and> usable_keys getenv c \<and>
     (\<exists>val. resolved getenv (cfg_SecretsKey c) = Some val \<and> validateSecretsKey val = None \<and>
       c' = c\<lparr>cfg_SigningKeys := map (resolve_key getenv) (cfg_SigningKeys c), cfg_SecretsKey := val\<rparr>) \<and>
     validate_rest order c' = None"
proof (cases "resolveSigningKeys getenv c")
  case (Inl e)
  then have "\<not> usable_keys getenv c" using resolveSigningKeys_iff [of getenv c] by (metis Inl_Inr_False)
  with Inl show ?thesis by (auto simp: validate_def split: option.splits)
next
  case (Inr c1)
  then have c1: "usable_keys getenv c" "c1 = c\<lparr>cfg_SigningKeys := map (resolve_key getenv) (cfg_SigningKeys c)\<rparr>"
    by (simp_all add: resolveSigningKeys_iff)
  have empty: "validateSecretsKey '''' \<noteq> None" by (simp add: validateSecretsKey_iff base64_decode_empty)
  have resolved_empty: "resolved getenv '''' = Some ''''" by (simp add: resolved_def CutPrefix_def HasPrefix_def)
  show ?thesis
  proof (cases "resolveEnvRef getenv ''secretsKey'' (cfg_SecretsKey c)")
    case (Inl e)
    then have "resolved getenv (cfg_SecretsKey c) = None"
      using resolveEnvRef_iff [of getenv _ "cfg_SecretsKey c"] by (metis Inl_Inr_False not_Some_eq)
    with Inl Inr c1 show ?thesis by (auto simp: validate_def split: option.splits)
  next
    case (Inr val)
    then have val: "resolved getenv (cfg_SecretsKey c) = Some val" by (simp add: resolveEnvRef_iff)
    have "cfg_SecretsKey c = '''' \<Longrightarrow> val = ''''" using val resolved_empty by simp
    then show ?thesis
      using Inr \<open>resolveSigningKeys getenv c = Inr c1\<close> c1 val empty
      by (cases "cfg_SecretsKey c = ''''")
        (auto simp: validate_def Let_def split: option.splits)
  qed
qed

lemma validate_rest_keys:
  "validate_rest order (c\<lparr>cfg_SigningKeys := keys, cfg_SecretsKey := secret\<rparr>) = validate_rest order c"
  by (simp add: validate_rest_def)

text \<open>
  C36. What the start-up validation guarantees. \<^verbatim>\<open>validate\<close> accepts a configuration exactly when
  local mode listens on a loopback address, or else the identity provider and a complete set of
  rules are configured; when the key ring has distinct named keys of at least 32 bytes with the
  active one among them; when the secrets key decodes to 32 bytes; and when bucket, region and
  the two durations are set. It returns the configuration with environment references replaced.
\<close>

theorem validate_accepts_iff:
  assumes "\<And>i. scope_order (order i)"
  shows "validate order getenv c = Inr c' \<longleftrightarrow>
     (if cfg_NoAuth c then isLoopbackListen (cfg_Listen c)
      else cfg_Issuer c \<noteq> '''' \<and> cfg_ClientID c \<noteq> '''' \<and> cfg_ClientID c \<noteq> ''replace-with-client-id'' \<and>
        cfg_Authorization c \<noteq> [] \<and> (\<forall>rule \<in> set (cfg_Authorization c). valid_rule rule)) \<and>
     (\<forall>k \<in> set (cfg_SigningKeys c). sk_ID k \<noteq> '''' \<and> (\<exists>key. resolved getenv (sk_Key k) = Some key \<and> 32 \<le> length key)) \<and>
     distinct (map sk_ID (cfg_SigningKeys c)) \<and> cfg_ActiveSigningKey c \<in> set (map sk_ID (cfg_SigningKeys c)) \<and>
     (\<exists>val root. resolved getenv (cfg_SecretsKey c) = Some val \<and> base64_decode val = Some root \<and> length root = 32) \<and>
     cfg_Bucket c \<noteq> '''' \<and> cfg_Region c \<noteq> '''' \<and> 2 * second \<le> cfg_TokenTTL c \<and> 5 * minute \<le> cfg_LeaseDuration c \<and>
     c' = c\<lparr>cfg_SigningKeys := map (\<lambda>k. k\<lparr>sk_Key := the (resolved getenv (sk_Key k))\<rparr>) (cfg_SigningKeys c),
       cfg_SecretsKey := the (resolved getenv (cfg_SecretsKey c))\<rparr>"
proof -
  have shuffle: "(V \<longleftrightarrow> M \<and> K \<and> S \<and> E \<and> R \<and> B) \<Longrightarrow> (M \<and> R \<longleftrightarrow> MR) \<Longrightarrow> (V \<longleftrightarrow> MR \<and> K \<and> S \<and> B \<and> E)"
    for V M K S E R B MR by blast
  have keys: "resolve_key getenv = (\<lambda>k. k\<lparr>sk_Key := the (resolved getenv (sk_Key k))\<rparr>)"
    by (simp add: resolve_key_def fun_eq_iff)
  have chain: "validate order getenv c = Inr c' \<longleftrightarrow> validate_mode c = None \<and> usable_keys getenv c \<and>
     (\<exists>val root. resolved getenv (cfg_SecretsKey c) = Some val \<and> base64_decode val = Some root \<and> length root = 32) \<and>
     c' = c\<lparr>cfg_SigningKeys := map (resolve_key getenv) (cfg_SigningKeys c),
       cfg_SecretsKey := the (resolved getenv (cfg_SecretsKey c))\<rparr> \<and> validate_rest order c = None"
    unfolding validate_chain validateSecretsKey_iff
    by (rule iffI; elim conjE exE; simp add: validate_rest_keys)
  have mode: "(if cfg_NoAuth c then isLoopbackListen (cfg_Listen c)
      else cfg_Issuer c \<noteq> '''' \<and> cfg_ClientID c \<noteq> '''' \<and> cfg_ClientID c \<noteq> ''replace-with-client-id'') \<and>
     (cfg_NoAuth c \<or> cfg_Authorization c \<noteq> [] \<and> (\<forall>rule \<in> set (cfg_Authorization c). valid_rule rule)) \<longleftrightarrow>
     (if cfg_NoAuth c then isLoopbackListen (cfg_Listen c)
      else cfg_Issuer c \<noteq> '''' \<and> cfg_ClientID c \<noteq> '''' \<and> cfg_ClientID c \<noteq> ''replace-with-client-id'' \<and>
        cfg_Authorization c \<noteq> [] \<and> (\<forall>rule \<in> set (cfg_Authorization c). valid_rule rule))"
    by (cases "cfg_NoAuth c") (simp_all only: simp_thms if_True if_False conj_assoc)
  show ?thesis
    using shuffle [OF chain [unfolded validate_mode_iff validate_rest_iff [OF assms] keys] mode]
    unfolding usable_keys_def usable_key_def conj_assoc .
qed

text \<open>A configuration for local development.\<close>

definition local_config :: Config where
  "local_config = default_config\<lparr>cfg_NoAuth := True, cfg_Listen := ''127.0.0.1:8080'',
     cfg_SigningKeys := [\<lparr>sk_ID = ''k1'', sk_Key = ''env:KEY''\<rparr>], cfg_ActiveSigningKey := ''k1'',
     cfg_SecretsKey := base64_encode (replicate 32 CHR ''s''), cfg_Bucket := ''b'', cfg_Region := ''r''\<rparr>"

definition local_getenv :: "string \<Rightarrow> string" where
  "local_getenv name = (if name = ''KEY'' then replicate 32 CHR ''k'' else '''')"

lemma local_listen: "isLoopbackListen ''127.0.0.1:8080''"
  by code_simp

lemma local_secret: "resolved getenv (base64_encode (replicate 32 CHR ''s'')) = Some (base64_encode (replicate 32 CHR ''s''))"
proof -
  have "HasPrefix (base64_encode (replicate 32 CHR ''s'')) ''env:'' = False" by code_simp
  then show ?thesis by (simp add: resolved_def CutPrefix_def)
qed

theorem validate_accepts_iff_witness:
  "validate (\<lambda>_. [''organizations'', ''projects'', ''stacks'']) local_getenv local_config =
     Inr (local_config\<lparr>cfg_SigningKeys := [\<lparr>sk_ID = ''k1'', sk_Key = replicate 32 CHR ''k''\<rparr>]\<rparr>)"
proof -
  have order: "\<And>i :: nat. scope_order ((\<lambda>_. [''organizations'', ''projects'', ''stacks'']) i)"
    by (auto simp: scope_order_def)
  have "resolved local_getenv ''env:KEY'' = Some (replicate 32 CHR ''k'')"
    by (simp add: resolved_def CutPrefix_def HasPrefix_def local_getenv_def)
  then show ?thesis
    using local_listen local_secret [of local_getenv]
    by (subst validate_accepts_iff [OF order])
      (simp add: local_config_def default_config_def)
qed

section \<open>Loopback addresses\<close>

lemma ParseIP_mapped: "ParseIP ''::ffff:127.0.0.1'' = Some (replicate 10 0 @ [255, 255, 127, 0, 0, 1])"
proof -
  have v4: "parseIPv4Fields ''127.0.0.1'' = Some [127, 0, 0, 1]" by code_simp
  have n: "hex_number ''ffff'' div 256 = 255" "hex_number ''ffff'' mod 256 = 255" by (simp_all add: hex_number_def hex_val_def)
  have eight: "(8 :: nat) = Suc (Suc 6)" by simp
  have tw: "takeWhile is_hex ''ffff:127.0.0.1'' = ''ffff''" "dropWhile is_hex ''ffff:127.0.0.1'' = '':127.0.0.1''"
    "takeWhile is_hex ''127.0.0.1'' = ''127''" "dropWhile is_hex ''127.0.0.1'' = ''.0.0.1''" by code_simp+
  have "parseIPv6_loop 8 ''ffff:127.0.0.1'' [] (Some 0) = Some ([255, 255, 127, 0, 0, 1], Some 0)"
    unfolding eight parseIPv6_loop.simps Let_def tw n by (simp add: v4 is_hex_def hex_val_def)
  then show ?thesis by (simp add: ParseIP_def parseIPv6_def HasPrefix_def)
qed

lemma mapped_listen: "isLoopbackListen ''[::ffff:127.0.0.1]:8080''"
proof -
  have "SplitHostPort ''[::ffff:127.0.0.1]:8080'' = Some ''::ffff:127.0.0.1''" by code_simp
  then show ?thesis by (simp add: isLoopbackListen_def ParseIP_mapped IsLoopback_def nth_append)
qed

text \<open>
  C37. Local mode stays local. The listen addresses that are accepted for local mode are exactly
  the pairs of a loopback host and a port: \<^verbatim>\<open>localhost\<close> or an address of 127.0.0.0/8 in plain text,
  or, in brackets, these or a text of the IPv6 loopback address or of an IPv4-mapped
  address of 127.0.0.0/8. So every other host name, the empty host of the default address
  and the unspecified addresses, which listen on all interfaces, are refused.
\<close>

theorem loopback_listen:
  "(isLoopbackListen listen \<longleftrightarrow> (\<exists>host port. host_port listen host port \<and> loopback_host host)) \<and>
   isLoopbackListen ''localhost:8080'' \<and> isLoopbackListen ''127.0.0.1:8080'' \<and> isLoopbackListen ''[::1]:8080'' \<and>
   isLoopbackListen ''[0:0:0:0:0:0:0:1]:8080'' \<and> isLoopbackListen ''[::ffff:127.0.0.1]:8080'' \<and>
   \<not> isLoopbackListen '':8080'' \<and> \<not> isLoopbackListen ''0.0.0.0:8080'' \<and> \<not> isLoopbackListen ''[::]:8080'' \<and>
   \<not> isLoopbackListen ''example.com:8080'' \<and> \<not> isLoopbackListen ''127.0.0.01:8080'' \<and> \<not> isLoopbackListen ''localhost''"
proof -
  have host: "(host = ''localhost'' \<or> (\<exists>ip. ParseIP host = Some ip \<and> IsLoopback ip)) \<longleftrightarrow> loopback_host host" for host
  proof (cases "CHR '':'' \<in> set host")
    case True
    have "IsLoopback ip \<longleftrightarrow> ip = replicate 15 0 @ [1] \<or> (\<exists>b c d. ip = replicate 10 0 @ [255, 255, 127, b, c, d])"
      if "ParseIP host = Some ip" for ip
      using ParseIP_bytes [OF that] by (intro IsLoopback_iff) simp
    moreover have "host \<noteq> dotted 127 b c d" for b c d
      using True dotted_chars [of "CHR '':''" 127 b c d] by (auto simp: is_digit_def)
    ultimately show ?thesis using True unfolding loopback_host_def by blast
  next
    case False
    have loop: "IsLoopback (replicate 10 0 @ [255, 255, a, b, c, d]) \<longleftrightarrow> a = 127" for a b c d
      by (simp add: IsLoopback_def nth_append)
    have "(\<exists>ip. ParseIP host = Some ip \<and> IsLoopback ip) \<longleftrightarrow> (\<exists>b c d. b < 256 \<and> c < 256 \<and> d < 256 \<and> host = dotted 127 b c d)"
    proof
      assume "\<exists>ip. ParseIP host = Some ip \<and> IsLoopback ip"
      then obtain a b c d where "b < 256 \<and> c < 256 \<and> d < 256 \<and> host = dotted a b c d"
        "IsLoopback (replicate 10 0 @ [255, 255, a, b, c, d])"
        unfolding ParseIP_plain_iff [OF False] by (elim exE conjE) simp
      then show "\<exists>b c d. b < 256 \<and> c < 256 \<and> d < 256 \<and> host = dotted 127 b c d"
        unfolding loop by (intro exI [of _ b] exI [of _ c] exI [of _ d]) simp
    next
      assume "\<exists>b c d. b < 256 \<and> c < 256 \<and> d < 256 \<and> host = dotted 127 b c d"
      then obtain b c d where "b < 256" "c < 256" "d < 256" "host = dotted 127 b c d" by blast
      with ParseIP_dotted [of 127 b c d] loop [of 127 b c d] show "\<exists>ip. ParseIP host = Some ip \<and> IsLoopback ip" by simp
    qed
    with False show ?thesis unfolding loopback_host_def by simp
  qed
  have "isLoopbackListen listen \<longleftrightarrow>
      (\<exists>host. SplitHostPort listen = Some host \<and> (host = ''localhost'' \<or> (\<exists>ip. ParseIP host = Some ip \<and> IsLoopback ip)))"
    by (auto simp: isLoopbackListen_def split: option.split)
  then have "isLoopbackListen listen \<longleftrightarrow> (\<exists>host port. host_port listen host port \<and> loopback_host host)"
    unfolding host SplitHostPort_iff by blast
  moreover have "isLoopbackListen ''localhost:8080''" "isLoopbackListen ''127.0.0.1:8080''" "isLoopbackListen ''[::1]:8080''"
    "isLoopbackListen ''[0:0:0:0:0:0:0:1]:8080''"
    "\<not> isLoopbackListen '':8080''" "\<not> isLoopbackListen ''0.0.0.0:8080''" "\<not> isLoopbackListen ''[::]:8080''"
    "\<not> isLoopbackListen ''example.com:8080''" "\<not> isLoopbackListen ''127.0.0.01:8080''" "\<not> isLoopbackListen ''localhost''"
    by code_simp+
  ultimately show ?thesis using mapped_listen by blast
qed

end
