(* ===== verification/Server.thy ===== *)
theory Server
  imports S3_Store Config
begin

text \<open>
  The HTTP layer that all endpoints share (\<^verbatim>\<open>internal/api/server.go\<close>): requests and responses,
  decoding of bodies, the mapping of errors to responses, validation of path segments and the
  authentication middleware. A handler is a function from the server and the request to a
  program that returns the response.

  A request is represented after \<^verbatim>\<open>net/http\<close> has parsed it; response headers and log output
  are not represented. Cancellation of a request is covered by the failures that the service
  may give to any request of the store.
\<close>

section \<open>Requests and responses\<close>

text \<open>
  What \<^verbatim>\<open>decodeBody\<close> finds in the body: whether a gzip header could be read (else, whether the
  failure was a \<^verbatim>\<open>MaxBytesError\<close>); the first JSON value, if the decoder finds one; whether the
  size limit was hit by then; whether nothing but white space follows; and whether the limit
  was hit at the end.
\<close>

datatype gzip_reader = GzipOk | GzipError bool

record req_body =
  rb_gzip :: gzip_reader
  rb_value :: "json option"
  rb_limit_value :: bool
  rb_eof :: bool
  rb_limit_end :: bool

text \<open>
  A request: the headers that are read, the parameters of the query, the values of the
  path's wildcards, the body, and the two values the middleware adds to the context.
\<close>

record request =
  rq_Authorization :: string
  rq_ContentEncoding :: string
  rq_Query :: "(string \<times> string) list"
  rq_PathValues :: "(string \<times> string) list"
  rq_Body :: req_body
  rq_Identity :: "Identity option"
  rq_UpdateClaims :: "UpdateClaims option"

definition lookup_or_empty :: "(string \<times> string) list \<Rightarrow> string \<Rightarrow> string" where
  "lookup_or_empty m name = (case map_of m name of None \<Rightarrow> '''' | Some v \<Rightarrow> v)"

definition PathValue :: "request \<Rightarrow> string \<Rightarrow> string" where
  "PathValue r = lookup_or_empty (rq_PathValues r)"

definition Query_Get :: "request \<Rightarrow> string \<Rightarrow> string" where
  "Query_Get r = lookup_or_empty (rq_Query r)"

datatype payload = NoBody | TextBody string | JSONBody json

record response =
  rs_Status :: nat
  rs_Body :: payload

definition WriteHeader :: "nat \<Rightarrow> response" where
  "WriteHeader status = \<lparr>rs_Status = status, rs_Body = NoBody\<rparr>"

definition writeJSON :: "nat \<Rightarrow> json \<Rightarrow> response" where
  "writeJSON status v = \<lparr>rs_Status = status, rs_Body = JSONBody v\<rparr>"

definition writeError :: "nat \<Rightarrow> string \<Rightarrow> response" where
  "writeError status message =
     writeJSON status (JObj [(''code'', JInt (int status)), (''message'', JStr message)])"

definition internalError :: "error \<Rightarrow> string \<Rightarrow> response" where
  "internalError err message = writeError 500 message"

text \<open>\<^verbatim>\<open>storeError\<close>; \<open>None\<close> is its result false.\<close>

definition storeError :: "error \<Rightarrow> response option" where
  "storeError err =
     (if errors_Is err ErrStackNotFound then Some (writeError 404 ''stack not found'')
      else if errors_Is err ErrStackExists then Some (writeError 409 ''stack already exists'')
      else if errors_Is err ErrUpdateNotFound then Some (writeError 404 ''update not found'')
      else if errors_Is err ErrCheckpointNotFound then Some (writeError 404 ''no checkpoint available'')
      else if errors_Is err ErrInvalidUpdateState \<or> errors_Is err ErrConcurrentMutation \<or> errors_Is err ErrNoLock
      then Some (writeError 409 (error_text err))
      else case errors_As_held err of
        Some held \<Rightarrow> Some (writeError 409 (''stack is locked by update '' @ l_UpdateID held))
      | None \<Rightarrow> None)"

definition writeStoreError :: "error \<Rightarrow> string \<Rightarrow> response" where
  "writeStoreError err message = (case storeError err of
      Some resp \<Rightarrow> resp
    | None \<Rightarrow> internalError err message)"

section \<open>Decoding of request bodies\<close>

datatype decode_error = RequestTooLarge | MaxBytesError | InvalidBody

text \<open>\<open>decode\<close> stands for the type of the argument \<^verbatim>\<open>v\<close>.\<close>

definition decodeBody :: "request \<Rightarrow> (json \<Rightarrow> 'a option) \<Rightarrow> decode_error + 'a" where
  "decodeBody r decode =
     (let body = rq_Body r
      in case (if rq_ContentEncoding r = ''gzip'' then rb_gzip body else GzipOk) of
           GzipError maxBytes \<Rightarrow> Inl (if maxBytes then MaxBytesError else InvalidBody)
         | GzipOk \<Rightarrow>
             (case Option.bind (rb_value body) decode of
                None \<Rightarrow> Inl (if rb_limit_value body then RequestTooLarge else InvalidBody)
              | Some v \<Rightarrow>
                  if \<not> rb_eof body then Inl (if rb_limit_end body then RequestTooLarge else InvalidBody)
                  else if rb_limit_end body then Inl RequestTooLarge
                  else Inr v))"

definition writeDecodeError :: "decode_error \<Rightarrow> string \<Rightarrow> response" where
  "writeDecodeError err message =
     (if err = RequestTooLarge \<or> err = MaxBytesError then writeError 413 ''request too large''
      else writeError 400 message)"

text \<open>\<^verbatim>\<open>json.RawMessage\<close>: \<open>None\<close> when the field is absent. A \<^verbatim>\<open>null\<close> is kept as a value.\<close>

definition dec_raw :: "json \<Rightarrow> json option \<Rightarrow> json option option" where
  "dec_raw j old = Some (Some j)"

text \<open>A slice of strings (nil is \<open>None\<close>): the elements are decoded over those that were there.\<close>

fun dec_string_elems :: "json list \<Rightarrow> string list \<Rightarrow> string list option" where
  "dec_string_elems [] old = Some []"
| "dec_string_elems (j # js) old =
     (case dec_string j (case old of [] \<Rightarrow> '''' | s # _ \<Rightarrow> s) of
        None \<Rightarrow> None
      | Some s \<Rightarrow> map_option (Cons s) (dec_string_elems js (case old of [] \<Rightarrow> [] | _ # ss \<Rightarrow> ss)))"

fun dec_strings :: "json \<Rightarrow> string list option \<Rightarrow> string list option option" where
  "dec_strings JNull old = Some None"
| "dec_strings (JArr js) old = map_option Some (dec_string_elems js (case old of None \<Rightarrow> [] | Some ss \<Rightarrow> ss))"
| "dec_strings _ old = None"

text \<open>A \<^verbatim>\<open>[]byte\<close>: base64 in a string, or an array of numbers; \<^verbatim>\<open>null\<close> is nil.\<close>

fun dec_byte :: "json \<Rightarrow> char option" where
  "dec_byte (JInt n) = (if 0 \<le> n \<and> n < 256 then Some (char_of n) else None)"
| "dec_byte JNull = Some (char_of (0 :: nat))"
| "dec_byte _ = None"

fun dec_bytes :: "json \<Rightarrow> string option" where
  "dec_bytes JNull = Some ''''"
| "dec_bytes (JStr s) = base64_decode s"
| "dec_bytes (JArr js) = those (map dec_byte js)"
| "dec_bytes _ = None"

fun dec_bytes_list :: "json \<Rightarrow> string list option" where
  "dec_bytes_list JNull = Some []"
| "dec_bytes_list (JArr js) = those (map dec_bytes js)"
| "dec_bytes_list _ = None"

section \<open>Path segments\<close>

text \<open>
  UTF-8 as package \<^verbatim>\<open>utf8\<close> decodes it: the first rune of a text and what follows it. Overlong
  forms, surrogates and code points above 10FFFF are not well-formed.
\<close>

definition cont_byte :: "nat \<Rightarrow> bool" where
  "cont_byte b \<longleftrightarrow> 128 \<le> b \<and> b \<le> 191"

fun utf8_first :: "nat list \<Rightarrow> (nat \<times> nat list) option" where
  "utf8_first [] = None"
| "utf8_first (a # s) =
     (if a < 128 then Some (a, s)
      else if 194 \<le> a \<and> a \<le> 223 then
        (case s of
           b # rest \<Rightarrow> if cont_byte b then Some ((a - 192) * 64 + (b - 128), rest) else None
         | _ \<Rightarrow> None)
      else if 224 \<le> a \<and> a \<le> 239 then
        (case s of
           b # c # rest \<Rightarrow>
             if cont_byte b \<and> cont_byte c \<and> (a = 224 \<longrightarrow> 160 \<le> b) \<and> (a = 237 \<longrightarrow> b \<le> 159)
             then Some ((a - 224) * 4096 + (b - 128) * 64 + (c - 128), rest) else None
         | _ \<Rightarrow> None)
      else if 240 \<le> a \<and> a \<le> 244 then
        (case s of
           b # c # d # rest \<Rightarrow>
             if cont_byte b \<and> cont_byte c \<and> cont_byte d \<and> (a = 240 \<longrightarrow> 144 \<le> b) \<and> (a = 244 \<longrightarrow> b \<le> 143)
             then Some ((a - 240) * 262144 + (b - 128) * 4096 + (c - 128) * 64 + (d - 128), rest) else None
         | _ \<Rightarrow> None)
      else None)"

lemma utf8_first_split:
  "utf8_first bs = Some (rune, rest) \<Longrightarrow>
     \<exists>pre. bs = pre @ rest \<and> pre \<noteq> [] \<and> (pre = [rune] \<or> (\<forall>b \<in> set pre. 128 \<le> b))"
proof (cases bs)
  case (Cons a s)
  assume "utf8_first bs = Some (rune, rest)"
  then show ?thesis
    unfolding Cons by (auto simp: cont_byte_def split: if_splits list.splits)
qed simp

text \<open>The runes of a text; \<open>None\<close> when \<^verbatim>\<open>utf8.ValidString\<close> is false.\<close>

function utf8_runes :: "nat list \<Rightarrow> nat list option" where
  "utf8_runes bs = (if bs = [] then Some [] else case utf8_first bs of
      None \<Rightarrow> None
    | Some (rune, rest) \<Rightarrow> map_option (Cons rune) (utf8_runes rest))"
  by pat_completeness auto
termination
  by (relation "measure length") (auto dest!: utf8_first_split)

declare utf8_runes.simps [simp del]

definition IsControl :: "nat \<Rightarrow> bool" where
  "IsControl rune \<longleftrightarrow> rune < 32 \<or> 127 \<le> rune \<and> rune < 160"

definition validStorageSegment :: "string \<Rightarrow> bool" where
  "validStorageSegment val =
     (if val = '''' \<or> val = ''.'' \<or> val = ''..'' then False
      else case utf8_runes (map of_char val) of
        None \<Rightarrow> False
      | Some runes \<Rightarrow>
          if CHR ''/'' \<in> set val \<or> CHR 0x5C \<in> set val then False
          else \<not> list_ex IsControl runes)"

fun validRouteScope_loop :: "request \<Rightarrow> string list \<Rightarrow> bool" where
  "validRouteScope_loop r [] = True"
| "validRouteScope_loop r (name # names) =
     (let val = PathValue r name
      in if val \<noteq> '''' \<and> \<not> validStorageSegment val then False else validRouteScope_loop r names)"

definition validRouteScope :: "request \<Rightarrow> bool" where
  "validRouteScope r = validRouteScope_loop r [''org'', ''project'', ''stack'', ''updateID'']"

definition validUpdateKind :: "string \<Rightarrow> bool" where
  "validUpdateKind kind \<longleftrightarrow> kind \<in> {''update'', ''preview'', ''refresh'', ''destroy''}"

section \<open>The Authorization header\<close>

text \<open>\<^verbatim>\<open>strings.TrimSpace\<close>: the UTF-8 texts of the Unicode white space characters.\<close>

definition space_texts :: "string list" where
  "space_texts = map (map char_of) ([[9], [10], [11], [12], [13], [32], [194, 133], [194, 160], [225, 154, 128]] @
     map (\<lambda>b. [226, 128, b]) [128..<139] @
     [[226, 128, 168], [226, 128, 169], [226, 128, 175], [226, 129, 159], [227, 128, 128 :: nat]])"

definition strip_one :: "string list \<Rightarrow> string \<Rightarrow> string option" where
  "strip_one ps s = (case filter (HasPrefix s) ps of [] \<Rightarrow> None | p # _ \<Rightarrow> Some (drop (length p) s))"

function trim_left :: "string list \<Rightarrow> string \<Rightarrow> string" where
  "trim_left ps s = (case strip_one ps s of
      None \<Rightarrow> s
    | Some t \<Rightarrow> if length t < length s then trim_left ps t else s)"
  by pat_completeness auto
termination
  by (relation "measure (\<lambda>(ps, s). length s)") auto

declare trim_left.simps [simp del]

definition TrimSpace :: "string \<Rightarrow> string" where
  "TrimSpace s = rev (trim_left (map rev space_texts) (rev (trim_left space_texts s)))"

text \<open>\<^verbatim>\<open>strings.SplitN(s, " ", 2)\<close>, when the separator occurs.\<close>

definition split_space :: "string \<Rightarrow> (string \<times> string) option" where
  "split_space s = (case index_byte CHR '' '' s of
      None \<Rightarrow> None
    | Some i \<Rightarrow> Some (take i s, drop (Suc i) s))"

definition authorizationToken :: "string \<Rightarrow> string \<times> string" where
  "authorizationToken header = (case split_space (TrimSpace header) of
      None \<Rightarrow> ('''', '''')
    | Some (scheme, rest) \<Rightarrow>
        if scheme = ''update-token'' \<or> scheme = ''token'' \<or> scheme = ''Bearer'' then (scheme, TrimSpace rest)
        else ('''', ''''))"

section \<open>The server\<close>

text \<open>
  The interface \<^verbatim>\<open>Crypter\<close>, and the server's components. The last three fields are the
  library functions that the handlers reach: the JWT library, SHA-256 of a deployment's text
  and of a credential, in hexadecimal.
\<close>

record crypter =
  cr_Encrypt :: "string \<Rightarrow> string \<Rightarrow> string \<Rightarrow> string \<Rightarrow> (error + string) prog"
  cr_Decrypt :: "string \<Rightarrow> string \<Rightarrow> string \<Rightarrow> string \<Rightarrow> error + string"

record Server =
  sv_cfg :: Config
  sv_issuer :: TokenIssuer
  sv_oidc :: "string \<Rightarrow> error + Identity"
  sv_crypter :: "crypter option"
  sv_authz :: authorizer
  sv_jwt :: jwt_lib
  sv_sha :: "json \<Rightarrow> string"
  sv_sha256hex :: "string \<Rightarrow> string"

definition NewServer ::
  "Config \<Rightarrow> TokenIssuer \<Rightarrow> (string \<Rightarrow> error + Identity) \<Rightarrow> crypter option \<Rightarrow>
     jwt_lib \<Rightarrow> (json \<Rightarrow> string) \<Rightarrow> (string \<Rightarrow> string) \<Rightarrow> Server" where
  "NewServer cfg issuer oidc crypter J sha sha256hex = \<lparr>sv_cfg = cfg, sv_issuer = issuer, sv_oidc = oidc,
     sv_crypter = crypter, sv_authz = New (cfg_Authorization cfg), sv_jwt = J, sv_sha = sha,
     sv_sha256hex = sha256hex\<rparr>"

type_synonym handler_func = "Server \<Rightarrow> request \<Rightarrow> response prog"

abbreviation NoAuth :: "Server \<Rightarrow> bool" where
  "NoAuth s \<equiv> cfg_NoAuth (sv_cfg s)"

abbreviation LeaseDuration :: "Server \<Rightarrow> duration" where
  "LeaseDuration s \<equiv> cfg_LeaseDuration (sv_cfg s)"

text \<open>\<^verbatim>\<open>s.identity(r)\<close>; the zero identity if none was stored.\<close>

definition zero_identity :: Identity where
  "zero_identity = \<lparr>id_Issuer = '''', id_Subject = '''', id_Username = '''', id_Groups = []\<rparr>"

definition identity :: "request \<Rightarrow> Identity" where
  "identity r = (case rq_Identity r of None \<Rightarrow> zero_identity | Some ident \<Rightarrow> ident)"

text \<open>The checks of authorization; \<open>None\<close> is the result true, else the response is given.\<close>

definition authorize :: "Server \<Rightarrow> request \<Rightarrow> action \<Rightarrow> string \<Rightarrow> string \<Rightarrow> string \<Rightarrow> response option" where
  "authorize s r action org project stack =
     (if NoAuth s \<or> Allows (sv_authz s) (id_Groups (identity r)) action org project stack then None
      else Some (writeError 403 ''access denied''))"

definition authorizeProject :: "Server \<Rightarrow> request \<Rightarrow> action \<Rightarrow> string \<Rightarrow> string \<Rightarrow> response option" where
  "authorizeProject s r action org project =
     (if NoAuth s \<or> AllowsProject (sv_authz s) (id_Groups (identity r)) action org project then None
      else Some (writeError 403 ''access denied''))"

text \<open>Whether a token's scope is the one of the path.\<close>

definition scope_matches :: "UpdateClaims \<Rightarrow> request \<Rightarrow> bool" where
  "scope_matches uc r \<longleftrightarrow>
     \<not> (uc_UpdateID uc \<noteq> PathValue r ''updateID'' \<or> uc_Org uc \<noteq> PathValue r ''org'' \<or>
        uc_Project uc \<noteq> PathValue r ''project'' \<or> uc_Stack uc \<noteq> PathValue r ''stack'' \<or>
        uc_Kind uc \<noteq> PathValue r ''kind'')"

definition requireUpdateScope :: "Server \<Rightarrow> request \<Rightarrow> response option" where
  "requireUpdateScope s r = (case rq_UpdateClaims r of
      None \<Rightarrow> if NoAuth s then None else Some (writeError 403 ''invalid or missing update token'')
    | Some uc \<Rightarrow> if \<not> scope_matches uc r then Some (writeError 403 ''invalid or missing update token'') else None)"

text \<open>The verification of the token, for the two kinds of routes.\<close>

definition verify_token :: "Server \<Rightarrow> bool \<Rightarrow> string \<Rightarrow> (error + Identity \<times> UpdateClaims option) prog" where
  "verify_token s updateToken raw =
     (if updateToken
      then call (VerifyScoped (sv_jwt s) (sv_issuer s) raw) (\<lambda>v. case v of
          Inr (ident, None) \<Rightarrow> Return (Inl (NewError ''backend user token used as update token''))
        | _ \<Rightarrow> Return v)
      else check (Verify (sv_jwt s) (sv_issuer s) raw) (\<lambda>ident. Return (Inr (ident, None))))"

text \<open>What follows once the identity is known.\<close>

definition admit ::
  "Server \<Rightarrow> action \<Rightarrow> handler_func \<Rightarrow> request \<Rightarrow> Identity \<Rightarrow> UpdateClaims option \<Rightarrow> response prog" where
  "admit s action nxt r ident uc =
     (if \<not> validRouteScope r then Return (writeError 400 ''invalid stack scope'')
      else if \<not> (case uc of None \<Rightarrow> True | Some c \<Rightarrow> scope_matches c r)
      then Return (writeError 403 ''invalid update token scope'')
      else let authed = r\<lparr>rq_Identity := Some ident, rq_UpdateClaims := uc\<rparr>
        in if \<not> NoAuth s \<and> \<not> HasAnyGrant (sv_authz s) (id_Groups ident)
           then Return (writeError 403 ''access denied'')
           else case (if action \<noteq> ''''
               then authorize s authed action (PathValue r ''org'') (PathValue r ''project'') (PathValue r ''stack'')
               else None) of
             Some denied \<Rightarrow> Return denied
           | None \<Rightarrow> nxt s authed)"

definition authMiddleware :: "bool \<Rightarrow> action \<Rightarrow> handler_func \<Rightarrow> handler_func" where
  "authMiddleware updateToken action nxt s r =
     (let (scheme, raw) = authorizationToken (rq_Authorization r)
      in if \<not> NoAuth s \<and> (updateToken \<and> scheme \<noteq> ''update-token'' \<or> \<not> updateToken \<and> scheme = ''update-token'')
         then Return (writeError 401 ''invalid or missing token'')
         else call (verify_token s updateToken raw) (\<lambda>v.
           case (if raw = '''' then Inl (NewError '''') else v) of
             Inl err \<Rightarrow>
               if \<not> NoAuth s then Return (writeError 401 (if raw = '''' then ''missing token'' else ''invalid token''))
               else admit s action nxt r (IdentityFromToken (sv_jwt s) (sv_sha256hex s) raw) None
           | Inr (ident, uc) \<Rightarrow> admit s action nxt r ident uc))"

text \<open>A call whose error ends the handler.\<close>

definition attempt :: "(error + 'a) prog \<Rightarrow> (error \<Rightarrow> response prog) \<Rightarrow> ('a \<Rightarrow> response prog) \<Rightarrow> response prog" where
  "attempt p failed k = call p (\<lambda>x. case x of Inl err \<Rightarrow> failed err | Inr v \<Rightarrow> k v)"

definition store_fail :: "string \<Rightarrow> error \<Rightarrow> response prog" where
  "store_fail message err = Return (writeStoreError err message)"

text \<open>
  \<^verbatim>\<open>authn.Middleware\<close>, the middleware of package \<^verbatim>\<open>authn\<close> for user tokens only.
  \<^verbatim>\<open>http.Error\<close> ends the text with a line break.
\<close>

definition TrimPrefix :: "string \<Rightarrow> string \<Rightarrow> string" where
  "TrimPrefix s p = (case CutPrefix s p of None \<Rightarrow> s | Some t \<Rightarrow> t)"

definition http_Error :: "string \<Rightarrow> nat \<Rightarrow> response" where
  "http_Error message status = \<lparr>rs_Status = status, rs_Body = TextBody (message @ [CHR 0x0A])\<rparr>"

definition Middleware :: "TokenIssuer \<Rightarrow> handler_func \<Rightarrow> handler_func" where
  "Middleware issuer nxt s r =
     (let raw = fold (\<lambda>scheme raw. TrimSpace (TrimPrefix raw scheme)) [''update-token '', ''token '', ''Bearer '']
        (rq_Authorization r)
      in if raw = '''' then Return (http_Error ''{\"code\":401,\"message\":\"missing token\"}'' 401)
         else call (Verify (sv_jwt s) issuer raw) (\<lambda>v. case v of
             Inl err \<Rightarrow> Return (http_Error ''{\"code\":401,\"message\":\"invalid token\"}'' 401)
           | Inr ident \<Rightarrow> nxt s (r\<lparr>rq_Identity := Some ident\<rparr>)))"

section \<open>Segments that pass validation make safe keys\<close>

lemma validStorageSegment_no_slash: "validStorageSegment v \<Longrightarrow> no_slash v"
  by (auto simp: validStorageSegment_def no_slash_def split: if_splits option.splits)

lemma no_slash_empty: "no_slash ''''"
  by (simp add: no_slash_def)

lemma validRouteScope_iff: "validRouteScope r \<longleftrightarrow>
     (\<forall>name \<in> {''org'', ''project'', ''stack'', ''updateID''}. PathValue r name = '''' \<or> validStorageSegment (PathValue r name))"
  by (simp add: validRouteScope_def Let_def)

lemma validRouteScope_no_slash:
  assumes "validRouteScope r" "name \<in> {''org'', ''project'', ''stack'', ''updateID''}"
  shows "no_slash (PathValue r name)"
  using assms validStorageSegment_no_slash no_slash_empty unfolding validRouteScope_iff by metis

lemma validRouteScope_ref_ok:
  "validRouteScope r \<Longrightarrow> ref_ok (PathValue r ''org'') (PathValue r ''project'') (PathValue r ''stack'')"
  by (simp add: ref_ok_def validRouteScope_no_slash)

lemma utf8_runes_ascii: "list_all (\<lambda>b. b < 128) bs \<Longrightarrow> utf8_runes bs = Some bs"
  by (induction bs) (simp_all add: utf8_runes.simps)

lemma utf8_runes_byte:
  "utf8_runes bs = Some rs \<Longrightarrow> b \<in> set bs \<Longrightarrow> b < 128 \<Longrightarrow> b \<in> set rs"
proof (induction bs arbitrary: rs rule: utf8_runes.induct)
  case (1 bs)
  from 1(2,3) obtain rune rest rs' where first: "utf8_first bs = Some (rune, rest)" "utf8_runes rest = Some rs'"
      "rs = rune # rs'" "bs \<noteq> []"
    by (subst (asm) utf8_runes.simps) (auto split: if_splits option.splits)
  obtain pre where pre: "bs = pre @ rest" "pre = [rune] \<or> (\<forall>b \<in> set pre. 128 \<le> b)"
    using utf8_first_split [OF first(1)] by blast
  have "b \<in> set rs'" if "b \<in> set rest"
    using 1(1) [OF first(4,1) refl first(2) that 1(4)] .
  then show ?case using pre 1(3,4) first(3) by auto
qed

text \<open>
  C38. Path segments. Every segment that the API passes to the store is free of slashes,
  backslashes and ASCII control bytes and is not empty, \<^verbatim>\<open>.\<close> or \<^verbatim>\<open>..\<close>; conversely every
  printable ASCII text without slashes other than those is accepted. So requests whose scopes
  pass validation and differ never name the same stack document.
\<close>

theorem valid_segments:
  "(validStorageSegment v \<longrightarrow> v \<notin> {'''', ''.'', ''..''} \<and>
      (\<forall>c \<in> set v. c \<noteq> CHR ''/'' \<and> c \<noteq> CHR 0x5C \<and> 32 \<le> (of_char c :: nat) \<and> (of_char c :: nat) \<noteq> 127)) \<and>
   (v \<notin> {'''', ''.'', ''..''} \<and>
      (\<forall>c \<in> set v. c \<noteq> CHR ''/'' \<and> c \<noteq> CHR 0x5C \<and> 32 \<le> (of_char c :: nat) \<and> (of_char c :: nat) < 127) \<longrightarrow>
    validStorageSegment v) \<and>
   (validRouteScope r1 \<and> validRouteScope r2 \<and>
      stackKey (PathValue r1 ''org'') (PathValue r1 ''project'') (PathValue r1 ''stack'') =
      stackKey (PathValue r2 ''org'') (PathValue r2 ''project'') (PathValue r2 ''stack'') \<longrightarrow>
    (PathValue r1 ''org'', PathValue r1 ''project'', PathValue r1 ''stack'') =
    (PathValue r2 ''org'', PathValue r2 ''project'', PathValue r2 ''stack''))"
proof (intro conjI impI)
  assume v: "validStorageSegment v"
  then obtain runes where runes: "utf8_runes (map of_char v) = Some runes" "\<not> list_ex IsControl runes"
    by (auto simp: validStorageSegment_def split: if_splits option.splits)
  show "v \<notin> {'''', ''.'', ''..''}" using v by (auto simp: validStorageSegment_def)
  show "\<forall>c \<in> set v. c \<noteq> CHR ''/'' \<and> c \<noteq> CHR 0x5C \<and> 32 \<le> (of_char c :: nat) \<and> (of_char c :: nat) \<noteq> 127"
  proof
    fix c assume c: "c \<in> set v"
    have "(of_char c :: nat) < 128 \<Longrightarrow> \<not> IsControl (of_char c)"
      using utf8_runes_byte [OF runes(1), of "of_char c"] runes(2) c by (auto simp: list_ex_iff)
    then have "32 \<le> (of_char c :: nat) \<and> (of_char c :: nat) \<noteq> 127" unfolding IsControl_def by linarith
    moreover have "CHR ''/'' \<notin> set v" "CHR 0x5C \<notin> set v"
      using v by (auto simp: validStorageSegment_def split: if_splits option.splits)
    moreover have "c \<noteq> CHR ''/''" "c \<noteq> CHR 0x5C" using c \<open>CHR ''/'' \<notin> set v\<close> \<open>CHR 0x5C \<notin> set v\<close> by blast+
    ultimately show "c \<noteq> CHR ''/'' \<and> c \<noteq> CHR 0x5C \<and> 32 \<le> (of_char c :: nat) \<and> (of_char c :: nat) \<noteq> 127"
      by (intro conjI) simp_all
  qed
next
  assume v: "v \<notin> {'''', ''.'', ''..''} \<and>
      (\<forall>c \<in> set v. c \<noteq> CHR ''/'' \<and> c \<noteq> CHR 0x5C \<and> 32 \<le> (of_char c :: nat) \<and> (of_char c :: nat) < 127)"
  then have bounds: "32 \<le> (of_char c :: nat) \<and> (of_char c :: nat) < 127" if "c \<in> set v" for c using that by blast
  have "list_all (\<lambda>b. b < 128) (map of_char v :: nat list)"
    using bounds unfolding list_all_iff set_map by fastforce
  then have "utf8_runes (map of_char v) = Some (map of_char v)" by (rule utf8_runes_ascii)
  moreover have "\<not> list_ex IsControl (map of_char v)"
    using bounds unfolding list_ex_iff set_map IsControl_def by fastforce
  moreover have "CHR ''/'' \<notin> set v" "CHR 0x5C \<notin> set v" "v \<noteq> ''''" "v \<noteq> ''.''" "v \<noteq> ''..''" using v by blast+
  ultimately show "validStorageSegment v" by (simp add: validStorageSegment_def)
next
  assume "validRouteScope r1 \<and> validRouteScope r2 \<and>
      stackKey (PathValue r1 ''org'') (PathValue r1 ''project'') (PathValue r1 ''stack'') =
      stackKey (PathValue r2 ''org'') (PathValue r2 ''project'') (PathValue r2 ''stack'')"
  then show "(PathValue r1 ''org'', PathValue r1 ''project'', PathValue r1 ''stack'') =
    (PathValue r2 ''org'', PathValue r2 ''project'', PathValue r2 ''stack'')"
    using stackKey_inject [OF validRouteScope_ref_ok validRouteScope_ref_ok, of r1 r2] by simp
qed

text \<open>A request without body, for examples.\<close>

definition plain_request :: request where
  "plain_request = \<lparr>rq_Authorization = '''', rq_ContentEncoding = '''', rq_Query = [],
     rq_PathValues = [(''org'', ''acme''), (''project'', ''web''), (''stack'', ''prod'')],
     rq_Body = \<lparr>rb_gzip = GzipOk, rb_value = None, rb_limit_value = False, rb_eof = True, rb_limit_end = False\<rparr>,
     rq_Identity = None, rq_UpdateClaims = None\<rparr>"

theorem valid_segments_witness:
  "validStorageSegment ''prod-1'' \<and> \<not> validStorageSegment ''a/b'' \<and> \<not> validStorageSegment ''..''"
proof -
  note accepts = valid_segments [of "''prod-1''" plain_request plain_request, THEN conjunct2, THEN conjunct1, THEN mp]
  note rejects = valid_segments [of _ plain_request plain_request, THEN conjunct1, THEN mp]
  have "validStorageSegment ''prod-1''" by (rule accepts) simp
  moreover have "\<not> validStorageSegment ''a/b''" using rejects [of "''a/b''"] by auto
  moreover have "\<not> validStorageSegment ''..''" using rejects [of "''..''"] by blast
  ultimately show ?thesis by blast
qed

section \<open>The Authorization header, back and forth\<close>

lemma trim_left_id: "filter (HasPrefix s) ps = [] \<Longrightarrow> trim_left ps s = s"
  by (subst trim_left.simps) (simp add: strip_one_def)

text \<open>A text whose first and last characters are visible ASCII.\<close>

definition visible :: "char \<Rightarrow> bool" where
  "visible c \<longleftrightarrow> 32 < (of_char c :: nat) \<and> (of_char c :: nat) < 127"

lemma not_space_first:
  assumes "visible c"
  shows "filter (HasPrefix (c # s)) space_texts = []" "filter (HasPrefix (c # s)) (map rev space_texts) = []"
proof -
  have first: "\<not> visible (hd p) \<and> p \<noteq> []" if "p \<in> set space_texts \<union> set (map rev space_texts)" for p
  proof -
    have "\<forall>p \<in> set (space_texts @ map rev space_texts). \<not> visible (hd p) \<and> p \<noteq> []"
      by (simp add: space_texts_def visible_def)
    with that show ?thesis by auto
  qed
  have "\<not> HasPrefix (c # s) p" if "p \<in> set space_texts \<union> set (map rev space_texts)" for p
    using first [OF that] assms by (cases p) (auto simp: HasPrefix_def)
  then show "filter (HasPrefix (c # s)) space_texts = []" "filter (HasPrefix (c # s)) (map rev space_texts) = []"
    by (auto simp: filter_empty_conv)
qed

lemma TrimSpace_id:
  assumes "s \<noteq> ''''" "visible (hd s)" "visible (last s)"
  shows "TrimSpace s = s"
proof -
  have "trim_left space_texts s = s"
    using assms(1) not_space_first(1) [OF assms(2)] by (cases s) (auto intro: trim_left_id)
  moreover have "trim_left (map rev space_texts) (rev s) = rev s"
    using assms(1) not_space_first(2) [OF assms(3)] by (cases s rule: rev_cases) (auto intro: trim_left_id)
  ultimately show ?thesis by (simp add: TrimSpace_def)
qed

text \<open>
  C39. The header the CLI sends. A token without white space (JWTs have none) that is sent
  with one of the schemes \<^verbatim>\<open>token\<close>, \<^verbatim>\<open>update-token\<close> and \<^verbatim>\<open>Bearer\<close> is read back
  together with its scheme; any other scheme yields no token.
\<close>

theorem authorization_header_roundtrip:
  assumes "scheme \<noteq> ''''" "list_all visible scheme" "raw \<noteq> ''''" "list_all visible raw"
  shows "authorizationToken (scheme @ '' '' @ raw) =
     (if scheme \<in> {''token'', ''update-token'', ''Bearer''} then (scheme, raw) else ('''', ''''))"
proof -
  have ends: "visible (hd scheme)" "visible (hd raw)" "visible (last raw)"
    using assms by (simp_all add: list_all_iff)
  have "TrimSpace (scheme @ '' '' @ raw) = scheme @ '' '' @ raw"
    using assms(1,3) ends by (intro TrimSpace_id) auto
  moreover have "CHR '' '' \<notin> set scheme" using assms(2) by (auto simp: list_all_iff visible_def)
  then have "index_byte CHR '' '' (scheme @ '' '' @ raw) = Some (length scheme)"
    using index_byte_append [of "CHR '' ''" scheme raw] by simp
  moreover have "TrimSpace raw = raw" using assms(3) ends by (intro TrimSpace_id)
  ultimately show ?thesis by (auto simp: authorizationToken_def split_space_def)
qed

theorem authorization_header_roundtrip_witness:
  "authorizationToken ''token abc.def'' = (''token'', ''abc.def'') \<and> authorizationToken ''Basic abc'' = ('''', '''')"
  using authorization_header_roundtrip [of "''token''" "''abc.def''"] authorization_header_roundtrip [of "''Basic''" "''abc''"]
  by (simp add: visible_def)

section \<open>The gate\<close>

text \<open>
  The request is authenticated at time \<open>t\<close> as \<open>ident\<close> with the update scope \<open>uc\<close>, and its
  path passes the checks of the middleware.
\<close>

definition authenticated :: "Server \<Rightarrow> bool \<Rightarrow> request \<Rightarrow> time \<Rightarrow> Identity \<Rightarrow> UpdateClaims option \<Rightarrow> bool" where
  "authenticated s updateToken r t ident uc \<longleftrightarrow> (\<exists>scheme raw claims.
     authorizationToken (rq_Authorization r) = (scheme, raw) \<and> (scheme = ''update-token'') = updateToken \<and> raw \<noteq> '''' \<and>
     genuine (sv_jwt s) (sv_issuer s) raw t claims \<and> identityFromClaims claims '''' = Inr ident \<and>
     accepted_claims claims uc \<and> (uc \<noteq> None) = updateToken)"

lemma run_verify_token:
  "run h (verify_token s updateToken raw) w = (Inr (ident, uc), v) \<longleftrightarrow>
     (\<exists>t claims. h_now h w = (t, v) \<and> genuine (sv_jwt s) (sv_issuer s) raw t claims \<and>
       identityFromClaims claims '''' = Inr ident \<and> accepted_claims claims uc \<and> (uc \<noteq> None) = updateToken)"
proof (cases updateToken)
  case True
  have "run h (verify_token s updateToken raw) w = (Inr (ident, uc), v) \<longleftrightarrow>
      run h (VerifyScoped (sv_jwt s) (sv_issuer s) raw) w = (Inr (ident, uc), v) \<and> uc \<noteq> None"
    using True by (auto simp: verify_token_def split: prod.splits sum.splits option.splits)
  then show ?thesis unfolding VerifyScoped_accepts using True by auto
next
  case False
  have "run h (verify_token s updateToken raw) w = (Inr (ident, uc), v) \<longleftrightarrow>
      run h (Verify (sv_jwt s) (sv_issuer s) raw) w = (Inr ident, v) \<and> uc = None"
    using False by (auto simp: verify_token_def split: prod.splits sum.splits)
  then show ?thesis unfolding Verify_accepts using False by auto
qed

text \<open>Verification reads nothing but the clock, at most once.\<close>

definition clock_only :: "'w handler \<Rightarrow> 'w \<Rightarrow> 'w \<Rightarrow> bool" where
  "clock_only h w v \<longleftrightarrow> v = w \<or> (\<exists>t. h_now h w = (t, v))"

lemma run_parse_clock: "run h (parse J ti raw) w = (x, v) \<Longrightarrow> clock_only h w v"
  by (auto simp: parse_def jwt_Parse_def clock_only_def split: sum.splits if_splits prod.splits)

lemma run_verify_clock: "run h (verify_token s updateToken raw) w = (x, v) \<Longrightarrow> clock_only h w v"
proof -
  obtain y u where parse: "run h (parse (sv_jwt s) (sv_issuer s) raw) w = (y, u)"
    by (cases "run h (parse (sv_jwt s) (sv_issuer s) raw) w")
  assume "run h (verify_token s updateToken raw) w = (x, v)"
  then have "v = u"
    using parse by (auto simp: verify_token_def VerifyScoped_def Verify_def Let_def split: sum.splits if_splits option.splits prod.splits)
  with run_parse_clock [OF parse] show ?thesis by simp
qed
lemma run_admit:
  assumes "\<not> NoAuth s"
  shows "run h (admit s action nxt r ident uc) v =
     (if \<not> validRouteScope r then (writeError 400 ''invalid stack scope'', v)
      else if \<not> (case uc of None \<Rightarrow> True | Some c \<Rightarrow> scope_matches c r)
      then (writeError 403 ''invalid update token scope'', v)
      else if HasAnyGrant (sv_authz s) (id_Groups ident) \<and> (action \<noteq> '''' \<longrightarrow> Allows (sv_authz s) (id_Groups ident) action
            (PathValue r ''org'') (PathValue r ''project'') (PathValue r ''stack''))
        then run h (nxt s (r\<lparr>rq_Identity := Some ident, rq_UpdateClaims := uc\<rparr>)) v
        else (writeError 403 ''access denied'', v))"
  using assms by (simp add: admit_def authorize_def identity_def Let_def)

lemma writeError_status [simp]: "rs_Status (writeError n m) = n"
  by (simp add: writeError_def writeJSON_def)

text \<open>The middleware refuses, or the handler runs with the checks passed.\<close>

lemma admit_outcome:
  assumes "\<not> NoAuth s" "run h (admit s action nxt r ident uc) v = (resp, w')"
  shows "rs_Status resp \<in> {400, 403} \<and> w' = v \<or>
     validRouteScope r \<and> (\<forall>c. uc = Some c \<longrightarrow> scope_matches c r) \<and> HasAnyGrant (sv_authz s) (id_Groups ident) \<and>
     (action \<noteq> '''' \<longrightarrow> Allows (sv_authz s) (id_Groups ident) action
        (PathValue r ''org'') (PathValue r ''project'') (PathValue r ''stack'')) \<and>
     run h (nxt s (r\<lparr>rq_Identity := Some ident, rq_UpdateClaims := uc\<rparr>)) v = (resp, w')"
  using assms(2) unfolding run_admit [OF assms(1)]
  by (cases "validRouteScope r"; cases uc) (auto split: if_splits)

text \<open>
  C30. The gate. With authentication enabled, a request that goes through \<^verbatim>\<open>authMiddleware\<close>
  either reaches its handler, and then it carries a current, correctly signed token of the kind the
  route demands, its path is valid, an update token names exactly this path, and the rules
  grant the caller's groups the route's action on the stack of the path; or it is answered with
  400, 401 or 403 and nothing but the clock was touched.
\<close>

theorem authentication_gate:
  assumes "\<not> NoAuth s" "run h (authMiddleware updateToken action nxt s r) w = (resp, w')"
  shows "(\<exists>ident uc t v. h_now h w = (t, v) \<and> authenticated s updateToken r t ident uc \<and> validRouteScope r \<and>
       (\<forall>c. uc = Some c \<longrightarrow> scope_matches c r) \<and> HasAnyGrant (sv_authz s) (id_Groups ident) \<and>
       (action \<noteq> '''' \<longrightarrow> Allows (sv_authz s) (id_Groups ident) action
          (PathValue r ''org'') (PathValue r ''project'') (PathValue r ''stack'')) \<and>
       run h (nxt s (r\<lparr>rq_Identity := Some ident, rq_UpdateClaims := uc\<rparr>)) v = (resp, w')) \<or>
     rs_Status resp \<in> {400, 401, 403} \<and> clock_only h w w'"
proof -
  obtain scheme raw where header: "authorizationToken (rq_Authorization r) = (scheme, raw)"
    by (cases "authorizationToken (rq_Authorization r)")
  obtain x v where verify: "run h (verify_token s updateToken raw) w = (x, v)"
    by (cases "run h (verify_token s updateToken raw) w")
  have clock: "clock_only h w v" by (rule run_verify_clock [OF verify])
  show ?thesis
  proof (cases "(scheme = ''update-token'') = updateToken")
    case False
    with assms header have "resp = writeError 401 ''invalid or missing token''" "w' = w"
      by (auto simp: authMiddleware_def)
    then show ?thesis by (simp add: clock_only_def)
  next
    case scheme: True
    then have run: "run h (authMiddleware updateToken action nxt s r) w =
        run h (case (if raw = '''' then Inl (NewError '''') else x) of
             Inl err \<Rightarrow> Return (writeError 401 (if raw = '''' then ''missing token'' else ''invalid token''))
           | Inr (ident, uc) \<Rightarrow> admit s action nxt r ident uc) v"
      using assms(1) header verify by (auto simp: authMiddleware_def split: sum.splits)
    show ?thesis
    proof (cases "if raw = '''' then Inl (NewError '''') else x")
      case (Inl e)
      then have "resp = writeError 401 (if raw = '''' then ''missing token'' else ''invalid token'')" "w' = v"
        using run assms(2) by simp_all
      then show ?thesis using clock by simp
    next
      case (Inr idc)
      obtain ident uc where idc: "idc = (ident, uc)" by (cases idc)
      have x: "x = Inr (ident, uc)" "raw \<noteq> ''''" using Inr idc by (auto split: if_splits)
      obtain t claims where t: "h_now h w = (t, v)" and ver: "genuine (sv_jwt s) (sv_issuer s) raw t claims"
        "identityFromClaims claims '''' = Inr ident" "accepted_claims claims uc" "(uc \<noteq> None) = updateToken"
        using verify x(1) run_verify_token [of h s updateToken raw w ident uc v] by auto
      have auth: "authenticated s updateToken r t ident uc"
        unfolding authenticated_def using header scheme x(2) ver by blast
      have "run h (admit s action nxt r ident uc) v = (resp, w')"
        using run assms(2) Inr idc by simp
      from admit_outcome [OF assms(1) this] show ?thesis
      proof
        assume "rs_Status resp \<in> {400, 403} \<and> w' = v"
        then show ?thesis using clock by auto
      qed (use t auth in blast)
    qed
  qed
qed

text \<open>A server with one rule, for examples.\<close>

definition demo_config :: Config where
  "demo_config = default_config\<lparr>cfg_Issuer := ''https://idp'', cfg_ClientID := ''cli'', cfg_Authorization := [sample_rule]\<rparr>"

definition demo_server :: Server where
  "demo_server = NewServer demo_config demo_issuer (\<lambda>raw. Inl (NewError ''offline'')) None unary_jwt (\<lambda>j. ''0'') (\<lambda>raw. ''0'')"

lemma demo_server_auth: "\<not> NoAuth demo_server"
  by (simp add: demo_server_def NewServer_def demo_config_def default_config_def)

lemma no_header: "authorizationToken '''' = ('''', '''')"
proof -
  have "TrimSpace '''' = ''''"
    unfolding TrimSpace_def by (subst (1 2) trim_left.simps) (simp add: strip_one_def split: list.split)
  then show ?thesis by (simp add: authorizationToken_def split_space_def)
qed

theorem authentication_gate_witness:
  "\<exists>resp w'. run ref_service (authMiddleware False Read (\<lambda>s r. Return (WriteHeader 204)) demo_server plain_request) (world_at 0) =
     (resp, w') \<and> rs_Status resp \<in> {400, 401, 403} \<and> clock_only ref_service (world_at 0) w'"
proof -
  let ?p = "authMiddleware False Read (\<lambda>s r. Return (WriteHeader 204)) demo_server plain_request"
  obtain resp w' where run: "run ref_service ?p (world_at 0) = (resp, w')"
    by (cases "run ref_service ?p (world_at 0)")
  have "\<not> authenticated demo_server False plain_request t ident uc" for t ident uc
    by (simp add: authenticated_def plain_request_def no_header)
  with authentication_gate [OF demo_server_auth run] run show ?thesis by blast
qed

end
