(* ===== verification/Updates.thy ===== *)
theory Updates
  imports Server
begin

text \<open>
  The endpoints of updates (\<^verbatim>\<open>internal/api/updates.go\<close>): creating, starting, checkpointing,
  completing, renewing and cancelling an update, and the history of a stack. A handler that
  defers the release of a lock is written as its body followed by the release.
\<close>

section \<open>Creating and starting\<close>

definition releaseUpdateLock :: "string \<Rightarrow> string \<Rightarrow> string \<Rightarrow> string \<Rightarrow> uint64 \<Rightarrow> (error + unit) prog" where
  "releaseUpdateLock org project stackName updateID generation =
     call (ReleaseLock org project stackName updateID generation) (\<lambda>x. case x of
         Inr _ \<Rightarrow> Return (Inr ())
       | Inl err \<Rightarrow> if errors_As_held err \<noteq> None then Return (Inr ())
           else Return (Inl (Wrap ''release lock: '' err)))"

definition releaseLockOnExit :: "string \<Rightarrow> string \<Rightarrow> string \<Rightarrow> string \<Rightarrow> uint64 \<Rightarrow> unit prog" where
  "releaseLockOnExit org project stackName updateID generation =
     call (releaseUpdateLock org project stackName updateID generation) (\<lambda>_. Return ())"

definition requireLiveLock :: "request \<Rightarrow> string \<Rightarrow> uint64 \<Rightarrow> (response + lock) prog" where
  "requireLiveLock r updateID generation =
     call (GetLock (PathValue r ''org'') (PathValue r ''project'') (PathValue r ''stack'')) (\<lambda>x. case x of
         Inl err \<Rightarrow>
           if errors_Is err ErrNoLock then Return (Inl (writeError 409 ''update no longer owns stack lock''))
           else Return (Inl (internalError err ''reading update lock failed''))
       | Inr lock \<Rightarrow>
           if l_UpdateID lock \<noteq> updateID \<or> generation \<noteq> 0 \<and> l_Generation lock \<noteq> generation
           then Return (Inl (writeError 409 ''update no longer owns stack lock''))
           else TimeNow (\<lambda>now. if Expired lock now
             then Return (Inl (writeError 409 ''update no longer owns stack lock''))
             else Return (Inr lock)))"

text \<open>\<^verbatim>\<open>if !ok { return }\<close> after \<^verbatim>\<open>requireLiveLock\<close>.\<close>

definition with_live_lock :: "request \<Rightarrow> string \<Rightarrow> uint64 \<Rightarrow> (lock \<Rightarrow> response prog) \<Rightarrow> response prog" where
  "with_live_lock r updateID generation k =
     call (requireLiveLock r updateID generation) (\<lambda>x. case x of Inl resp \<Rightarrow> Return resp | Inr lock \<Rightarrow> k lock)"

definition updateID_json :: "string \<Rightarrow> json" where
  "updateID_json updateID = JObj [(''updateID'', JStr updateID)]"

text \<open>The lock is held: resume the caller's own update if it has not started, else report the lock.\<close>

definition createUpdate_held ::
  "Server \<Rightarrow> request \<Rightarrow> string \<Rightarrow> string \<Rightarrow> string \<Rightarrow> string \<Rightarrow> error \<Rightarrow> lock \<Rightarrow> response prog" where
  "createUpdate_held s r org project stackName kind err held =
     (let refuse = store_fail ''acquiring lock failed'' err
      in if l_Owner held \<noteq> Principal (identity r) then refuse
         else call (GetUpdate org project stackName (l_UpdateID held)) (\<lambda>x. case x of
           Inl getErr \<Rightarrow> refuse
         | Inr existing \<Rightarrow>
             if u_Kind existing = kind \<and> u_Status existing = ''not-started'' then
               attempt (RenewLock org project stackName (u_ID existing) (l_Generation held) (LeaseDuration s))
                 (store_fail ''renewing pending update lock failed'') (\<lambda>_.
               attempt (CreateUpdate org project stackName kind (u_ID existing))
                 (store_fail ''committing pending update failed'') (\<lambda>committed.
               Return (writeJSON 200 (updateID_json (u_ID committed)))))
             else refuse))"

text \<open>Recording the update; \<open>lock\<close> is the lock that was taken for it, if any.\<close>

definition createUpdate_record_api ::
  "string \<Rightarrow> string \<Rightarrow> string \<Rightarrow> string \<Rightarrow> string \<Rightarrow> lock option \<Rightarrow> response prog" where
  "createUpdate_record_api org project stackName kind updateID lock =
     attempt (CreateUpdate org project stackName kind updateID)
       (\<lambda>err. call (case lock of
            None \<Rightarrow> Return ()
          | Some l \<Rightarrow> releaseLockOnExit org project stackName updateID (l_Generation l))
          (\<lambda>_. store_fail ''creating update failed'' err))
       (\<lambda>_. Return (writeJSON 200 (updateID_json updateID)))"

definition createUpdate :: handler_func where
  "createUpdate s r =
     (let org = PathValue r ''org''; project = PathValue r ''project''; stackName = PathValue r ''stack'';
          kind = PathValue r ''kind''
      in if \<not> validUpdateKind kind then Return (writeError 404 ''unknown update kind'')
         else attempt (GetStack org project stackName) (store_fail ''reading stack failed'') (\<lambda>st.
           call NewUpdateID (\<lambda>updateID.
           if kind \<noteq> ''preview'' then
             attempt (AcquireLock org project stackName (st_Incarnation st) updateID (Principal (identity r)) (LeaseDuration s))
               (\<lambda>err. case errors_As_held err of
                    Some held \<Rightarrow> createUpdate_held s r org project stackName kind err held
                  | None \<Rightarrow> store_fail ''acquiring lock failed'' err)
               (\<lambda>lock. createUpdate_record_api org project stackName kind updateID (Some lock))
           else createUpdate_record_api org project stackName kind updateID None)))"

definition start_json :: "update \<Rightarrow> string \<Rightarrow> int \<Rightarrow> json" where
  "start_json u token expires = JObj [(''journalVersion'', JInt 0), (''token'', JStr token),
     (''tokenExpiration'', JInt expires), (''version'', JInt (sint (u_Version u)))]"

text \<open>The part of \<^verbatim>\<open>startUpdate\<close> after the lock was renewed.\<close>

definition startUpdate_issue :: "Server \<Rightarrow> request \<Rightarrow> update \<Rightarrow> uint64 \<Rightarrow> response prog" where
  "startUpdate_issue s r u generation =
     (let org = PathValue r ''org''; project = PathValue r ''project''; stackName = PathValue r ''stack'';
          updateID = PathValue r ''updateID'';
          issue = attempt (IssueUpdate (sv_jwt s) (sv_issuer s) (identity r)
              \<lparr>uc_UpdateID = updateID, uc_Org = org, uc_Project = project, uc_Stack = stackName,
                uc_Kind = PathValue r ''kind'', uc_Generation = generation\<rparr> (LeaseDuration s))
            (\<lambda>err. Return (internalError err ''token issuance failed''))
            (\<lambda>(token, expires). Return (writeJSON 200 (start_json u token expires)))
      in if u_Status u = ''not-started''
         then attempt (StartUpdate org project stackName updateID) (store_fail ''starting update failed'') (\<lambda>_. issue)
         else issue)"

definition startUpdate :: handler_func where
  "startUpdate s r =
     (let org = PathValue r ''org''; project = PathValue r ''project''; stackName = PathValue r ''stack'';
          updateID = PathValue r ''updateID''
      in if \<not> validUpdateKind (PathValue r ''kind'') then Return (writeError 404 ''unknown update kind'')
         else attempt (GetUpdate org project stackName updateID) (store_fail ''reading update failed'') (\<lambda>u.
           if u_Status u \<noteq> ''not-started'' \<and> u_Status u \<noteq> ''in-progress''
           then Return (writeError 409 (error_text ErrInvalidUpdateState))
           else if u_Kind u \<noteq> ''preview'' then
             with_live_lock r updateID 0 (\<lambda>lock.
             attempt (RenewLock org project stackName updateID (l_Generation lock) (LeaseDuration s))
               (store_fail ''renewing update lock failed'') (\<lambda>renewed.
             startUpdate_issue s r u (l_Generation renewed)))
           else startUpdate_issue s r u 0))"

definition getUpdateStatus :: handler_func where
  "getUpdateStatus s r =
     (if \<not> validUpdateKind (PathValue r ''kind'') then Return (writeError 404 ''unknown update kind'')
      else attempt (GetUpdate (PathValue r ''org'') (PathValue r ''project'') (PathValue r ''stack'') (PathValue r ''updateID''))
        (store_fail ''reading update failed'') (\<lambda>u.
        Return (writeJSON 200 (JObj [(''events'', JArr []), (''status'', JStr (u_Status u))]))))"

section \<open>Checkpoints\<close>

text \<open>The generation that the update token carries, else 0.\<close>

definition token_generation :: "request \<Rightarrow> uint64" where
  "token_generation r = (case rq_UpdateClaims r of None \<Rightarrow> 0 | Some uc \<Rightarrow> uc_Generation uc)"

definition saveCheckpointForUpdate ::
  "Server \<Rightarrow> request \<Rightarrow> string \<Rightarrow> string \<Rightarrow> string \<Rightarrow> string \<Rightarrow> json \<Rightarrow> response prog" where
  "saveCheckpointForUpdate s r org project stackName updateID deployment =
     attempt (GetUpdate org project stackName updateID) (store_fail ''reading update failed'') (\<lambda>u.
     if u_Kind u = ''preview'' \<or> u_Status u \<noteq> ''in-progress''
     then Return (writeError 409 (error_text ErrInvalidUpdateState))
     else with_live_lock r updateID (token_generation r) (\<lambda>lock.
       attempt (RenewLock org project stackName updateID (l_Generation lock) (LeaseDuration s))
         (store_fail ''renewing update lock failed'') (\<lambda>renewed.
       attempt (SaveCheckpoint (sv_sha s) org project stackName (u_Incarnation u) updateID (l_Generation renewed)
           (u_Version u) deployment) (store_fail ''saving checkpoint failed'') (\<lambda>_.
       Return (WriteHeader 204)))))"

record checkpoint_request =
  cq_Version :: int64
  cq_Features :: "string list option"
  cq_Deployment :: "json option"

definition checkpoint_field :: "checkpoint_request \<Rightarrow> string \<Rightarrow> json \<Rightarrow> checkpoint_request option" where
  "checkpoint_field q k j =
     (if same_name k ''version'' then map_option (\<lambda>x. q\<lparr>cq_Version := x\<rparr>) (dec_int64 j (cq_Version q))
      else if same_name k ''features'' then map_option (\<lambda>x. q\<lparr>cq_Features := x\<rparr>) (dec_strings j (cq_Features q))
      else if same_name k ''deployment'' then map_option (\<lambda>x. q\<lparr>cq_Deployment := x\<rparr>) (dec_raw j (cq_Deployment q))
      else Some q)"

definition decode_checkpoint :: "json \<Rightarrow> checkpoint_request option" where
  "decode_checkpoint j = dec_struct checkpoint_field j \<lparr>cq_Version = 0, cq_Features = None, cq_Deployment = None\<rparr>"

text \<open>The document that is stored; a missing deployment and missing features are \<^verbatim>\<open>null\<close>.\<close>

definition checkpoint_json :: "checkpoint_request \<Rightarrow> json" where
  "checkpoint_json q = JObj [
     (''deployment'', case cq_Deployment q of None \<Rightarrow> JNull | Some d \<Rightarrow> d),
     (''features'', case cq_Features q of None \<Rightarrow> JNull | Some fs \<Rightarrow> JArr (map JStr fs)),
     (''version'', JInt (sint (cq_Version q)))]"

definition patchCheckpoint :: handler_func where
  "patchCheckpoint s r = (case requireUpdateScope s r of
      Some denied \<Rightarrow> Return denied
    | None \<Rightarrow> (case decodeBody r decode_checkpoint of
        Inl err \<Rightarrow> Return (writeDecodeError err ''invalid checkpoint'')
      | Inr q \<Rightarrow> saveCheckpointForUpdate s r (PathValue r ''org'') (PathValue r ''project'') (PathValue r ''stack'')
          (PathValue r ''updateID'') (checkpoint_json q)))"

text \<open>The fields \<^verbatim>\<open>version\<close> and \<^verbatim>\<open>sequenceNumber\<close> are decoded and not used.\<close>

record verbatim_request =
  vq_Version :: int64
  vq_UntypedDeployment :: "json option"
  vq_SequenceNumber :: int64

definition verbatim_field :: "verbatim_request \<Rightarrow> string \<Rightarrow> json \<Rightarrow> verbatim_request option" where
  "verbatim_field q k j =
     (if same_name k ''version'' then map_option (\<lambda>x. q\<lparr>vq_Version := x\<rparr>) (dec_int64 j (vq_Version q))
      else if same_name k ''untypedDeployment'' then
        map_option (\<lambda>x. q\<lparr>vq_UntypedDeployment := x\<rparr>) (dec_raw j (vq_UntypedDeployment q))
      else if same_name k ''sequenceNumber'' then
        map_option (\<lambda>x. q\<lparr>vq_SequenceNumber := x\<rparr>) (dec_int64 j (vq_SequenceNumber q))
      else Some q)"

definition decode_verbatim :: "json \<Rightarrow> verbatim_request option" where
  "decode_verbatim j = dec_struct verbatim_field j
     \<lparr>vq_Version = 0, vq_UntypedDeployment = None, vq_SequenceNumber = 0\<rparr>"

definition patchCheckpointVerbatim :: handler_func where
  "patchCheckpointVerbatim s r = (case requireUpdateScope s r of
      Some denied \<Rightarrow> Return denied
    | None \<Rightarrow> (case decodeBody r decode_verbatim of
        Inl err \<Rightarrow> Return (writeDecodeError err ''invalid checkpoint'')
      | Inr q \<Rightarrow> (case vq_UntypedDeployment q of
          None \<Rightarrow> Return (writeError 400 ''invalid checkpoint'')
        | Some deployment \<Rightarrow> saveCheckpointForUpdate s r (PathValue r ''org'') (PathValue r ''project'')
            (PathValue r ''stack'') (PathValue r ''updateID'') deployment)))"

section \<open>Completing, renewing and cancelling\<close>

definition string_field :: "string \<Rightarrow> string \<Rightarrow> string \<Rightarrow> json \<Rightarrow> string option" where
  "string_field name x k j = (if same_name k name then dec_string j x else Some x)"

definition decode_status :: "json \<Rightarrow> string option" where
  "decode_status j = dec_struct (string_field ''status'') j ''''"

text \<open>\<open>release_then\<close>: release the lock of an update that is already finished, then answer.\<close>

definition release_then :: "request \<Rightarrow> uint64 \<Rightarrow> response prog" where
  "release_then r generation =
     attempt (releaseUpdateLock (PathValue r ''org'') (PathValue r ''project'') (PathValue r ''stack'')
         (PathValue r ''updateID'') generation)
       (store_fail ''releasing update lock failed'') (\<lambda>_. Return (WriteHeader 204))"

text \<open>The update has the requested status already: only its lock may be left.\<close>

definition completeUpdate_again :: "request \<Rightarrow> update \<Rightarrow> uint64 \<Rightarrow> response prog" where
  "completeUpdate_again r u generation =
     (let release = (\<lambda>g. if g \<noteq> 0 then release_then r g else Return (WriteHeader 204))
      in if u_Kind u = ''preview'' then Return (WriteHeader 204)
         else if generation = 0 then
           call (GetLock (PathValue r ''org'') (PathValue r ''project'') (PathValue r ''stack'')) (\<lambda>x. case x of
             Inr lock \<Rightarrow> release (if l_UpdateID lock = PathValue r ''updateID'' then l_Generation lock else generation)
           | Inl lockErr \<Rightarrow>
               if \<not> errors_Is lockErr ErrNoLock then store_fail ''reading update lock failed'' lockErr
               else release generation)
         else release generation)"

definition completeUpdate_finish :: "request \<Rightarrow> update \<Rightarrow> string \<Rightarrow> uint64 \<Rightarrow> response prog" where
  "completeUpdate_finish r u status generation =
     attempt (CompleteUpdate (PathValue r ''org'') (PathValue r ''project'') (PathValue r ''stack'') (PathValue r ''updateID'')
         status '''' []) (store_fail ''completing update failed'') (\<lambda>_.
     if u_Kind u \<noteq> ''preview'' then release_then r generation else Return (WriteHeader 204))"

definition completeUpdate :: handler_func where
  "completeUpdate s r = (case requireUpdateScope s r of
      Some denied \<Rightarrow> Return denied
    | None \<Rightarrow> (case decodeBody r decode_status of
        Inl err \<Rightarrow> Return (writeDecodeError err ''invalid request'')
      | Inr status \<Rightarrow>
          if status \<noteq> ''succeeded'' \<and> status \<noteq> ''failed'' then Return (writeError 400 ''invalid request'')
          else attempt (GetUpdate (PathValue r ''org'') (PathValue r ''project'') (PathValue r ''stack'') (PathValue r ''updateID''))
            (store_fail ''reading update failed'') (\<lambda>u.
            let generation = token_generation r
            in if u_Status u = status then completeUpdate_again r u generation
               else if u_Status u \<noteq> ''in-progress'' then Return (writeError 409 (error_text ErrInvalidUpdateState))
               else if u_Kind u \<noteq> ''preview''
               then with_live_lock r (PathValue r ''updateID'') generation (\<lambda>liveLock.
                 completeUpdate_finish r u status (l_Generation liveLock))
               else completeUpdate_finish r u status generation)))"

definition duration_field :: "int64 \<Rightarrow> string \<Rightarrow> json \<Rightarrow> int64 option" where
  "duration_field x k j = (if same_name k ''duration'' then dec_int64 j x else Some x)"

definition decode_duration :: "json \<Rightarrow> int64 option" where
  "decode_duration j = dec_struct duration_field j 0"

text \<open>
  The lease that is granted: the product is computed in 64 bits and wraps around; what is not
  positive or exceeds five minutes becomes five minutes.
\<close>

definition lease_duration :: "int64 \<Rightarrow> duration" where
  "lease_duration n =
     (let d = sint (n * word_of_int second)
      in if d \<le> 0 \<or> d > 300 * second then 300 * second else d)"

definition renewLease_issue :: "Server \<Rightarrow> request \<Rightarrow> uint64 \<Rightarrow> duration \<Rightarrow> response prog" where
  "renewLease_issue s r generation d =
     attempt (IssueUpdate (sv_jwt s) (sv_issuer s) (identity r)
         \<lparr>uc_UpdateID = PathValue r ''updateID'', uc_Org = PathValue r ''org'', uc_Project = PathValue r ''project'',
           uc_Stack = PathValue r ''stack'', uc_Kind = PathValue r ''kind'', uc_Generation = generation\<rparr> d)
       (\<lambda>err. Return (internalError err ''token issuance failed''))
       (\<lambda>(token, expires). Return (writeJSON 200 (JObj [(''token'', JStr token), (''tokenExpiration'', JInt expires)])))"

definition renewLease :: handler_func where
  "renewLease s r = (case requireUpdateScope s r of
      Some denied \<Rightarrow> Return denied
    | None \<Rightarrow> (case decodeBody r decode_duration of
        Inl err \<Rightarrow> Return (writeDecodeError err ''invalid request'')
      | Inr n \<Rightarrow>
          let org = PathValue r ''org''; project = PathValue r ''project''; stackName = PathValue r ''stack'';
              updateID = PathValue r ''updateID''; generation = token_generation r; d = lease_duration n
          in attempt (GetUpdate org project stackName updateID) (store_fail ''reading update failed'') (\<lambda>u.
             if u_Kind u \<noteq> ''preview'' then
               with_live_lock r updateID generation (\<lambda>lock.
               attempt (RenewLock org project stackName updateID (l_Generation lock) d)
                 (store_fail ''renewing lease failed'') (\<lambda>renewed.
               renewLease_issue s r (l_Generation renewed) d))
             else renewLease_issue s r generation d)))"

text \<open>The lock of an update that is to be cancelled, if the stack's lock is this update's.\<close>

definition own_lock :: "request \<Rightarrow> (response + lock option) prog" where
  "own_lock r =
     call (GetLock (PathValue r ''org'') (PathValue r ''project'') (PathValue r ''stack'')) (\<lambda>x. case x of
         Inr lock \<Rightarrow> Return (Inr (if l_UpdateID lock = PathValue r ''updateID'' then Some lock else None))
       | Inl err \<Rightarrow>
           if \<not> errors_Is err ErrNoLock then Return (Inl (writeStoreError err ''reading update lock failed''))
           else Return (Inr None))"

definition release_own :: "request \<Rightarrow> lock option \<Rightarrow> response prog" where
  "release_own r lock = (case lock of
      None \<Rightarrow> Return (WriteHeader 204)
    | Some l \<Rightarrow> release_then r (l_Generation l))"

definition with_own_lock :: "request \<Rightarrow> update \<Rightarrow> (lock option \<Rightarrow> response prog) \<Rightarrow> response prog" where
  "with_own_lock r u k =
     (if u_Kind u \<noteq> ''preview''
      then call (own_lock r) (\<lambda>x. case x of Inl resp \<Rightarrow> Return resp | Inr lock \<Rightarrow> k lock)
      else k None)"

definition cancelUpdate :: handler_func where
  "cancelUpdate s r =
     (let org = PathValue r ''org''; project = PathValue r ''project''; stackName = PathValue r ''stack'';
          updateID = PathValue r ''updateID''
      in if \<not> validUpdateKind (PathValue r ''kind'') then Return (writeError 404 ''unknown update kind'')
         else attempt (GetUpdate org project stackName updateID) (store_fail ''reading update failed'') (\<lambda>u.
           if u_Status u = ''cancelled'' then with_own_lock r u (release_own r)
           else if u_Status u \<noteq> ''not-started'' \<and> u_Status u \<noteq> ''in-progress''
           then Return (writeError 409 (error_text ErrInvalidUpdateState))
           else with_own_lock r u (\<lambda>lock.
             attempt (CompleteUpdate org project stackName updateID ''cancelled'' ''cancelled by user'' [])
               (store_fail ''cancelling update failed'') (\<lambda>_. release_own r lock))))"

definition discardEvents :: handler_func where
  "discardEvents s r = Return (WriteHeader 204)"

section \<open>History\<close>

definition historicalUpdates :: "update list \<Rightarrow> update list" where
  "historicalUpdates updates = filter (\<lambda>u. u_Kind u \<noteq> ''preview'') updates"

definition updateInfo :: "update \<Rightarrow> json" where
  "updateInfo u = JObj [
     (''config'', JObj []),
     (''endTime'', JInt (sint (u_EndTime u))),
     (''environment'', JObj []),
     (''kind'', JStr (u_Kind u)),
     (''message'', JStr (u_Message u)),
     (''resourceChanges'', JObj (map (\<lambda>(k, v). (k, JInt (sint v))) (u_ResourceChanges u))),
     (''result'', JStr (u_Status u)),
     (''startTime'', JInt (sint (u_StartTime u))),
     (''version'', JInt (sint (u_Version u)))]"

text \<open>The two parameters: the default, or a value in range; \<open>None\<close> for an invalid one.\<close>

definition page_param :: "request \<Rightarrow> int option" where
  "page_param r = (if Query_Get r ''page'' = '''' then Some 1
     else case Atoi (Query_Get r ''page'') of
       None \<Rightarrow> None
     | Some p \<Rightarrow> if p < 1 then None else Some p)"

definition pageSize_param :: "request \<Rightarrow> int \<Rightarrow> int option" where
  "pageSize_param r count = (if Query_Get r ''pageSize'' = '''' then Some count
     else case Atoi (Query_Get r ''pageSize'') of
       None \<Rightarrow> None
     | Some ps \<Rightarrow> if ps < 0 \<or> ps > 1000 then None else Some (if ps = 0 then count else ps))"

text \<open>
  The sum, difference and product of Go's 64-bit \<^verbatim>\<open>int\<close>: the result that fits into a word, read
  with sign.
\<close>

definition wrap64 :: "int \<Rightarrow> int" where
  "wrap64 x = sint (word_of_int x :: int64)"

text \<open>
  \<^verbatim>\<open>pageWindow\<close>: a response for invalid parameters, else the window. A division by zero would
  be a run-time panic, which is \<open>None\<close>. Subtraction, product and addition wrap around, so that
  the code's test of the page number against \<open>count div pageSize\<close> is what keeps the product in range;
  the quotient of a length by a positive size needs no wrapping.
\<close>

definition pageWindow :: "request \<Rightarrow> int \<Rightarrow> (response + int \<times> int) option" where
  "pageWindow r count = (case page_param r of
      None \<Rightarrow> Some (Inl (writeError 400 ''invalid page''))
    | Some page \<Rightarrow> (case pageSize_param r count of
        None \<Rightarrow> Some (Inl (writeError 400 ''invalid pageSize''))
      | Some pageSize \<Rightarrow>
          if count = 0 then Some (Inr (0, 0))
          else if pageSize = 0 then None
          else
            let start0 = (if wrap64 (page - 1) \<le> count div pageSize
                          then wrap64 (wrap64 (page - 1) * pageSize) else count);
                start = (if start0 > count then count else start0)
            in Some (Inr (start, min (wrap64 (start + pageSize)) count))))"

text \<open>The slice \<open>xs[start:end]\<close>; out of range is a panic, too.\<close>

definition slice :: "'a list \<Rightarrow> int \<Rightarrow> int \<Rightarrow> 'a list option" where
  "slice xs start stop = (if 0 \<le> start \<and> start \<le> stop \<and> stop \<le> int (length xs)
     then Some (take (nat (stop - start)) (drop (nat start) xs)) else None)"

text \<open>\<^verbatim>\<open>net/http\<close> answers a panic of a handler by closing the connection; here it is status 0.\<close>

definition panicked :: response where
  "panicked = \<lparr>rs_Status = 0, rs_Body = NoBody\<rparr>"

definition page_response :: "request \<Rightarrow> update list \<Rightarrow> response" where
  "page_response r updates = (case pageWindow r (int (length updates)) of
      None \<Rightarrow> panicked
    | Some (Inl resp) \<Rightarrow> resp
    | Some (Inr (start, stop)) \<Rightarrow> (case slice updates start stop of
        None \<Rightarrow> panicked
      | Some us \<Rightarrow> writeJSON 200 (JObj [(''updates'', JArr (map updateInfo us))])))"

abbreviation list_updates :: "request \<Rightarrow> (update list \<Rightarrow> response prog) \<Rightarrow> response prog" where
  "list_updates r \<equiv> attempt (ListUpdates (PathValue r ''org'') (PathValue r ''project'') (PathValue r ''stack''))
     (\<lambda>err. Return (internalError err ''listing updates failed''))"

definition getStackUpdates :: handler_func where
  "getStackUpdates s r = list_updates r (\<lambda>updates. Return (page_response r (historicalUpdates updates)))"

definition getLatestUpdate :: handler_func where
  "getLatestUpdate s r = list_updates r (\<lambda>updates. case historicalUpdates updates of
      [] \<Rightarrow> Return (writeError 404 ''no updates'')
    | u # _ \<Rightarrow> Return (writeJSON 200 (JObj [(''info'', updateInfo u)])))"

definition getUpdateByVersion :: handler_func where
  "getUpdateByVersion s r = (case Atoi (PathValue r ''version'') of
      None \<Rightarrow> Return (writeError 400 ''invalid version'')
    | Some version \<Rightarrow> list_updates r (\<lambda>updates.
        case find (\<lambda>u. sint (u_Version u) = version) (historicalUpdates updates) of
          Some u \<Rightarrow> Return (writeJSON 200 (updateInfo u))
        | None \<Rightarrow> Return (writeError 404 ''update not found'')))"

section \<open>Properties of paging\<close>

lemma wrap64_id: "- (2 ^ 63) \<le> x \<Longrightarrow> x < 2 ^ 63 \<Longrightarrow> wrap64 x = x"
  unfolding wrap64_def by (simp add: sint_sbintrunc' signed_take_bit_int_eq_self)

lemma page_params:
  assumes "page_param r = Some page" "pageSize_param r count = Some n" "0 \<le> count"
  shows "1 \<le> page" "page < 2 ^ 63" "0 \<le> n" "n = 0 \<Longrightarrow> count = 0" "n \<le> 1000 \<or> n \<le> count"
  using assms Atoi_range [of "Query_Get r ''page''"]
  by (auto simp: page_param_def pageSize_param_def split: if_splits option.splits)

text \<open>The test of the code holds exactly when the window starts inside the list.\<close>

lemma page_guard:
  fixes k n count :: int
  assumes "0 < n" "0 \<le> count"
  shows "k \<le> count div n \<Longrightarrow> k * n \<le> count" "\<not> k \<le> count div n \<Longrightarrow> count \<le> k * n"
proof -
  have div: "count div n * n \<le> count" using assms(1) by (simp add: minus_mod_eq_div_mult [symmetric])
  show "k * n \<le> count" if "k \<le> count div n"
    using order_trans [OF mult_right_mono [OF that] div] assms(1) by simp
  show "count \<le> k * n" if "\<not> k \<le> count div n"
  proof -
    have "count div n + 1 \<le> k" using that by simp
    from mult_right_mono [OF this, of n] assms(1) have "count div n * n + n \<le> k * n" by (simp add: algebra_simps)
    moreover have "count mod n < n" using assms(1) by simp
    ultimately show ?thesis using div_mult_mod_eq [of count n] by linarith
  qed
qed

lemma pageWindow_spec:
  assumes p: "page_param r = Some page" "pageSize_param r count = Some n" and count: "0 \<le> count" "count < 2 ^ 62"
  shows "pageWindow r count = Some (Inr (min ((page - 1) * n) count, min (min ((page - 1) * n) count + n) count))"
proof (cases "count = 0")
  case True
  have "0 \<le> (page - 1) * n" using page_params [OF p count(1)] by simp
  with True page_params(3) [OF p count(1)] p show ?thesis by (simp add: pageWindow_def min_absorb2)
next
  case False
  note params = page_params [OF p count(1)]
  have "n \<noteq> 0" using params(4) False by auto
  then have n: "0 < n" "n < 2 ^ 62" using params(3,5) count by auto
  note guard = page_guard [OF n(1) count(1), of "page - 1"]
  have first: "wrap64 (page - 1) = page - 1" using params by (intro wrap64_id) simp_all
  have "0 \<le> (page - 1) * n" using params n by simp
  then have product: "wrap64 ((page - 1) * n) = (page - 1) * n" if "page - 1 \<le> count div n"
    using guard(1) [OF that] count by (intro wrap64_id) simp_all
  have sum: "wrap64 (x + n) = x + n" if "0 \<le> x" "x \<le> count" for x
    using that count n by (intro wrap64_id) simp_all
  have start: "(if (if page - 1 \<le> count div n then wrap64 ((page - 1) * n) else count) > count then count
      else (if page - 1 \<le> count div n then wrap64 ((page - 1) * n) else count)) = min ((page - 1) * n) count"
    using guard product by (auto simp: min_def)
  have "wrap64 (min ((page - 1) * n) count + n) = min ((page - 1) * n) count + n"
    by (rule sum) (use count \<open>0 \<le> (page - 1) * n\<close> in simp_all)
  with start n(1) False p show ?thesis unfolding pageWindow_def by (simp only: first option.case Let_def) simp
qed

text \<open>The page as the reader expects it: skip the earlier pages, show the next \<open>n\<close> updates.\<close>

definition page_of :: "int \<Rightarrow> int \<Rightarrow> 'a list \<Rightarrow> 'a list" where
  "page_of page n xs = take (nat n) (drop (nat ((page - 1) * n)) xs)"

lemma slice_page:
  assumes "1 \<le> page" "0 \<le> n"
  shows "slice xs (min ((page - 1) * n) (int (length xs))) (min (min ((page - 1) * n) (int (length xs)) + n) (int (length xs))) =
    Some (page_of page n xs)"
proof (cases "(page - 1) * n \<le> int (length xs)")
  case True
  have pos: "0 \<le> (page - 1) * n" using assms by simp
  have "take (nat (min ((page - 1) * n + n) (int (length xs)) - (page - 1) * n)) ys = take (nat n) ys"
    if "ys = drop (nat ((page - 1) * n)) xs" for ys
    using True pos assms(2) that by (cases "(page - 1) * n + n \<le> int (length xs)") (simp_all add: min_def nat_le_iff)
  with True pos assms(2) show ?thesis by (simp add: slice_def page_of_def min_def)
next
  case False
  then have "length xs \<le> nat ((page - 1) * n)" by linarith
  with False assms show ?thesis by (simp add: slice_def page_of_def min_def)
qed

lemma page_response_spec:
  assumes "length updates < 2 ^ 62"
  shows "page_response r updates =
     (case page_param r of
        None \<Rightarrow> writeError 400 ''invalid page''
      | Some page \<Rightarrow> (case pageSize_param r (int (length updates)) of
          None \<Rightarrow> writeError 400 ''invalid pageSize''
        | Some n \<Rightarrow> writeJSON 200 (JObj [(''updates'', JArr (map updateInfo (page_of page n updates)))])))"
proof (cases "page_param r = None \<or> pageSize_param r (int (length updates)) = None")
  case True
  then show ?thesis by (cases "page_param r") (simp_all add: page_response_def pageWindow_def)
next
  case False
  then obtain page n where p: "page_param r = Some page" "pageSize_param r (int (length updates)) = Some n" by auto
  have "int (length updates) < 2 ^ 62" using of_nat_less_iff [of "length updates" "2 ^ 62", where 'a = int] assms by simp
  from pageWindow_spec [OF p _ this] slice_page [of page n updates] page_params [OF p] p
  show ?thesis by (simp add: page_response_def)
qed

text \<open>
  C16. Paging. For every request and every history of fewer than \<open>2^62\<close> updates the code's window
  arithmetic, in 64-bit integers that wrap around, shows exactly the page that skips \<open>page - 1\<close>
  pages and takes the next \<open>pageSize\<close> updates, or answers 400 for a parameter out of
  range; no page number, however large, makes a product overflow into a negative index, so neither
  the division nor the slice expression panics.
\<close>

theorem page_response_exact:
  assumes "length updates < 2 ^ 62"
  shows "page_response r updates =
     (case page_param r of
        None \<Rightarrow> writeError 400 ''invalid page''
      | Some page \<Rightarrow> (case pageSize_param r (int (length updates)) of
          None \<Rightarrow> writeError 400 ''invalid pageSize''
        | Some n \<Rightarrow> writeJSON 200 (JObj [(''updates'', JArr (map updateInfo (page_of page n updates)))]))) \<and>
   page_response r updates \<noteq> panicked"
proof -
  note response = page_response_spec [OF assms, of r]
  have "rs_Status (page_response r updates) \<noteq> 0"
    unfolding response by (simp add: writeError_def writeJSON_def split: option.split)
  then have "page_response r updates \<noteq> panicked" by (auto simp: panicked_def)
  with response show ?thesis by blast
qed

definition demo_page :: "string \<Rightarrow> request" where
  "demo_page page = plain_request\<lparr>rq_Query := [(''page'', page), (''pageSize'', ''2'')]\<rparr>"

text \<open>Page 2, and a page number whose product with the page size is \<open>- (2^63)\<close> in 64 bits.\<close>

theorem page_response_exact_witness:
  "page_response (demo_page ''2'') (map (\<lambda>v. zero_update\<lparr>u_Version := v\<rparr>) [3, 2, 1]) =
     writeJSON 200 (JObj [(''updates'', JArr [updateInfo (zero_update\<lparr>u_Version := 1\<rparr>)])]) \<and>
   page_response (demo_page ''4611686018427387905'') (map (\<lambda>v. zero_update\<lparr>u_Version := v\<rparr>) [3, 2, 1]) =
     writeJSON 200 (JObj [(''updates'', JArr [])])"
proof -
  let ?us = "map (\<lambda>v. zero_update\<lparr>u_Version := v\<rparr>) [3, 2, 1]"
  have num: "Atoi ''2'' = Some 2" "Atoi ''4611686018427387905'' = Some 4611686018427387905"
    by (simp_all add: Atoi_def digits_val_def digit_val_def is_digit_def)
  have "page_param (demo_page ''2'') = Some 2" "page_param (demo_page ''4611686018427387905'') = Some 4611686018427387905"
    "pageSize_param (demo_page s) (int (length ?us)) = Some 2" for s
    by (simp_all add: page_param_def pageSize_param_def Query_Get_def demo_page_def lookup_or_empty_def num)
  with page_response_exact [of ?us "demo_page ''2''"] page_response_exact [of ?us "demo_page ''4611686018427387905''"]
  show ?thesis by (simp add: page_of_def)
qed

section \<open>The lease that is granted\<close>

lemma lease_product:
  assumes "- 9223372036 \<le> sint (n :: int64)" "sint n \<le> 9223372036"
  shows "sint (n * word_of_int second) = sint n * second"
proof -
  have "sint (word_of_int second :: int64) = second" by simp
  then have "sint (n * word_of_int second) = signed_take_bit 63 (sint n * second)" by (simp add: sint_word_mult)
  also have "\<dots> = sint n * second" using assms by (intro signed_take_bit_int_eq_self) simp_all
  finally show ?thesis .
qed

lemma lease_duration_range: "0 < lease_duration n" "lease_duration n \<le> 300 * second"
  by (simp_all add: lease_duration_def Let_def)

lemma lease_duration_exact:
  assumes "- 9223372036 \<le> sint n" "sint n \<le> 9223372036"
  shows "lease_duration n = (if 1 \<le> sint n \<and> sint n \<le> 300 then sint n * second else 300 * second)"
  using lease_product [OF assms] by (simp add: lease_duration_def Let_def)

end
