(* ===== verification/Stacks.thy ===== *)
theory Stacks
  imports Updates
begin

text \<open>
  The endpoints of stacks (\<^verbatim>\<open>internal/api/stacks.go\<close>): creation with an optional initial state
  and its rollback, reading, deletion, export and import. The 30 second limit of the rollback
  is a failure of its requests.
\<close>

section \<open>Creation\<close>

record createStackRequest =
  sq_StackName :: string
  sq_State :: "json option"

definition createStack_field :: "createStackRequest \<Rightarrow> string \<Rightarrow> json \<Rightarrow> createStackRequest option" where
  "createStack_field q k j =
     (if same_name k ''stackName'' then map_option (\<lambda>x. q\<lparr>sq_StackName := x\<rparr>) (dec_string j (sq_StackName q))
      else if same_name k ''state'' then map_option (\<lambda>x. q\<lparr>sq_State := x\<rparr>) (dec_raw j (sq_State q))
      else Some q)"

definition decode_createStack :: "json \<Rightarrow> createStackRequest option" where
  "decode_createStack j = dec_struct createStack_field j \<lparr>sq_StackName = '''', sq_State = None\<rparr>"

definition rollbackFailedStackCreation ::
  "Server \<Rightarrow> string \<Rightarrow> string \<Rightarrow> string \<Rightarrow> string \<Rightarrow> string \<Rightarrow> (error + unit) prog" where
  "rollbackFailedStackCreation s org project stackName incarnation owner =
     call NewUpdateID (\<lambda>i. let updateID = ''delete-'' @ i in
     call (AcquireLock org project stackName incarnation updateID owner (LeaseDuration s)) (\<lambda>x. case x of
       Inl err \<Rightarrow> Return (Inl (Wrap ''acquire lock: '' err))
     | Inr lock \<Rightarrow>
         let release = (\<lambda>result. call (releaseLockOnExit org project stackName updateID (l_Generation lock))
               (\<lambda>_. Return result))
         in call (GetStack org project stackName) (\<lambda>y. case y of
              Inl err \<Rightarrow> release (Inl (Wrap ''get stack: '' err))
            | Inr st \<Rightarrow>
                if st_Incarnation st \<noteq> incarnation then release (Inl ErrConcurrentMutation)
                else call (DeleteStack org project stackName incarnation updateID (l_Generation lock)) (\<lambda>z. case z of
                  Inl err \<Rightarrow> Return (Inl (Wrap ''delete stack: '' err))
                | Inr _ \<Rightarrow> Return (Inr ())))))"

text \<open>Saving the initial state of a new stack; a failure removes the stack again.\<close>

definition createStack_state ::
  "Server \<Rightarrow> request \<Rightarrow> string \<Rightarrow> string \<Rightarrow> string \<Rightarrow> string \<Rightarrow> json \<Rightarrow> response prog \<Rightarrow> response prog" where
  "createStack_state s r org project stackName incarnation state finished =
     attempt (SaveCheckpoint (sv_sha s) org project stackName incarnation '''' 0 0 state)
       (\<lambda>err. call (rollbackFailedStackCreation s org project stackName incarnation (Principal (identity r))) (\<lambda>x.
          let err' = (case x of Inl rollbackErr \<Rightarrow> Join err (Wrap ''rolling back stack creation: '' rollbackErr) | Inr _ \<Rightarrow> err)
          in Return (internalError err' ''saving initial state failed'')))
       (\<lambda>_. finished)"

definition createStack :: handler_func where
  "createStack s r = (case decodeBody r decode_createStack of
      Inl err \<Rightarrow> Return (writeDecodeError err ''invalid request'')
    | Inr q \<Rightarrow>
        if \<not> validStorageSegment (sq_StackName q) then Return (writeError 400 ''invalid request'')
        else let org = PathValue r ''org''; project = PathValue r ''project''; stackName = sq_StackName q;
            finished = Return (writeJSON 200 (JObj [(''messages'', JArr [])]))
          in case authorize s r Write org project stackName of
               Some denied \<Rightarrow> Return denied
             | None \<Rightarrow> attempt (CreateStack org project stackName) (store_fail ''creating stack failed'') (\<lambda>created.
                 case sq_State q of
                   None \<Rightarrow> finished
                 | Some state \<Rightarrow>
                     createStack_state s r org project stackName (st_Incarnation created) state finished))"

section \<open>Reading\<close>

definition headProject :: handler_func where
  "headProject s r = (case authorizeProject s r Read (PathValue r ''org'') (PathValue r ''project'') of
      Some denied \<Rightarrow> Return denied
    | None \<Rightarrow> Return (WriteHeader 204))"

definition getStack_json :: "stack \<Rightarrow> lock option \<Rightarrow> json" where
  "getStack_json st lock = JObj (
     (case lock of None \<Rightarrow> [] | Some l \<Rightarrow> [
        (''activeUpdate'', JStr (l_UpdateID l)),
        (''currentOperation'', JObj [(''author'', JStr (l_Owner l)), (''kind'', JStr ''update''),
           (''started'', JInt (unix (l_ExpiresAt l)))])]) @
     [(''orgName'', JStr (st_Org st)), (''projectName'', JStr (st_Project st)), (''stackName'', JStr (st_Name st)),
      (''version'', JInt (sint (st_Version st)))])"

definition getStack :: handler_func where
  "getStack s r =
     (let org = PathValue r ''org''; project = PathValue r ''project''; stackName = PathValue r ''stack''
      in attempt (GetStack org project stackName) (store_fail ''reading stack failed'') (\<lambda>st.
         call (GetLock org project stackName) (\<lambda>x.
         Return (writeJSON 200 (getStack_json st (case x of Inl err \<Rightarrow> None | Inr lock \<Rightarrow> Some lock))))))"

section \<open>Deletion\<close>

text \<open>
  \<^verbatim>\<open>checkpointHasResources\<close>: the number of elements of the array \<^verbatim>\<open>deployment.resources\<close>;
  \<open>None\<close> is a decoding error.
\<close>

definition resources_field :: "nat \<Rightarrow> string \<Rightarrow> json \<Rightarrow> nat option" where
  "resources_field n k j = (if same_name k ''resources'' then
     (case j of JNull \<Rightarrow> Some 0 | JArr rs \<Rightarrow> Some (length rs) | _ \<Rightarrow> None) else Some n)"

definition deployment_field :: "nat \<Rightarrow> string \<Rightarrow> json \<Rightarrow> nat option" where
  "deployment_field n k j = (if same_name k ''deployment'' then dec_struct resources_field j n else Some n)"

definition checkpointHasResources :: "json \<Rightarrow> bool option" where
  "checkpointHasResources raw = map_option (\<lambda>n. n > 0) (dec_struct deployment_field raw 0)"

text \<open>The check that the stack is empty; \<open>None\<close> lets the deletion go on.\<close>

definition deleteStack_check :: "request \<Rightarrow> response option prog" where
  "deleteStack_check r =
     (if Query_Get r ''force'' = ''true'' then Return None
      else call (GetCheckpoint (PathValue r ''org'') (PathValue r ''project'') (PathValue r ''stack'')) (\<lambda>x. case x of
          Inr checkpoint \<Rightarrow> (case checkpointHasResources checkpoint of
              None \<Rightarrow> Return (Some (internalError (Wrap ''parse checkpoint: '' json_error) ''reading stack checkpoint failed''))
            | Some hasResources \<Rightarrow>
                Return (if hasResources then Some (writeError 400 ''Bad Request: Stack still contains resources.'') else None))
        | Inl err \<Rightarrow>
            if errors_Is err ErrCheckpointNotFound then Return None
            else Return (Some (internalError err ''reading stack checkpoint failed''))))"

text \<open>
  The lock for the deletion: a new one, or the caller's own deletion lock, renewed. The result
  is the update in whose name the lock is held and the lock.
\<close>

definition deleteStack_lock :: "Server \<Rightarrow> request \<Rightarrow> stack \<Rightarrow> string \<Rightarrow> (response + string \<times> lock) prog" where
  "deleteStack_lock s r st updateID =
     (let org = PathValue r ''org''; project = PathValue r ''project''; stackName = PathValue r ''stack'';
          owner = Principal (identity r)
      in call (AcquireLock org project stackName (st_Incarnation st) updateID owner (LeaseDuration s)) (\<lambda>x. case x of
           Inr lock \<Rightarrow> Return (Inr (updateID, lock))
         | Inl err \<Rightarrow>
             let refuse = Return (Inl (writeStoreError err ''locking stack for deletion failed''))
             in case errors_As_held err of
               None \<Rightarrow> refuse
             | Some held \<Rightarrow>
                 if l_Owner held \<noteq> owner \<or> \<not> HasPrefix (l_UpdateID held) ''delete-'' then refuse
                 else TimeNow (\<lambda>now. if Expired held now then refuse
                   else call (RenewLock org project stackName (l_UpdateID held) (l_Generation held) (LeaseDuration s)) (\<lambda>y.
                     case y of
                       Inl renewErr \<Rightarrow> Return (Inl (writeStoreError renewErr ''renewing deletion lock failed''))
                     | Inr lock \<Rightarrow> Return (Inr (l_UpdateID held, lock))))))"

definition deleteStack :: handler_func where
  "deleteStack s r =
     (let org = PathValue r ''org''; project = PathValue r ''project''; stackName = PathValue r ''stack''
      in attempt (GetStack org project stackName) (store_fail ''reading stack for deletion failed'') (\<lambda>st.
         call NewUpdateID (\<lambda>i.
         call (deleteStack_lock s r st (''delete-'' @ i)) (\<lambda>x. case x of
           Inl resp \<Rightarrow> Return resp
         | Inr (updateID, lock) \<Rightarrow>
             call (deleteStack_check r) (\<lambda>refused. case refused of
               Some resp \<Rightarrow> call (releaseLockOnExit org project stackName updateID (l_Generation lock)) (\<lambda>_. Return resp)
             | None \<Rightarrow>
                 attempt (DeleteStack org project stackName (st_Incarnation st) updateID (l_Generation lock))
                   (store_fail ''deleting stack failed'') (\<lambda>_. Return (WriteHeader 204)))))))"

section \<open>Export and import\<close>

definition empty_deployment :: json where
  "empty_deployment = JObj [(''version'', JInt 3), (''deployment'', JObj [])]"

text \<open>The stored checkpoint is valid JSON whenever the store returns it, so \<^verbatim>\<open>json.Valid\<close> holds.\<close>

definition exportStack :: handler_func where
  "exportStack s r =
     (let org = PathValue r ''org''; project = PathValue r ''project''; stackName = PathValue r ''stack'';
          v = PathValue r ''version'';
          finish = (\<lambda>x. case x of
             Inr raw \<Rightarrow> Return (writeJSON 200 raw)
           | Inl err \<Rightarrow>
               if \<not> errors_Is err ErrCheckpointNotFound \<or> v \<noteq> '''' then store_fail ''reading checkpoint failed'' err
               else Return (writeJSON 200 empty_deployment))
      in if v \<noteq> '''' then
           (case Atoi v of
              None \<Rightarrow> Return (writeError 400 ''invalid version'')
            | Some version \<Rightarrow> call (GetCheckpointVersion org project stackName (word_of_int version)) finish)
         else call (GetCheckpoint org project stackName) finish)"

text \<open>The import proper, while the lock is held.\<close>

definition importStack_locked :: "Server \<Rightarrow> request \<Rightarrow> string \<Rightarrow> lock \<Rightarrow> json \<Rightarrow> response prog" where
  "importStack_locked s r updateID lock deployment =
     (let org = PathValue r ''org''; project = PathValue r ''project''; stackName = PathValue r ''stack''
      in attempt (CreateUpdate org project stackName ''import'' updateID) (store_fail ''creating import update failed'') (\<lambda>u.
         attempt (StartUpdate org project stackName updateID) (store_fail ''starting import update failed'') (\<lambda>_.
         attempt (SaveCheckpoint (sv_sha s) org project stackName (u_Incarnation u) updateID (l_Generation lock)
             (u_Version u) deployment) (\<lambda>err. Return (internalError err ''saving checkpoint failed'')) (\<lambda>_.
         attempt (CompleteUpdate org project stackName updateID ''succeeded'' ''import'' [])
           (\<lambda>err. Return (internalError err ''completing import failed'')) (\<lambda>_.
         Return (writeJSON 200 (JObj [(''updateId'', JStr updateID)])))))))"

definition importStack :: handler_func where
  "importStack s r = (case decodeBody r (\<lambda>j. Some j) of
      Inl err \<Rightarrow> Return (writeDecodeError err ''invalid deployment'')
    | Inr deployment \<Rightarrow>
        let org = PathValue r ''org''; project = PathValue r ''project''; stackName = PathValue r ''stack''
        in attempt (GetStack org project stackName) (store_fail ''reading stack failed'') (\<lambda>st.
           call NewUpdateID (\<lambda>updateID.
           attempt (AcquireLock org project stackName (st_Incarnation st) updateID (Principal (identity r)) (LeaseDuration s))
             (store_fail ''acquiring lock failed'') (\<lambda>lock.
           call (importStack_locked s r updateID lock deployment) (\<lambda>resp.
           call (releaseLockOnExit org project stackName updateID (l_Generation lock)) (\<lambda>_. Return resp))))))"

end
