(* ===== verification/Crypto_API.thy ===== *)
theory Crypto_API
  imports Server
begin

text \<open>
  The endpoints for secrets (\<^verbatim>\<open>internal/api/crypto.go\<close>): encryption and decryption of single
  values and of batches, with their limits. A \<^verbatim>\<open>[]byte\<close> in a response is base64 text.
\<close>

definition maxCryptoBatchItems :: nat where "maxCryptoBatchItems = 1000"
definition maxCryptoPlaintextBytes :: nat where "maxCryptoPlaintextBytes = 1048576"
definition maxCryptoCiphertextBytes :: nat where "maxCryptoCiphertextBytes = 2097152"

definition requireCrypter :: "Server \<Rightarrow> response + crypter" where
  "requireCrypter s = (case sv_crypter s of
      None \<Rightarrow> Inl (writeError 500 ''secrets encryption unavailable'')
    | Some c \<Rightarrow> Inr c)"

definition encryptOne :: "request \<Rightarrow> crypter \<Rightarrow> string \<Rightarrow> (response + string) prog" where
  "encryptOne r c plaintext =
     (if length plaintext > maxCryptoPlaintextBytes then Return (Inl (writeError 413 ''plaintext too large''))
      else call (cr_Encrypt c (PathValue r ''org'') (PathValue r ''project'') (PathValue r ''stack'') plaintext) (\<lambda>x.
        case x of
          Inl err \<Rightarrow> Return (Inl (internalError err ''encryption failed''))
        | Inr ciphertext \<Rightarrow> Return (Inr ciphertext)))"

definition decryptOne :: "request \<Rightarrow> crypter \<Rightarrow> string \<Rightarrow> response + string" where
  "decryptOne r c ciphertext =
     (if length ciphertext > maxCryptoCiphertextBytes then Inl (writeError 413 ''ciphertext too large'')
      else case cr_Decrypt c (PathValue r ''org'') (PathValue r ''project'') (PathValue r ''stack'') ciphertext of
        Inl err \<Rightarrow> Inl (writeError 400 ''decryption failed'')
      | Inr plaintext \<Rightarrow> Inr plaintext)"

text \<open>A struct with one field of type \<^verbatim>\<open>[]byte\<close> or \<^verbatim>\<open>[][]byte\<close>.\<close>

definition one_field :: "string \<Rightarrow> (json \<Rightarrow> 'a option) \<Rightarrow> 'a \<Rightarrow> string \<Rightarrow> json \<Rightarrow> 'a option" where
  "one_field name dec x k j = (if same_name k name then dec j else Some x)"

definition decode_bytes :: "string \<Rightarrow> json \<Rightarrow> string option" where
  "decode_bytes name j = dec_struct (one_field name dec_bytes) j ''''"

definition decode_bytes_list :: "string \<Rightarrow> json \<Rightarrow> string list option" where
  "decode_bytes_list name j = dec_struct (one_field name dec_bytes_list) j []"

definition bytes_json :: "string \<Rightarrow> json" where
  "bytes_json b = JStr (base64_encode b)"

text \<open>\<^verbatim>\<open>gcm.Open(nil, ...)\<close> gives the nil slice for an empty plaintext, which is encoded as \<^verbatim>\<open>null\<close>.\<close>

definition plain_json :: "string \<Rightarrow> json" where
  "plain_json b = (if b = [] then JNull else bytes_json b)"

definition encryptValue :: handler_func where
  "encryptValue s r = (case requireCrypter s of
      Inl resp \<Rightarrow> Return resp
    | Inr c \<Rightarrow> (case decodeBody r (decode_bytes ''plaintext'') of
        Inl err \<Rightarrow> Return (writeDecodeError err ''invalid request'')
      | Inr plaintext \<Rightarrow> call (encryptOne r c plaintext) (\<lambda>x. case x of
            Inl resp \<Rightarrow> Return resp
          | Inr ciphertext \<Rightarrow> Return (writeJSON 200 (JObj [(''ciphertext'', bytes_json ciphertext)])))))"

definition decryptValue :: handler_func where
  "decryptValue s r = (case requireCrypter s of
      Inl resp \<Rightarrow> Return resp
    | Inr c \<Rightarrow> (case decodeBody r (decode_bytes ''ciphertext'') of
        Inl err \<Rightarrow> Return (writeDecodeError err ''invalid request'')
      | Inr ciphertext \<Rightarrow> (case decryptOne r c ciphertext of
            Inl resp \<Rightarrow> Return resp
          | Inr plaintext \<Rightarrow> Return (writeJSON 200 (JObj [(''plaintext'', plain_json plaintext)])))))"

primrec batchEncrypt_loop :: "request \<Rightarrow> crypter \<Rightarrow> string list \<Rightarrow> string list \<Rightarrow> response prog" where
  "batchEncrypt_loop r c [] out = Return (writeJSON 200 (JObj [(''ciphertexts'', JArr (map bytes_json out))]))"
| "batchEncrypt_loop r c (p # ps) out = call (encryptOne r c p) (\<lambda>x. case x of
      Inl resp \<Rightarrow> Return resp
    | Inr ct \<Rightarrow> batchEncrypt_loop r c ps (out @ [ct]))"

definition batchEncrypt :: handler_func where
  "batchEncrypt s r = (case requireCrypter s of
      Inl resp \<Rightarrow> Return resp
    | Inr c \<Rightarrow> (case decodeBody r (decode_bytes_list ''plaintexts'') of
        Inl err \<Rightarrow> Return (writeDecodeError err ''invalid request'')
      | Inr plaintexts \<Rightarrow>
          if length plaintexts > maxCryptoBatchItems then Return (writeError 413 ''crypto batch too large'')
          else batchEncrypt_loop r c plaintexts []))"

text \<open>The result maps the base64 text of each ciphertext to its plaintext.\<close>

primrec batchDecrypt_loop :: "request \<Rightarrow> crypter \<Rightarrow> string list \<Rightarrow> string smap \<Rightarrow> response" where
  "batchDecrypt_loop r c [] out =
     writeJSON 200 (JObj [(''plaintexts'', JObj (map (\<lambda>(k, v). (k, plain_json v)) out))])"
| "batchDecrypt_loop r c (ct # cts) out = (case decryptOne r c ct of
      Inl resp \<Rightarrow> resp
    | Inr pt \<Rightarrow> batchDecrypt_loop r c cts (sm_put (base64_encode ct) pt out))"

definition batchDecrypt :: handler_func where
  "batchDecrypt s r = (case requireCrypter s of
      Inl resp \<Rightarrow> Return resp
    | Inr c \<Rightarrow> (case decodeBody r (decode_bytes_list ''ciphertexts'') of
        Inl err \<Rightarrow> Return (writeDecodeError err ''invalid request'')
      | Inr ciphertexts \<Rightarrow>
          if length ciphertexts > maxCryptoBatchItems then Return (writeError 413 ''crypto batch too large'')
          else Return (batchDecrypt_loop r c ciphertexts [])))"

section \<open>The crypter behind the endpoints\<close>

text \<open>\<^verbatim>\<open>*secrets.Crypter\<close> as a \<^verbatim>\<open>Crypter\<close>.\<close>

definition secrets_crypter :: "('b, 'g) crypto \<Rightarrow> Crypter \<Rightarrow> crypter" where
  "secrets_crypter cl c = \<lparr>cr_Encrypt = Encrypt cl c, cr_Decrypt = Decrypt cl c\<rparr>"

text \<open>
  What the endpoints rely on: encryption succeeds, and decryption for the same stack gives the
  value back. The results for batches follow from this contract alone.
\<close>

locale crypter_contract =
  fixes h :: "'w handler" and c :: crypter
  assumes crypter_roundtrip: "run h (cr_Encrypt c org project stack x) w = (res, w') \<Longrightarrow>
    \<exists>ct. res = Inr ct \<and> cr_Decrypt c org project stack ct = Inr x"
begin

abbreviation decrypts :: "request \<Rightarrow> string \<Rightarrow> string \<Rightarrow> bool" where
  "decrypts r ct x \<equiv> cr_Decrypt c (PathValue r ''org'') (PathValue r ''project'') (PathValue r ''stack'') ct = Inr x"

lemma run_encryptOne:
  assumes "length x \<le> maxCryptoPlaintextBytes"
  obtains ct w' where "run h (encryptOne r c x) w = (Inr ct, w')" "decrypts r ct x"
proof -
  obtain res w' where run: "run h (cr_Encrypt c (PathValue r ''org'') (PathValue r ''project'') (PathValue r ''stack'') x) w = (res, w')"
    by (cases "run h (cr_Encrypt c (PathValue r ''org'') (PathValue r ''project'') (PathValue r ''stack'') x) w")
  from crypter_roundtrip [OF run] obtain ct where "res = Inr ct" "decrypts r ct x" by blast
  with run assms that show thesis by (simp add: encryptOne_def)
qed

lemma run_batchEncrypt_loop:
  assumes "list_all (\<lambda>x. length x \<le> maxCryptoPlaintextBytes) ps"
  shows "\<exists>cts w'. run h (batchEncrypt_loop r c ps out) w =
      (writeJSON 200 (JObj [(''ciphertexts'', JArr (map bytes_json (out @ cts)))]), w') \<and> list_all2 (decrypts r) cts ps"
  using assms
proof (induction ps arbitrary: out w)
  case Nil
  show ?case by (intro exI [of _ "[]"]) simp
next
  case (Cons p ps)
  from Cons.prems obtain ct w1 where one: "run h (encryptOne r c p) w = (Inr ct, w1)" "decrypts r ct p"
    using run_encryptOne [of p r w] by auto
  from Cons.IH [of "out @ [ct]" w1] Cons.prems obtain cts w' where
    "run h (batchEncrypt_loop r c ps (out @ [ct])) w1 =
       (writeJSON 200 (JObj [(''ciphertexts'', JArr (map bytes_json ((out @ [ct]) @ cts)))]), w')" "list_all2 (decrypts r) cts ps"
    by auto
  with one show ?case by (intro exI [of _ "ct # cts"] exI [of _ w']) simp
qed

lemma run_batchEncrypt_loop_large:
  assumes "\<not> list_all (\<lambda>x. length x \<le> maxCryptoPlaintextBytes) ps"
  shows "\<exists>w'. run h (batchEncrypt_loop r c ps out) w = (writeError 413 ''plaintext too large'', w')"
  using assms
proof (induction ps arbitrary: out w)
  case (Cons p ps)
  show ?case
  proof (cases "length p \<le> maxCryptoPlaintextBytes")
    case True
    then obtain ct w1 where "run h (encryptOne r c p) w = (Inr ct, w1)" using run_encryptOne by blast
    with Cons True show ?thesis by simp
  qed (simp add: encryptOne_def)
qed simp

end

text \<open>The loop of \<^verbatim>\<open>batchDecrypt\<close> collects the plaintexts under the base64 text of their ciphertexts.\<close>

lemma batchDecrypt_loop_fold:
  assumes "list_all (\<lambda>ct. decryptOne r c ct = Inr (f ct)) cts"
  shows "batchDecrypt_loop r c cts out = writeJSON 200 (JObj [(''plaintexts'',
     JObj (map (\<lambda>(k, v). (k, plain_json v)) (fold (\<lambda>ct. sm_put (base64_encode ct) (f ct)) cts out)))])"
  using assms by (induction cts arbitrary: out) simp_all

lemma base64_encode_inject: "base64_encode a = base64_encode b \<longleftrightarrow> a = b"
  by (metis base64_decode_encode option.inject)

lemma fold_put_get:
  "sm_get (fold (\<lambda>ct. sm_put (base64_encode ct) (f ct)) cts out) (base64_encode ct) =
     (if ct \<in> set cts then Some (f ct) else sm_get out (base64_encode ct))"
  by (induction cts arbitrary: out) (auto simp: base64_encode_inject)

definition batch_decrypts :: "request \<Rightarrow> crypter \<Rightarrow> string list \<Rightarrow> string list \<Rightarrow> bool" where
  "batch_decrypts r c cts ps \<longleftrightarrow> list_all2 (\<lambda>ct x. decryptOne r c ct = Inr x) cts ps"

lemma batchDecrypt_answer:
  assumes "batch_decrypts r c cts ps"
  obtains m where "batchDecrypt_loop r c cts [] = writeJSON 200 (JObj [(''plaintexts'', JObj (map (\<lambda>(k, x). (k, plain_json x)) m))])"
    "\<forall>i < length ps. sm_get m (base64_encode (cts ! i)) = Some (ps ! i)"
proof -
  let ?f = "\<lambda>ct. projr (decryptOne r c ct)"
  have nth: "length cts = length ps" "\<forall>i < length ps. decryptOne r c (cts ! i) = Inr (ps ! i)"
    using assms by (simp_all add: batch_decrypts_def list_all2_conv_all_nth)
  then have "list_all (\<lambda>ct. decryptOne r c ct = Inr (?f ct)) cts" by (simp add: list_all_length)
  from batchDecrypt_loop_fold [OF this, of "[]"] show thesis
    by (rule that) (use nth in \<open>simp add: fold_put_get\<close>)
qed

lemma decode_bytes_list_json:
  "decode_bytes_list name (JObj [(name, JArr (map bytes_json xs))]) = Some xs"
proof -
  have "those (map dec_bytes (map bytes_json xs)) = Some xs"
    by (induction xs) (simp_all add: bytes_json_def)
  then show ?thesis by (simp add: decode_bytes_list_def one_field_def same_name_def)
qed

text \<open>The library of package \<^verbatim>\<open>secrets\<close> meets the contract.\<close>

locale secrets_library =
  fixes cl :: "('b, 'g) crypto" and h :: "'w handler"
  assumes laws: "crypto_laws cl" and rand_read: "\<forall>n w. length (fst (h_rand h n w)) = n"

lemma secrets_contract:
  "crypto_laws cl \<Longrightarrow> \<forall>n w. length (fst (h_rand h n w)) = n \<Longrightarrow> crypter_contract h (secrets_crypter cl c)"
  by unfold_locales (simp add: secrets_crypter_def, blast dest: Encrypt_Decrypt)

sublocale secrets_library \<subseteq> crypter_contract h "secrets_crypter cl c" for c
  using laws rand_read by (rule secrets_contract)

interpretation ref_secrets: secrets_library plain_crypto ref_service
  by unfold_locales (simp_all add: plain_crypto_laws ref_service_def ref_rand_def)

text \<open>
  C17. Batches of secrets. A batch within the limits (at most 1000 values of at most 1 MiB each)
  is answered with one ciphertext per value; the body of the answer is itself a valid body for
  \<^verbatim>\<open>batchDecrypt\<close>, and sent for the same stack it is answered with every value under the base64
  text of its ciphertext. A larger batch or value is refused with status 413.
\<close>

theorem batch_secrets_roundtrip:
  assumes laws: "crypto_laws cl" "\<forall>n w. length (fst (h_rand h n w)) = n"
    and crypter: "sv_crypter s = Some (secrets_crypter cl c)"
    and body: "decodeBody r (decode_bytes_list ''plaintexts'') = Inr ps"
    and run: "run h (batchEncrypt s r) w = (resp, w')"
  shows "if length ps \<le> 1000 \<and> list_all (\<lambda>x. length x \<le> 1048576) ps
    then \<exists>j cts. resp = writeJSON 200 j \<and> decode_bytes_list ''ciphertexts'' j = Some cts \<and> length cts = length ps \<and>
      (\<forall>r' v. rq_PathValues r' = rq_PathValues r \<and> decodeBody r' (decode_bytes_list ''ciphertexts'') = Inr cts \<and>
         list_all (\<lambda>ct. length ct \<le> 2097152) cts \<longrightarrow>
         (\<exists>m. run h (batchDecrypt s r') v = (writeJSON 200 (JObj [(''plaintexts'', JObj (map (\<lambda>(k, x). (k, plain_json x)) m))]), v) \<and>
            (\<forall>i < length ps. sm_get m (base64_encode (cts ! i)) = Some (ps ! i))))
    else rs_Status resp = 413"
proof -
  let ?c = "secrets_crypter cl c"
  note contract = secrets_contract [OF laws, of c]
  have crypter': "requireCrypter s = Inr ?c" by (simp add: requireCrypter_def crypter)
  have limits: "maxCryptoBatchItems = 1000" "maxCryptoPlaintextBytes = 1048576" "maxCryptoCiphertextBytes = 2097152"
    by (simp_all add: maxCryptoBatchItems_def maxCryptoPlaintextBytes_def maxCryptoCiphertextBytes_def)
  show ?thesis
  proof (cases "length ps \<le> 1000 \<and> list_all (\<lambda>x. length x \<le> 1048576) ps")
    case True
    from crypter_contract.run_batchEncrypt_loop [OF contract, of ps r "[]" w] True obtain cts w1 where
      enc: "run h (batchEncrypt_loop r ?c ps []) w = (writeJSON 200 (JObj [(''ciphertexts'', JArr (map bytes_json cts))]), w1)"
      and dec: "list_all2 (\<lambda>ct x. cr_Decrypt ?c (PathValue r ''org'') (PathValue r ''project'') (PathValue r ''stack'') ct = Inr x) cts ps"
      by (auto simp: limits)
    have "resp = writeJSON 200 (JObj [(''ciphertexts'', JArr (map bytes_json cts))])"
      using run enc True body by (simp add: batchEncrypt_def crypter' limits)
    moreover have "\<exists>m. run h (batchDecrypt s r') v = (writeJSON 200 (JObj [(''plaintexts'', JObj (map (\<lambda>(k, x). (k, plain_json x)) m))]), v) \<and>
        (\<forall>i < length ps. sm_get m (base64_encode (cts ! i)) = Some (ps ! i))"
      if r': "rq_PathValues r' = rq_PathValues r" "decodeBody r' (decode_bytes_list ''ciphertexts'') = Inr cts"
        "list_all (\<lambda>ct. length ct \<le> 2097152) cts" for r' v
    proof -
      have "batch_decrypts r' ?c cts ps" using dec r'(1,3)
        by (fastforce simp: batch_decrypts_def PathValue_def decryptOne_def limits list_all2_conv_all_nth list_all_length)
      from batchDecrypt_answer [OF this] obtain m where "batchDecrypt_loop r' ?c cts [] = writeJSON 200 (JObj [(''plaintexts'', JObj (map (\<lambda>(k, x). (k, plain_json x)) m))])"
        "\<forall>i < length ps. sm_get m (base64_encode (cts ! i)) = Some (ps ! i)" by blast
      moreover have "length cts \<le> 1000" using list_all2_lengthD [OF dec] True by simp
      ultimately show ?thesis using r'(2) by (intro exI [of _ m]) (simp add: batchDecrypt_def crypter' limits)
    qed
    ultimately show ?thesis
      using True list_all2_lengthD [OF dec] decode_bytes_list_json by auto
  next
    case False
    then show ?thesis
      using run body crypter_contract.run_batchEncrypt_loop_large [OF contract, of ps r "[]" w]
      by (auto simp: batchEncrypt_def crypter' limits split: if_splits)
  qed
qed

definition demo_vault :: Server where
  "demo_vault = demo_server\<lparr>sv_crypter := Some (secrets_crypter plain_crypto \<lparr>rootKey = ''k''\<rparr>)\<rparr>"

definition demo_secrets :: request where
  "demo_secrets = plain_request\<lparr>rq_Body := (rq_Body plain_request)\<lparr>
     rb_value := Some (JObj [(''plaintexts'', JArr (map bytes_json [''secret'', []]))])\<rparr>\<rparr>"

theorem batch_secrets_roundtrip_witness:
  "\<exists>j cts. fst (run ref_service (batchEncrypt demo_vault demo_secrets) (world_at 0)) = writeJSON 200 j \<and>
     decode_bytes_list ''ciphertexts'' j = Some cts \<and> length cts = 2"
proof -
  obtain resp w' where run: "run ref_service (batchEncrypt demo_vault demo_secrets) (world_at 0) = (resp, w')"
    by (cases "run ref_service (batchEncrypt demo_vault demo_secrets) (world_at 0)")
  have crypter: "sv_crypter demo_vault = Some (secrets_crypter plain_crypto \<lparr>rootKey = ''k''\<rparr>)" by (simp add: demo_vault_def)
  have body: "decodeBody demo_secrets (decode_bytes_list ''plaintexts'') = Inr [''secret'', []]"
    using decode_bytes_list_json [of "''plaintexts''" "[''secret'', []]"]
    by (simp add: decodeBody_def demo_secrets_def plain_request_def)
  from batch_secrets_roundtrip [OF plain_crypto_laws ref_secrets.rand_read crypter body run] run show ?thesis by auto
qed

end
