(* ===== verification/Auth_API.thy ===== *)
theory Auth_API
  imports Server
begin

text \<open>
  The endpoints around identities (\<^verbatim>\<open>internal/api/auth.go\<close>): the exchange of an ID token for a
  backend token, the user's own data, and the lists of stacks.
\<close>

definition token_field :: "string \<Rightarrow> string \<Rightarrow> json \<Rightarrow> string option" where
  "token_field x k j = (if same_name k ''token'' then dec_string j x else Some x)"

definition decode_token :: "json \<Rightarrow> string option" where
  "decode_token j = dec_struct token_field j ''''"

text \<open>The identity of the presented token; in local mode any credential stands for one.\<close>

definition exchange_identity :: "Server \<Rightarrow> string \<Rightarrow> error + Identity" where
  "exchange_identity s token =
     (if NoAuth s then Inr (IdentityFromToken (sv_jwt s) (sv_sha256hex s) token) else sv_oidc s token)"

definition tokenExchange :: handler_func where
  "tokenExchange s r = (case decodeBody r decode_token of
      Inl err \<Rightarrow> Return (writeDecodeError err ''invalid request'')
    | Inr token \<Rightarrow>
        if token = '''' then Return (writeError 400 ''invalid request'')
        else case exchange_identity s token of
          Inl err \<Rightarrow> Return (writeError 401 ''invalid identity token'')
        | Inr ident \<Rightarrow>
            if \<not> NoAuth s \<and> \<not> HasAnyGrant (sv_authz s) (id_Groups ident)
            then Return (writeError 403 ''access denied'')
            else attempt (Issue (sv_jwt s) (sv_issuer s) ident)
              (\<lambda>err. Return (internalError err ''token issuance failed'')) (\<lambda>tok.
              TimeNow (\<lambda>now. Return (writeJSON 200 (JObj [(''token'', JStr tok),
                (''expiresAt'', JInt (unix (now + cfg_TokenTTL (sv_cfg s))))])))))"

definition whoami :: handler_func where
  "whoami s r =
     (let ident = identity r
      in Return (writeJSON 200 (JObj [
           (''avatarUrl'', JStr ''''),
           (''email'', JStr ''''),
           (''githubLogin'', JStr (id_Username ident)),
           (''id'', JStr (Principal ident)),
           (''identities'', JArr []),
           (''name'', JStr (id_Username ident)),
           (''organizations'', JArr [])])))"

definition defaultOrg :: handler_func where
  "defaultOrg s r = Return (writeError 404 ''default organization not supported'')"

definition capabilities :: handler_func where
  "capabilities s r = Return (writeJSON 200 (JObj [(''capabilities'', JArr [])]))"

definition healthz :: handler_func where
  "healthz s r = Return \<lparr>rs_Status = 200, rs_Body = TextBody ''ok''\<rparr>"

definition authorizeListStack :: "Server \<Rightarrow> request \<Rightarrow> string \<Rightarrow> string \<Rightarrow> string \<Rightarrow> bool" where
  "authorizeListStack s r org project stack \<longleftrightarrow>
     NoAuth s \<or> Allows (sv_authz s) (id_Groups (identity r)) Read org project stack"

definition summary :: "stack \<Rightarrow> json" where
  "summary st = JObj [(''orgName'', JStr (st_Org st)), (''projectName'', JStr (st_Project st)), (''stackName'', JStr (st_Name st))]"

fun listStacks_loop :: "Server \<Rightarrow> request \<Rightarrow> string \<Rightarrow> stack list \<Rightarrow> json list \<Rightarrow> json list" where
  "listStacks_loop s r project [] out = out"
| "listStacks_loop s r project (st # sts) out =
     (if \<not> authorizeListStack s r (st_Org st) (st_Project st) (st_Name st) then listStacks_loop s r project sts out
      else if project \<noteq> '''' \<and> st_Project st \<noteq> project then listStacks_loop s r project sts out
      else listStacks_loop s r project sts (out @ [summary st]))"

definition listStacks :: "Server \<Rightarrow> request \<Rightarrow> string \<Rightarrow> response prog" where
  "listStacks s r org =
     (let project = Query_Get r ''project''
      in attempt (ListStacks org) (\<lambda>err. Return (internalError err ''listing stacks failed'')) (\<lambda>stacks.
         Return (writeJSON 200 (JObj [(''stacks'', JArr (listStacks_loop s r project stacks []))]))))"

definition listUserStacks :: handler_func where
  "listUserStacks s r = listStacks s r (Query_Get r ''organization'')"

definition listOrgStacks :: handler_func where
  "listOrgStacks s r = listStacks s r (PathValue r ''org'')"

end
