(* ===== verification/Routes.thy ===== *)
theory Routes
  imports Stacks Crypto_API Auth_API
begin

text \<open>
  The table of routes (\<^verbatim>\<open>routes\<close> and \<^verbatim>\<open>ServeHTTP\<close> in \<^verbatim>\<open>internal/api/server.go\<close>) and how
  \<^verbatim>\<open>http.ServeMux\<close> picks one. A path is the escaped path of the request's URL: the mux redirects to
  its clean form when it is not clean, and matches its segments after percent-decoding else.
\<close>

section \<open>Patterns\<close>

datatype segment = Lit string | Wild string

record route =
  rt_Method :: string
  rt_Path :: "segment list"
  rt_Handler :: handler_func

text \<open>The path \<^verbatim>\<open>/api/stacks/{org}/{project}/{stack}\<close> and one of an update.\<close>

definition stack_path :: "segment list" where
  "stack_path = [Lit ''api'', Lit ''stacks'', Wild ''org'', Wild ''project'', Wild ''stack'']"

definition update_path :: "segment list" where
  "update_path = stack_path @ [Wild ''kind'', Wild ''updateID'']"

definition userAuthed :: "string \<Rightarrow> segment list \<Rightarrow> action \<Rightarrow> handler_func \<Rightarrow> route" where
  "userAuthed method path action h = \<lparr>rt_Method = method, rt_Path = path, rt_Handler = authMiddleware False action h\<rparr>"

definition updateAuthed :: "string \<Rightarrow> segment list \<Rightarrow> handler_func \<Rightarrow> route" where
  "updateAuthed method path h = \<lparr>rt_Method = method, rt_Path = path, rt_Handler = authMiddleware True Write h\<rparr>"

definition open_routes :: "route list" where
  "open_routes = [
     \<lparr>rt_Method = ''GET'', rt_Path = [Lit ''healthz''], rt_Handler = healthz\<rparr>,
     \<lparr>rt_Method = ''POST'', rt_Path = [Lit ''api'', Lit ''token'', Lit ''exchange''], rt_Handler = tokenExchange\<rparr>]"

definition user_routes :: "route list" where
  "user_routes = [
     userAuthed ''GET'' [Lit ''api'', Lit ''capabilities''] '''' capabilities,
     userAuthed ''GET'' [Lit ''api'', Lit ''user''] '''' whoami,
     userAuthed ''GET'' [Lit ''api'', Lit ''user'', Lit ''organizations'', Lit ''default''] '''' defaultOrg,
     userAuthed ''GET'' [Lit ''api'', Lit ''user'', Lit ''stacks''] '''' listUserStacks,
     userAuthed ''GET'' [Lit ''api'', Lit ''stacks'', Wild ''org''] '''' listOrgStacks,
     userAuthed ''POST'' [Lit ''api'', Lit ''stacks'', Wild ''org'', Wild ''project''] '''' createStack,
     userAuthed ''HEAD'' [Lit ''api'', Lit ''stacks'', Wild ''org'', Wild ''project''] '''' headProject,
     userAuthed ''GET'' stack_path Read getStack,
     userAuthed ''DELETE'' stack_path Delete deleteStack,
     userAuthed ''GET'' (stack_path @ [Lit ''export'']) Read exportStack,
     userAuthed ''GET'' (stack_path @ [Lit ''export'', Wild ''version'']) Read exportStack,
     userAuthed ''POST'' (stack_path @ [Lit ''import'']) Write importStack,
     userAuthed ''GET'' (stack_path @ [Lit ''updates'']) Read getStackUpdates,
     userAuthed ''GET'' (stack_path @ [Lit ''updates'', Lit ''latest'']) Read getLatestUpdate,
     userAuthed ''GET'' (stack_path @ [Lit ''updates'', Wild ''version'']) Read getUpdateByVersion,
     userAuthed ''POST'' (stack_path @ [Lit ''encrypt'']) Secrets encryptValue,
     userAuthed ''POST'' (stack_path @ [Lit ''decrypt'']) Secrets decryptValue,
     userAuthed ''POST'' (stack_path @ [Lit ''batch-encrypt'']) Secrets batchEncrypt,
     userAuthed ''POST'' (stack_path @ [Lit ''batch-decrypt'']) Secrets batchDecrypt,
     userAuthed ''POST'' (stack_path @ [Wild ''kind'']) Write createUpdate,
     userAuthed ''GET'' update_path Read getUpdateStatus,
     userAuthed ''POST'' update_path Write startUpdate,
     userAuthed ''POST'' (update_path @ [Lit ''cancel'']) Write cancelUpdate]"

definition update_routes :: "route list" where
  "update_routes = [
     updateAuthed ''PATCH'' (update_path @ [Lit ''checkpoint'']) patchCheckpoint,
     updateAuthed ''PATCH'' (update_path @ [Lit ''checkpointverbatim'']) patchCheckpointVerbatim,
     updateAuthed ''POST'' (update_path @ [Lit ''complete'']) completeUpdate,
     updateAuthed ''POST'' (update_path @ [Lit ''renew_lease'']) renewLease,
     updateAuthed ''POST'' (update_path @ [Lit ''events'']) discardEvents,
     updateAuthed ''POST'' (update_path @ [Lit ''events'', Lit ''batch'']) discardEvents]"

definition routes :: "route list" where
  "routes = open_routes @ user_routes @ update_routes"

section \<open>Matching\<close>

text \<open>
  The routing tree: among the patterns that are left, those with this literal come first,
  then, unless the segment is a lone slash, those with a wildcard. The result is the route
  and the values of its wildcards in order.
\<close>

fun mux_match :: "(segment list \<times> route) list \<Rightarrow> string list \<Rightarrow> (route \<times> string list) option" where
  "mux_match table [] = (case filter (\<lambda>(ps, rt). ps = []) table of
      [] \<Rightarrow> None
    | (ps, rt) # _ \<Rightarrow> Some (rt, []))"
| "mux_match table (seg # segs) =
     (case mux_match (map (\<lambda>(ps, rt). (tl ps, rt)) (filter (\<lambda>(ps, rt). ps \<noteq> [] \<and> hd ps = Lit seg) table)) segs of
        Some m \<Rightarrow> Some m
      | None \<Rightarrow>
          if seg = ''/'' then None
          else map_option (\<lambda>(rt, vals). (rt, seg # vals))
            (mux_match (map (\<lambda>(ps, rt). (tl ps, rt))
              (filter (\<lambda>(ps, rt). ps \<noteq> [] \<and> (case hd ps of Wild n \<Rightarrow> True | Lit l \<Rightarrow> False)) table)) segs))"

fun wild_names :: "segment list \<Rightarrow> string list" where
  "wild_names [] = []"
| "wild_names (Lit l # ps) = wild_names ps"
| "wild_names (Wild n # ps) = n # wild_names ps"

definition method_table :: "string \<Rightarrow> (segment list \<times> route) list" where
  "method_table method = map (\<lambda>rt. (rt_Path rt, rt)) (filter (\<lambda>rt. rt_Method rt = method) routes)"

text \<open>A \<^verbatim>\<open>HEAD\<close> request is also served by the pattern for \<^verbatim>\<open>GET\<close>.\<close>

definition find_route :: "string \<Rightarrow> string list \<Rightarrow> (route \<times> string list) option" where
  "find_route method path = (case mux_match (method_table method) path of
      Some m \<Rightarrow> Some m
    | None \<Rightarrow> if method = ''HEAD'' then mux_match (method_table ''GET'') path else None)"

definition mux_dispatch :: "Server \<Rightarrow> string \<Rightarrow> string list \<Rightarrow> request \<Rightarrow> response prog" where
  "mux_dispatch s method segs r = (case find_route method segs of
      Some (rt, vals) \<Rightarrow> rt_Handler rt s (r\<lparr>rq_PathValues := zip (wild_names (rt_Path rt)) vals,
        rq_Identity := None, rq_UpdateClaims := None\<rparr>)
    | None \<Rightarrow>
        if list_ex (\<lambda>m. find_route m segs \<noteq> None) [''GET'', ''HEAD'', ''POST'', ''PATCH'', ''DELETE'']
        then Return (http_Error ''Method Not Allowed'' 405)
        else Return (http_Error ''404 page not found'' 404))"

section \<open>Paths\<close>

text \<open>\<^verbatim>\<open>url.PathUnescape\<close>: \<open>None\<close> for a percent sign without two hexadecimal digits.\<close>

fun PathUnescape :: "string \<Rightarrow> string option" where
  "PathUnescape [] = Some []"
| "PathUnescape (c # s) =
     (if c = CHR ''%'' then
        (case s of
           a # b # s' \<Rightarrow>
             (case (hex_val a, hex_val b) of
                (Some x, Some y) \<Rightarrow> map_option (Cons (char_of (16 * x + y))) (PathUnescape s')
              | _ \<Rightarrow> None)
         | _ \<Rightarrow> None)
      else map_option (Cons c) (PathUnescape s))"

text \<open>
  \<^verbatim>\<open>firstSegment\<close> of the routing tree: a lone slash is a segment of its own; else the segment goes
  to the next slash. A segment that cannot be decoded is taken as it is.
\<close>

definition firstSegment :: "string \<Rightarrow> string \<times> string" where
  "firstSegment path = (if path = ''/'' then (''/'', '''')
     else let seg = takeWhile (\<lambda>c. c \<noteq> CHR ''/'') (tl path)
          in (case PathUnescape seg of Some u \<Rightarrow> u | None \<Rightarrow> seg, dropWhile (\<lambda>c. c \<noteq> CHR ''/'') (tl path)))"

function path_segments :: "string \<Rightarrow> string list" where
  "path_segments path = (if path = '''' then []
     else case firstSegment path of (seg, rest) \<Rightarrow> seg # path_segments rest)"
  by pat_completeness auto

lemma firstSegment_rest: "path \<noteq> '''' \<Longrightarrow> firstSegment path = (seg, rest) \<Longrightarrow> length rest < length path"
  using length_dropWhile_le [of "\<lambda>c. c \<noteq> CHR ''/''" "tl path"]
  by (cases path) (auto simp: firstSegment_def Let_def split: if_splits)

termination path_segments
  by (relation "measure length") (auto dest: firstSegment_rest [OF _ sym])

declare path_segments.simps [simp del]

text \<open>\<^verbatim>\<open>path.Clean\<close> of a path that begins with a slash: its elements without empty ones and dots, each \<^verbatim>\<open>..\<close> removes one.\<close>

fun path_elements :: "string \<Rightarrow> string \<Rightarrow> string list" where
  "path_elements acc [] = [acc]"
| "path_elements acc (c # s) = (if c = CHR ''/'' then acc # path_elements [] s else path_elements (acc @ [c]) s)"

definition clean_element :: "string list \<Rightarrow> string \<Rightarrow> string list" where
  "clean_element kept e = (if e = '''' \<or> e = ''.'' then kept else if e = ''..'' then butlast kept else kept @ [e])"

definition path_Clean :: "string \<Rightarrow> string" where
  "path_Clean p = (case foldl clean_element [] (path_elements [] p) of
      [] \<Rightarrow> ''/''
    | es \<Rightarrow> concat (map (\<lambda>e. CHR ''/'' # e) es))"

text \<open>\<^verbatim>\<open>cleanPath\<close> of the mux, which keeps a trailing slash.\<close>

definition cleanPath :: "string \<Rightarrow> string" where
  "cleanPath path = (if path = '''' then ''/''
     else let p = (if hd path = CHR ''/'' then path else CHR ''/'' # path); np = path_Clean p
          in if last p = CHR ''/'' \<and> np \<noteq> ''/'' then np @ ''/'' else np)"

text \<open>
  The redirect to the clean path. Headers are not represented, so neither is its target, nor
  the HTML note that repeats it.
\<close>

definition mux_redirect :: response where
  "mux_redirect = WriteHeader 307"

text \<open>
  \<^verbatim>\<open>ServeHTTP\<close>: the mux refuses the request target \<^verbatim>\<open>*\<close>, redirects a path that is not clean (but
  for \<^verbatim>\<open>CONNECT\<close>, which it does not clean) and dispatches the others. No pattern ends
  with a slash, so the mux never redirects from \<^verbatim>\<open>/tree\<close> to \<^verbatim>\<open>/tree/\<close>.
\<close>

definition ServeHTTP :: "Server \<Rightarrow> string \<Rightarrow> string \<Rightarrow> request \<Rightarrow> response prog" where
  "ServeHTTP s method path r =
     (if path = ''*'' then Return (WriteHeader 400)
      else if method \<noteq> ''CONNECT'' \<and> cleanPath path \<noteq> path then Return mux_redirect
      else mux_dispatch s method (path_segments path) r)"

section \<open>Which requests reach which handler\<close>

lemma mux_match_mem: "mux_match table path = Some (rt, vals) \<Longrightarrow> \<exists>ps. (ps, rt) \<in> set table"
proof (induction path arbitrary: table vals)
  case Nil
  then obtain x xs where "filter (\<lambda>(ps, rt). ps = []) table = x # xs" "snd x = rt"
    by (auto split: list.splits)
  then have "x \<in> set table" by (metis filter_eq_ConsD in_set_conv_decomp)
  with \<open>snd x = rt\<close> show ?case by (metis prod.collapse)
next
  case (Cons seg path)
  have sub: "\<exists>ps. (ps, rt) \<in> set table"
    if "mux_match (map (\<lambda>(ps, rt). (tl ps, rt)) (filter P table)) path = Some (rt, vs)" for P vs
    using Cons.IH [OF that] by auto
  show ?case
    using Cons.prems by (auto split: option.splits if_splits dest: sub)
qed

lemma find_route_mem: "find_route method path = Some (rt, vals) \<Longrightarrow> rt \<in> set routes"
  by (auto simp: find_route_def method_table_def dest!: mux_match_mem split: option.splits if_splits)

end
