(* ===== verification/API_Protocol.thy ===== *)
theory API_Protocol
  imports Routes Store_System
begin

text \<open>
  The handlers against the abstract lock protocol of \<open>Lock_Protocol\<close>: which events each of
  them may cause on which stack document, whatever else goes on in the bucket. The last
  section serves any number of HTTP requests at the same time.
\<close>

section \<open>Rules for the combinators\<close>

text \<open>Calls are taken apart by the rules below, not by the equations of \<open>wp\<close>.\<close>

declare wp_call [simp del] wp_check [simp del]

lemma safe_attempt:
  assumes "\<And>T. safe P p T" "\<And>err T. safe P (failed err) T" "\<And>v T. safe P (k v) T"
  shows "safe P (attempt p failed k) T"
  unfolding attempt_def using assms by (auto simp: wp_call intro!: wp_safe split: sum.split)

lemma safe_call:
  assumes "\<And>T. safe P p T" "\<And>v T. safe P (k v) T"
  shows "safe P (call p k) T"
  using assms by (auto simp: wp_call intro!: wp_safe)

lemma safe_Return [simp]: "safe P (Return x) T"
  by simp

lemma safe_store_fail [simp]: "safe P (store_fail m err) T"
  by (simp add: store_fail_def)

lemma safe_NewUpdateID [simp]: "safe P NewUpdateID T"
  by (simp add: NewUpdateID_def)

text \<open>Reading and changing other documents is free.\<close>

lemmas safe_reads = safe_readers safe_GetCheckpoint safe_GetCheckpointVersion safe_ListStacks safe_ListUpdates safe_GetLock

text \<open>The stack that a request names.\<close>

abbreviation stack_key :: "request \<Rightarrow> string" where
  "stack_key r \<equiv> stackKey (PathValue r ''org'') (PathValue r ''project'') (PathValue r ''stack'')"

abbreviation stack_ok :: "request \<Rightarrow> bool" where
  "stack_ok r \<equiv> ref_ok (PathValue r ''org'') (PathValue r ''project'') (PathValue r ''stack'')"

text \<open>The events in the name of an update: taking, renewing and giving up its lock.\<close>

definition lease_events :: "string \<Rightarrow> doc_event set" where
  "lease_events u = {Grant u, Renew u}"

definition release_events :: "string \<Rightarrow> doc_event set" where
  "release_events u = {Release u, DropLegacy u}"

lemma safe_AcquireLock:
  "ref_ok org project stack \<Longrightarrow> lease_events u \<subseteq> E \<Longrightarrow>
     safe (doc_policy C (stackKey org project stack) E) (AcquireLock org project stack inc u owner ttl) T"
  by (simp add: AcquireLock_def lease_events_def safe_acquireLock_loop)

lemma safe_RenewLock:
  "ref_ok org project stack \<Longrightarrow> lease_events u \<subseteq> E \<Longrightarrow>
     safe (doc_policy C (stackKey org project stack) E) (RenewLock org project stack u g ttl) T"
  by (simp add: RenewLock_def lease_events_def safe_renewLock_loop)

lemma safe_ReleaseLock:
  "ref_ok org project stack \<Longrightarrow> release_events u \<subseteq> E \<Longrightarrow>
     safe (doc_policy C (stackKey org project stack) E) (ReleaseLock org project stack u g) T"
  by (simp add: ReleaseLock_def release_events_def safe_releaseLock_loop)

lemma safe_releaseUpdateLock:
  "ref_ok org project stack \<Longrightarrow> release_events u \<subseteq> E \<Longrightarrow>
     safe (doc_policy C (stackKey org project stack) E) (releaseUpdateLock org project stack u g) T"
  unfolding releaseUpdateLock_def by (rule safe_call) (auto intro: safe_ReleaseLock split: sum.split)

lemma safe_releaseLockOnExit:
  "ref_ok org project stack \<Longrightarrow> release_events u \<subseteq> E \<Longrightarrow>
     safe (doc_policy C (stackKey org project stack) E) (releaseLockOnExit org project stack u g) T"
  unfolding releaseLockOnExit_def by (rule safe_call) (auto intro: safe_releaseUpdateLock)

lemma safe_requireLiveLock: "safe P (requireLiveLock r u g) T"
  unfolding requireLiveLock_def by (rule safe_call) (auto simp: safe_GetLock split: sum.split)

lemma safe_with_live_lock: "(\<And>l T. safe P (k l) T) \<Longrightarrow> safe P (with_live_lock r u g k) T"
  unfolding with_live_lock_def by (rule safe_call) (auto simp: safe_requireLiveLock split: sum.split)

lemma safe_parse: "safe P (parse J ti raw) T"
  by (auto simp: parse_def jwt_Parse_def wp_call split: sum.split)

lemma safe_tokens: "safe P (Issue J ti ident) T" "safe P (IssueUpdate J ti ident uc ttl) T"
  by (auto simp: Issue_def IssueUpdate_def split: option.split sum.split)

lemma safe_verify_token: "safe P (verify_token s upd raw) T"
proof -
  have "safe P (Verify J ti raw) T" "safe P (VerifyScoped J ti raw) T" for J ti T
    unfolding Verify_def VerifyScoped_def check_def
    by (rule safe_call; auto simp: safe_parse Let_def split: sum.split option.split)+
  then show ?thesis
    unfolding verify_token_def check_def
    by (cases upd) (auto intro!: safe_call split: sum.split option.split)
qed

section \<open>Updates\<close>

lemma safe_createUpdate_record_api:
  assumes "ref_ok org project stack" "Barrier \<in> E" "\<And>g. CommitVersion u g \<in> E" "release_events u \<subseteq> E"
  shows "safe (doc_policy C (stackKey org project stack) E) (createUpdate_record_api org project stack kind u lock) T"
  unfolding createUpdate_record_api_def
  by (intro safe_attempt safe_call safe_CreateUpdate assms; cases lock)
    (auto simp: assms safe_releaseLockOnExit)

text \<open>The events of \<^verbatim>\<open>createUpdate\<close>: everything but saving state and removing the stack.\<close>

definition create_events :: "doc_event set" where
  "create_events = insert Barrier (\<Union>u. lease_events u \<union> release_events u \<union> range (CommitVersion u))"

lemma create_events_mem:
  "Barrier \<in> create_events" "CommitVersion u g \<in> create_events" "release_events u \<subseteq> create_events" "lease_events u \<subseteq> create_events"
  by (auto simp: create_events_def)

lemma safe_createUpdate_held:
  assumes "ref_ok org project stack"
  shows "safe (doc_policy C (stackKey org project stack) create_events) (createUpdate_held s r org project stack kind err held) T"
  unfolding createUpdate_held_def Let_def
  by (auto intro!: safe_call safe_attempt safe_RenewLock safe_CreateUpdate assms create_events_mem simp: safe_readers
      split: sum.split)

lemma safe_createUpdate:
  assumes "stack_ok r"
  shows "safe (doc_policy C (stack_key r) create_events) (createUpdate s r) T"
  unfolding createUpdate_def Let_def
  by (auto intro!: safe_call safe_attempt safe_AcquireLock safe_createUpdate_record_api safe_createUpdate_held assms
      create_events_mem simp: safe_readers split: option.split)

lemma safe_startUpdate_issue:
  assumes "stack_ok r"
  shows "safe (doc_policy C (stack_key r) E) (startUpdate_issue s r u g) T"
  unfolding startUpdate_issue_def Let_def
  by (auto intro!: safe_attempt safe_StartUpdate assms simp: safe_tokens)

lemma safe_startUpdate:
  assumes "stack_ok r"
  shows "safe (doc_policy C (stack_key r) (lease_events (PathValue r ''updateID''))) (startUpdate s r) T"
  unfolding startUpdate_def Let_def
  by (auto intro!: safe_attempt safe_with_live_lock safe_RenewLock safe_startUpdate_issue assms simp: safe_readers)

definition checkpoint_events :: "string \<Rightarrow> doc_event set" where
  "checkpoint_events u = lease_events u \<union> (\<Union>g. range (SaveState u g))"

lemma checkpoint_events_mem: "lease_events u \<subseteq> checkpoint_events u" "SaveState u g v \<in> checkpoint_events u"
  by (auto simp: checkpoint_events_def)

lemma safe_saveCheckpointForUpdate:
  assumes "ref_ok org project stack"
  shows "safe (doc_policy C (stackKey org project stack) (checkpoint_events u))
     (saveCheckpointForUpdate s r org project stack u deployment) T"
  unfolding saveCheckpointForUpdate_def
  by (auto intro!: safe_attempt safe_with_live_lock safe_RenewLock safe_SaveCheckpoint assms
      checkpoint_events_mem simp: safe_readers)

lemma safe_patchCheckpoint:
  assumes "stack_ok r"
  shows "safe (doc_policy C (stack_key r) (checkpoint_events (PathValue r ''updateID''))) (patchCheckpoint s r) T"
    and "safe (doc_policy C (stack_key r) (checkpoint_events (PathValue r ''updateID''))) (patchCheckpointVerbatim s r) T"
  unfolding patchCheckpoint_def patchCheckpointVerbatim_def
  by (auto intro!: safe_saveCheckpointForUpdate assms split: option.split sum.split)

lemma safe_release_then:
  "stack_ok r \<Longrightarrow> safe (doc_policy C (stack_key r) (release_events (PathValue r ''updateID''))) (release_then r g) T"
  unfolding release_then_def by (auto intro!: safe_attempt safe_releaseUpdateLock)

lemma safe_completeUpdate:
  assumes "stack_ok r"
  shows "safe (doc_policy C (stack_key r) (release_events (PathValue r ''updateID''))) (completeUpdate s r) T"
  unfolding completeUpdate_def Let_def completeUpdate_again_def completeUpdate_finish_def
  by (auto intro!: safe_call safe_attempt safe_with_live_lock safe_release_then safe_CompleteUpdate assms
      simp: safe_readers safe_GetLock split: option.split sum.split)

lemma safe_renewLease:
  assumes "stack_ok r"
  shows "safe (doc_policy C (stack_key r) (lease_events (PathValue r ''updateID''))) (renewLease s r) T"
  unfolding renewLease_def Let_def renewLease_issue_def
  by (auto intro!: safe_attempt safe_with_live_lock safe_RenewLock assms simp: safe_readers safe_tokens
      split: option.split sum.split)

lemma safe_with_own_lock:
  "(\<And>l T. safe P (k l) T) \<Longrightarrow> safe P (with_own_lock r u k) T"
  unfolding with_own_lock_def own_lock_def
  by (auto intro!: safe_call simp: safe_GetLock split: sum.split)

lemma safe_cancelUpdate:
  assumes "stack_ok r"
  shows "safe (doc_policy C (stack_key r) (release_events (PathValue r ''updateID''))) (cancelUpdate s r) T"
  unfolding cancelUpdate_def Let_def release_own_def
  by (auto intro!: safe_attempt safe_with_own_lock safe_release_then safe_CompleteUpdate assms
      simp: safe_readers split: option.split)

section \<open>Stacks\<close>

text \<open>The events in the name of a deletion.\<close>

definition delete_events :: "doc_event set" where
  "delete_events = (\<Union>u \<in> {u. HasPrefix u ''delete-''}. lease_events u \<union> release_events u \<union> range (Remove u))"

lemma delete_events_mem:
  assumes "HasPrefix u ''delete-''"
  shows "lease_events u \<subseteq> delete_events" "release_events u \<subseteq> delete_events" "Remove u g \<in> delete_events"
  using assms by (auto simp: delete_events_def)

lemma delete_prefix: "HasPrefix (''delete-'' @ i) ''delete-''"
  by (rule HasPrefix_append)

lemma safe_rollbackFailedStackCreation:
  assumes "ref_ok org project stack" "delete_events \<subseteq> E"
  shows "safe (doc_policy C (stackKey org project stack) E) (rollbackFailedStackCreation s org project stack inc owner) T"
proof -
  have ev: "lease_events (''delete-'' @ i) \<subseteq> E" "release_events (''delete-'' @ i) \<subseteq> E" "Remove (''delete-'' @ i) g \<in> E" for i g
    using delete_events_mem [OF delete_prefix] assms(2) by blast+
  show ?thesis
    unfolding rollbackFailedStackCreation_def Let_def
    by (intro safe_call safe_NewUpdateID safe_AcquireLock assms(1) ev)
      (auto intro!: safe_call safe_releaseLockOnExit safe_DeleteStack assms(1) ev simp: safe_readers
        simp del: append_Cons append_Nil split: sum.split)
qed

text \<open>The events of \<^verbatim>\<open>createStack\<close>: creation, the initial state, and the rollback.\<close>

definition create_stack_events :: "doc_event set" where
  "create_stack_events = insert Create (insert (SaveState '''' 0 0) delete_events)"

lemma safe_createStack:
  assumes "validRouteScope r" "decodeBody r decode_createStack = Inr q" "validStorageSegment (sq_StackName q)"
    "authorize s r Write (PathValue r ''org'') (PathValue r ''project'') (sq_StackName q) = None"
  shows "safe (doc_policy C (stackKey (PathValue r ''org'') (PathValue r ''project'') (sq_StackName q)) create_stack_events)
     (createStack s r) T"
proof -
  have ok: "ref_ok (PathValue r ''org'') (PathValue r ''project'') (sq_StackName q)"
    using validRouteScope_ref_ok [OF assms(1)] validStorageSegment_no_slash [OF assms(3)] by (simp add: ref_ok_def)
  have ev: "Create \<in> create_stack_events" "SaveState '''' 0 0 \<in> create_stack_events" "delete_events \<subseteq> create_stack_events"
    by (auto simp: create_stack_events_def)
  show ?thesis
    unfolding createStack_def createStack_state_def Let_def assms(2)
    by (auto intro!: safe_attempt safe_call safe_CreateStack safe_SaveCheckpoint safe_rollbackFailedStackCreation ok ev
        simp: assms(3,4) split: option.split)
qed

lemma createStack_refused:
  "\<not> (\<exists>q. decodeBody r decode_createStack = Inr q \<and> validStorageSegment (sq_StackName q) \<and>
      authorize s r Write (PathValue r ''org'') (PathValue r ''project'') (sq_StackName q) = None) \<Longrightarrow>
     \<exists>resp. createStack s r = Return resp"
  by (auto simp: createStack_def Let_def split: sum.split option.split)

lemma wp_deleteStack_lock:
  assumes "stack_ok r" "HasPrefix u ''delete-''"
  shows "wp (doc_policy C (stack_key r) delete_events) (deleteStack_lock s r st u) T
     (\<lambda>T x. case x of Inl resp \<Rightarrow> True | Inr (u', l) \<Rightarrow> HasPrefix u' ''delete-'')"
  unfolding deleteStack_lock_def Let_def wp_call
  by (rule wp_safe, rule safe_AcquireLock [OF assms(1) delete_events_mem(1) [OF assms(2)]])
    (auto simp: assms(2) wp_call intro!: wp_safe safe_RenewLock assms(1) delete_events_mem split: sum.split option.split)

lemma safe_deleteStack_check: "safe P (deleteStack_check r) T"
  unfolding deleteStack_check_def by (auto intro!: safe_call simp: safe_GetCheckpoint split: sum.split option.split)

lemma safe_deleteStack:
  assumes "stack_ok r"
  shows "safe (doc_policy C (stack_key r) delete_events) (deleteStack s r) T"
proof -
  let ?P = "doc_policy C (stack_key r) delete_events"
  have rest: "safe ?P (case x of Inl resp \<Rightarrow> Return resp
         | Inr (updateID, lock) \<Rightarrow>
             call (deleteStack_check r) (\<lambda>refused. case refused of
               Some resp \<Rightarrow> call (releaseLockOnExit (PathValue r ''org'') (PathValue r ''project'') (PathValue r ''stack'') updateID (l_Generation lock)) (\<lambda>_. Return resp)
             | None \<Rightarrow>
                 attempt (DeleteStack (PathValue r ''org'') (PathValue r ''project'') (PathValue r ''stack'') inc updateID (l_Generation lock))
                   (store_fail ''deleting stack failed'') (\<lambda>_. Return (WriteHeader 204)))) T"
    if "case x of Inl resp \<Rightarrow> True | Inr (u', l) \<Rightarrow> HasPrefix u' ''delete-''" for x inc T
    using that
    by (auto intro!: safe_call safe_attempt safe_releaseLockOnExit safe_DeleteStack assms delete_events_mem
        simp: safe_deleteStack_check split: sum.split option.split)
  have body: "safe ?P (call (deleteStack_lock s r st (''delete-'' @ i)) (\<lambda>x. case x of
           Inl resp \<Rightarrow> Return resp
         | Inr (updateID, lock) \<Rightarrow>
             call (deleteStack_check r) (\<lambda>refused. case refused of
               Some resp \<Rightarrow> call (releaseLockOnExit (PathValue r ''org'') (PathValue r ''project'') (PathValue r ''stack'') updateID (l_Generation lock)) (\<lambda>_. Return resp)
             | None \<Rightarrow>
                 attempt (DeleteStack (PathValue r ''org'') (PathValue r ''project'') (PathValue r ''stack'') (st_Incarnation st) updateID (l_Generation lock))
                   (store_fail ''deleting stack failed'') (\<lambda>_. Return (WriteHeader 204))))) T" for st i T
    unfolding wp_call by (rule wp_mono [OF wp_deleteStack_lock [OF assms delete_prefix]]) (rule rest)
  show ?thesis
    unfolding deleteStack_def Let_def
    by (rule safe_attempt, rule safe_readers(1), rule safe_store_fail, rule safe_call, rule safe_NewUpdateID, rule body)
qed

definition import_events :: "doc_event set" where
  "import_events = create_events \<union> (\<Union>u g. range (SaveState u g))"

lemma import_events_mem: "Barrier \<in> import_events" "CommitVersion u g \<in> import_events" "SaveState u g v \<in> import_events"
  "release_events u \<subseteq> import_events" "lease_events u \<subseteq> import_events"
proof -
  have sub: "create_events \<subseteq> import_events" by (simp add: import_events_def)
  show "Barrier \<in> import_events" "CommitVersion u g \<in> import_events" by (rule subsetD [OF sub create_events_mem(1)], rule subsetD [OF sub create_events_mem(2)])
  show "SaveState u g v \<in> import_events" unfolding import_events_def by blast
  show "release_events u \<subseteq> import_events" "lease_events u \<subseteq> import_events"
    by (rule subset_trans [OF create_events_mem(3) sub], rule subset_trans [OF create_events_mem(4) sub])
qed

lemma safe_importStack:
  assumes "stack_ok r"
  shows "safe (doc_policy C (stack_key r) import_events) (importStack s r) T"
  unfolding importStack_def importStack_locked_def Let_def
  by (auto intro!: safe_call safe_attempt safe_AcquireLock safe_CreateUpdate safe_StartUpdate safe_SaveCheckpoint
      safe_CompleteUpdate safe_releaseLockOnExit assms import_events_mem simp: safe_readers split: sum.split)

section \<open>Handlers that write nothing\<close>

text \<open>The crypter may not touch the bucket.\<close>

definition quiet_crypter :: "Server \<Rightarrow> bool" where
  "quiet_crypter s \<longleftrightarrow> (\<forall>c. sv_crypter s = Some c \<longrightarrow>
     (\<forall>P org project stack plaintext T. safe P (cr_Encrypt c org project stack plaintext) T))"

lemma safe_readonly:
  "safe P (capabilities s r) T" "safe P (whoami s r) T" "safe P (defaultOrg s r) T" "safe P (listUserStacks s r) T"
  "safe P (listOrgStacks s r) T" "safe P (headProject s r) T" "safe P (getStack s r) T" "safe P (exportStack s r) T"
  "safe P (getStackUpdates s r) T" "safe P (getLatestUpdate s r) T" "safe P (getUpdateByVersion s r) T"
  "safe P (decryptValue s r) T" "safe P (batchDecrypt s r) T" "safe P (getUpdateStatus s r) T" "safe P (discardEvents s r) T"
  "safe P (healthz s r) T" "safe P (tokenExchange s r) T"
  unfolding capabilities_def whoami_def defaultOrg_def listUserStacks_def listOrgStacks_def listStacks_def headProject_def
    getStack_def exportStack_def getStackUpdates_def getLatestUpdate_def getUpdateByVersion_def decryptValue_def
    batchDecrypt_def getUpdateStatus_def discardEvents_def healthz_def tokenExchange_def Let_def
  by (auto intro!: safe_attempt safe_call simp: safe_reads safe_tokens split: option.split sum.split list.split)

lemma safe_encrypt:
  assumes "quiet_crypter s"
  shows "safe P (encryptValue s r) T" "safe P (batchEncrypt s r) T"
proof -
  have one: "safe P (encryptOne r c p) T" if "sv_crypter s = Some c" for c p T
    using assms that unfolding encryptOne_def quiet_crypter_def by (auto intro!: safe_call split: sum.split)
  have loop: "safe P (batchEncrypt_loop r c ps out) T" if "sv_crypter s = Some c" for c ps out T
    by (induction ps arbitrary: out T) (auto intro!: safe_call one [OF that] split: sum.split)
  show "safe P (encryptValue s r) T" "safe P (batchEncrypt s r) T"
    unfolding encryptValue_def batchEncrypt_def requireCrypter_def
    by (auto intro!: safe_call one loop split: option.split sum.split)
qed
section \<open>Through the gate\<close>

text \<open>The verifiers after the token is parsed, as functions of the claims.\<close>

lemma wp_parse: "wp P (parse J ti raw) T (\<lambda>T x. \<forall>tok. x = Inr tok \<longrightarrow> (\<exists>t. genuine J ti raw t (tok_Claims tok)))"
proof -
  have "genuine J ti raw t (tok_Claims tok)"
    if "jwt_ParseUnverified J raw = Inr tok" "sm_get (tok_Header tok) ''alg'' = Some (JStr ''HS256'')"
      "keyFunc ti tok = Inr key" "jwt_Verify J raw key" "times_valid J (tok_Claims tok) t" for tok key t
    using that by (cases tok) (auto simp: genuine_def keyFunc_accepts)
  then show ?thesis
    by (auto simp: parse_def jwt_Parse_def wp_call split: sum.split)
qed

lemma accepted_user_claims:
  "requireAudience claims backendTokenAudience = None \<Longrightarrow> claim_string claims ''typ'' = backendTokenType \<Longrightarrow>
     accepted_claims claims None"
  unfolding accepted_claims_def typ_iff requireAudience_accepts by (simp add: token_constants)

lemma wp_VerifyScoped:
  "wp P (VerifyScoped J ti raw) T (\<lambda>T x. \<forall>ident uc. x = Inr (ident, uc) \<longrightarrow>
     (\<exists>t claims. genuine J ti raw t claims \<and> identityFromClaims claims [] = Inr ident \<and> accepted_claims claims uc))"
proof -
  have upd: "updateTokenScope ident claims = Inr (ident', uc) \<Longrightarrow> claim_string claims ''typ'' = updateTokenType \<Longrightarrow>
      ident' = ident \<and> accepted_claims claims uc" for ident ident' claims uc
    by (auto simp: accepted_claims_def typ_iff updateTokenScope_accepts)
  show ?thesis
    unfolding VerifyScoped_def wp_check Let_def
    by (rule wp_mono [OF wp_parse]) (auto split: sum.split option.split, (blast intro: accepted_user_claims dest: upd)+)
qed

lemma wp_Verify:
  "wp P (Verify J ti raw) T (\<lambda>T x. \<forall>ident. x = Inr ident \<longrightarrow>
     (\<exists>t claims. genuine J ti raw t claims \<and> identityFromClaims claims [] = Inr ident \<and> accepted_claims claims None))"
  unfolding Verify_def wp_check Let_def
  by (rule wp_mono [OF wp_parse]) (auto split: sum.split option.split, blast intro: accepted_user_claims)

lemma wp_verify_token:
  "wp P (verify_token s upd raw) T (\<lambda>T x. \<forall>ident uc. x = Inr (ident, uc) \<longrightarrow>
     (\<exists>t claims. genuine (sv_jwt s) (sv_issuer s) raw t claims \<and> identityFromClaims claims [] = Inr ident \<and>
        accepted_claims claims uc \<and> (uc \<noteq> None) = upd))"
proof (cases upd)
  case True
  then show ?thesis
    by (simp add: verify_token_def wp_call) (rule wp_mono [OF wp_VerifyScoped], auto split: sum.split option.split)
next
  case False
  then show ?thesis
    by (simp add: verify_token_def wp_check) (rule wp_mono [OF wp_Verify], auto split: sum.split)
qed

lemma admit_eq:
  assumes "\<not> NoAuth s"
  shows "admit s action nxt r ident uc =
     (if \<not> validRouteScope r then Return (writeError 400 ''invalid stack scope'')
      else if \<not> (case uc of None \<Rightarrow> True | Some c \<Rightarrow> scope_matches c r)
      then Return (writeError 403 ''invalid update token scope'')
      else if HasAnyGrant (sv_authz s) (id_Groups ident) \<and> (action \<noteq> '''' \<longrightarrow> Allows (sv_authz s) (id_Groups ident) action
            (PathValue r ''org'') (PathValue r ''project'') (PathValue r ''stack''))
        then nxt s (r\<lparr>rq_Identity := Some ident, rq_UpdateClaims := uc\<rparr>)
        else Return (writeError 403 ''access denied''))"
  using assms by (simp add: admit_def authorize_def identity_def Let_def)

lemma safe_authMiddleware:
  assumes "\<not> NoAuth s"
    and "\<And>ident uc t T. authenticated s upd r t ident uc \<Longrightarrow> validRouteScope r \<Longrightarrow> (\<And>c. uc = Some c \<Longrightarrow> scope_matches c r) \<Longrightarrow>
      (action \<noteq> '''' \<Longrightarrow> Allows (sv_authz s) (id_Groups ident) action
          (PathValue r ''org'') (PathValue r ''project'') (PathValue r ''stack'')) \<Longrightarrow>
      safe P (nxt s (r\<lparr>rq_Identity := Some ident, rq_UpdateClaims := uc\<rparr>)) T"
  shows "safe P (authMiddleware upd action nxt s r) T"
proof -
  obtain scheme raw where header: "authorizationToken (rq_Authorization r) = (scheme, raw)"
    by (cases "authorizationToken (rq_Authorization r)")
  have admit: "safe P (admit s action nxt r ident uc) T" if "authenticated s upd r t ident uc" for ident uc t T
    unfolding admit_eq [OF assms(1)] using assms(2) [OF that, of T] by (auto simp del: wp.simps split: option.split_asm)
  show ?thesis
  proof (cases "(scheme = ''update-token'') = upd")
    case False
    then show ?thesis using assms(1) by (auto simp: authMiddleware_def header)
  next
    case True
    have auth: "authenticated s upd r t ident uc" if "raw \<noteq> ''''"
      "genuine (sv_jwt s) (sv_issuer s) raw t claims" "identityFromClaims claims '''' = Inr ident"
      "accepted_claims claims uc" "(uc \<noteq> None) = upd" for t claims ident uc
      unfolding authenticated_def using header True that by blast
    have "wp P (verify_token s upd raw) T (\<lambda>T v. safe P (case (if raw = '''' then Inl (NewError '''') else v) of
             Inl err \<Rightarrow>
               if \<not> NoAuth s then Return (writeError 401 (if raw = '''' then ''missing token'' else ''invalid token''))
               else admit s action nxt r (IdentityFromToken (sv_jwt s) (sv_sha256hex s) raw) None
           | Inr (ident, uc) \<Rightarrow> admit s action nxt r ident uc) T)"
    proof (rule wp_mono [OF wp_verify_token])
      fix T' and v :: "error + Identity \<times> UpdateClaims option"
      assume v: "\<forall>ident uc. v = Inr (ident, uc) \<longrightarrow>
        (\<exists>t claims. genuine (sv_jwt s) (sv_issuer s) raw t claims \<and> identityFromClaims claims [] = Inr ident \<and>
          accepted_claims claims uc \<and> (uc \<noteq> None) = upd)"
      show "safe P (case (if raw = [] then Inl (NewError []) else v) of
             Inl err \<Rightarrow>
               if \<not> NoAuth s then Return (writeError 401 (if raw = [] then ''missing token'' else ''invalid token''))
               else admit s action nxt r (IdentityFromToken (sv_jwt s) (sv_sha256hex s) raw) None
           | Inr (ident, uc) \<Rightarrow> admit s action nxt r ident uc) T'"
      proof (cases "if raw = [] then Inl (NewError []) else v")
        case (Inl e)
        then show ?thesis using assms(1) by simp
      next
        case (Inr iu)
        obtain ident uc where iu: "iu = (ident, uc)" by (cases iu)
        have raw: "raw \<noteq> []" "v = Inr (ident, uc)" using Inr iu by (auto split: if_splits)
        then obtain t where "authenticated s upd r t ident uc" using v auth by blast
        then have "safe P (admit s action nxt r ident uc) T'" by (rule admit)
        then show ?thesis unfolding Inr iu by simp
      qed
    qed
    with assms(1) True show ?thesis by (auto simp: authMiddleware_def header wp_call)
  qed
qed

section \<open>Which request may change which document\<close>

definition update_events :: "string \<Rightarrow> doc_event set" where
  "update_events u = lease_events u \<union> release_events u \<union> (\<Union>g. range (SaveState u g))"

text \<open>
  A request may cause event \<open>ev\<close> on the document of a stack if it carries a genuine token: an update
  token for this very stack, with the right to write, for the events of its update; or a user
  token with the right to write, or, for a deletion, to delete the stack.
\<close>

definition may_change :: "Server \<Rightarrow> request \<Rightarrow> string \<Rightarrow> string \<Rightarrow> string \<Rightarrow> doc_event \<Rightarrow> bool" where
  "may_change s r org project stack ev \<longleftrightarrow> (\<exists>t ident uc. authenticated s (uc \<noteq> None) r t ident uc \<and>
     (case uc of
        Some c \<Rightarrow> Allows (sv_authz s) (id_Groups ident) Write org project stack \<and>
          uc_Org c = org \<and> uc_Project c = project \<and> uc_Stack c = stack \<and> ev \<in> update_events (uc_UpdateID c)
      | None \<Rightarrow> Allows (sv_authz s) (id_Groups ident) Write org project stack \<or>
          Allows (sv_authz s) (id_Groups ident) Delete org project stack \<and> ev \<in> delete_events))"

lemma may_change_user:
  "authenticated s False r t ident None \<Longrightarrow> Allows (sv_authz s) (id_Groups ident) Write org project stack \<or>
     Allows (sv_authz s) (id_Groups ident) Delete org project stack \<and> ev \<in> delete_events \<Longrightarrow>
   may_change s r org project stack ev"
  unfolding may_change_def by (intro exI [of _ t] exI [of _ ident] exI [of _ None]) simp

text \<open>A route whose handler changes at most one stack document, as far as the request may.\<close>

definition confined :: "Server \<Rightarrow> request \<Rightarrow> response prog \<Rightarrow> bool" where
  "confined s r p \<longleftrightarrow> (\<exists>org project stack. ref_ok org project stack \<and>
     (\<forall>C T. safe (doc_policy C (stackKey org project stack) {ev. may_change s r org project stack ev}) p T))"

definition route_ok :: "route \<Rightarrow> bool" where
  "route_ok rt \<longleftrightarrow> (\<forall>s r. \<not> NoAuth s \<longrightarrow> quiet_crypter s \<longrightarrow> confined s r (rt_Handler rt s r))"

lemma wp_policy_mono:
  assumes "wp P p T Q" "may_read P' = may_read P" "\<And>T k b inm im. may_put P T k b inm im \<Longrightarrow> may_put P' T k b inm im"
    "\<And>T k e. may_delete P T k e \<Longrightarrow> may_delete P' T k e" "\<And>ks. may_delete_many P ks \<Longrightarrow> may_delete_many P' ks"
  shows "wp P' p T Q"
  using assms(1) by (induction p arbitrary: T) (auto simp: assms(2) intro: assms(3-5))

lemma doc_put_ok_mono: "doc_put_ok C E T k b inm im \<Longrightarrow> E \<subseteq> E' \<Longrightarrow> doc_put_ok C E' T k b inm im"
  by (auto simp: doc_put_ok_def split: option.splits)

lemma doc_delete_ok_mono: "doc_delete_ok C E T k e \<Longrightarrow> E \<subseteq> E' \<Longrightarrow> doc_delete_ok C E' T k e"
  by (auto simp: doc_delete_ok_def)

lemma safe_events_mono:
  "safe (doc_policy C K E) p T \<Longrightarrow> E \<subseteq> E' \<Longrightarrow> safe (doc_policy C K E') p T"
  by (erule wp_policy_mono) (auto simp: fun_eq_iff intro: doc_put_ok_mono doc_delete_ok_mono)

lemma PathValue_context [simp]:
  "PathValue (r\<lparr>rq_Identity := i, rq_UpdateClaims := c\<rparr>) = PathValue r"
  by (simp add: PathValue_def fun_eq_iff)

lemma validRouteScope_context [simp]:
  "validRouteScope (r\<lparr>rq_Identity := i, rq_UpdateClaims := c\<rparr>) = validRouteScope r"
  by (simp add: validRouteScope_iff)

text \<open>The stack of the path if it is valid, else an arbitrary one.\<close>

lemma path_stack:
  obtains org project stack where "ref_ok org project stack"
    "validRouteScope r \<longrightarrow> org = PathValue r ''org'' \<and> project = PathValue r ''project'' \<and> stack = PathValue r ''stack''"
proof (cases "validRouteScope r")
  case True
  then show thesis using that validRouteScope_ref_ok by blast
next
  case False
  have "ref_ok [] [] []" by (simp add: ref_ok_def no_slash_def)
  with False show thesis using that by blast
qed

lemma confined_Return: "confined s r (Return resp)"
proof -
  have "ref_ok [] [] []" by (simp add: ref_ok_def no_slash_def)
  then show ?thesis unfolding confined_def by (intro exI conjI) simp_all
qed

lemma confined_quiet: "(\<And>P T. safe P p T) \<Longrightarrow> confined s r p"
proof -
  have "ref_ok [] [] []" by (simp add: ref_ok_def no_slash_def)
  then show "(\<And>P T. safe P p T) \<Longrightarrow> confined s r p" unfolding confined_def by blast
qed

lemma route_ok_quiet:
  assumes "\<And>P s r T. quiet_crypter s \<Longrightarrow> safe P (h s r) T"
  shows "route_ok (userAuthed m p a h)" "route_ok (updateAuthed m p h)"
  unfolding route_ok_def userAuthed_def updateAuthed_def
  by (auto intro!: confined_quiet safe_authMiddleware assms)

text \<open>Handlers behind a user token that work on the stack of the path.\<close>

lemma route_ok_user:
  assumes "\<And>s r C T. stack_ok r \<Longrightarrow> safe (doc_policy C (stack_key r) E) (h s r) T"
    and "a = Write \<or> a = Delete \<and> E \<subseteq> delete_events"
  shows "route_ok (userAuthed m p a h)"
  unfolding route_ok_def
proof (intro allI impI)
  fix s r
  assume s: "\<not> NoAuth s" "quiet_crypter s"
  obtain org project stack where ref: "ref_ok org project stack" and
    path: "validRouteScope r \<longrightarrow> org = PathValue r ''org'' \<and> project = PathValue r ''project'' \<and> stack = PathValue r ''stack''"
    by (rule path_stack [of r])
  have "safe (doc_policy C (stackKey org project stack) {ev. may_change s r org project stack ev})
      (authMiddleware False a h s r) T" for C T
  proof (rule safe_authMiddleware [OF s(1)])
    fix ident uc t T
    assume auth: "authenticated s False r t ident uc" and valid: "validRouteScope r"
      and allowed: "a \<noteq> [] \<Longrightarrow> Allows (sv_authz s) (id_Groups ident) a (PathValue r ''org'') (PathValue r ''project'') (PathValue r ''stack'')"
    have "a \<noteq> []" using assms(2) by (auto simp: action_defs)
    have uc: "uc = None" using auth by (auto simp: authenticated_def)
    note path = path [THEN mp, OF valid]
    have "E \<subseteq> {ev. may_change s r org project stack ev}"
      using auth allowed [OF \<open>a \<noteq> []\<close>] assms(2) path uc by (auto intro!: may_change_user)
    moreover have "safe (doc_policy C (stack_key r) E) (h s (r\<lparr>rq_Identity := Some ident, rq_UpdateClaims := uc\<rparr>)) T"
      using assms(1) [of "r\<lparr>rq_Identity := Some ident, rq_UpdateClaims := uc\<rparr>" C s T] validRouteScope_ref_ok [OF valid] by simp
    ultimately show "safe (doc_policy C (stackKey org project stack) {ev. may_change s r org project stack ev})
        (h s (r\<lparr>rq_Identity := Some ident, rq_UpdateClaims := uc\<rparr>)) T"
      using path safe_events_mono by metis
  qed
  then show "confined s r (rt_Handler (userAuthed m p a h) s r)"
    unfolding confined_def userAuthed_def using ref by auto
qed
text \<open>Handlers behind an update token: events in the name of the update of the path only.\<close>

lemma route_ok_update:
  assumes "\<And>s r C T. stack_ok r \<Longrightarrow> safe (doc_policy C (stack_key r) (E (PathValue r ''updateID''))) (h s r) T"
    and "\<And>u. E u \<subseteq> update_events u"
  shows "route_ok (updateAuthed m p h)"
  unfolding route_ok_def
proof (intro allI impI)
  fix s r
  assume s: "\<not> NoAuth s" "quiet_crypter s"
  obtain org project stack where ref: "ref_ok org project stack" and
    path: "validRouteScope r \<longrightarrow> org = PathValue r ''org'' \<and> project = PathValue r ''project'' \<and> stack = PathValue r ''stack''"
    by (rule path_stack [of r])
  have "safe (doc_policy C (stackKey org project stack) {ev. may_change s r org project stack ev})
      (authMiddleware True Write h s r) T" for C T
  proof (rule safe_authMiddleware [OF s(1)])
    fix ident uc t T
    assume auth: "authenticated s True r t ident uc" and valid: "validRouteScope r"
      and scope: "\<And>c. uc = Some c \<Longrightarrow> scope_matches c r"
      and allowed: "Write \<noteq> [] \<Longrightarrow> Allows (sv_authz s) (id_Groups ident) Write (PathValue r ''org'') (PathValue r ''project'') (PathValue r ''stack'')"
    have allows: "Allows (sv_authz s) (id_Groups ident) Write (PathValue r ''org'') (PathValue r ''project'') (PathValue r ''stack'')"
      by (rule allowed) (simp add: action_defs)
    obtain c where uc: "uc = Some c" using auth by (auto simp: authenticated_def)
    have c: "uc_UpdateID c = PathValue r ''updateID''" "uc_Org c = PathValue r ''org''"
      "uc_Project c = PathValue r ''project''" "uc_Stack c = PathValue r ''stack''"
      using scope [OF uc] by (simp_all add: scope_matches_def)
    note path = path [THEN mp, OF valid]
    have "E (PathValue r ''updateID'') \<subseteq> {ev. may_change s r org project stack ev}"
    proof
      fix ev
      assume "ev \<in> E (PathValue r ''updateID'')"
      then have "ev \<in> update_events (uc_UpdateID c)" using assms(2) c(1) by auto
      moreover have "authenticated s (Some c \<noteq> None) r t ident (Some c)" using auth uc by simp
      ultimately show "ev \<in> {ev. may_change s r org project stack ev}"
        unfolding may_change_def mem_Collect_eq using allows path c
        by (intro exI [of _ t] exI [of _ ident] exI [of _ "Some c"]) simp
    qed
    moreover have "safe (doc_policy C (stack_key r) (E (PathValue r ''updateID''))) (h s (r\<lparr>rq_Identity := Some ident, rq_UpdateClaims := uc\<rparr>)) T"
      using assms(1) [of "r\<lparr>rq_Identity := Some ident, rq_UpdateClaims := uc\<rparr>" C s T] validRouteScope_ref_ok [OF valid] by simp
    ultimately show "safe (doc_policy C (stackKey org project stack) {ev. may_change s r org project stack ev})
        (h s (r\<lparr>rq_Identity := Some ident, rq_UpdateClaims := uc\<rparr>)) T"
      using path safe_events_mono by metis
  qed
  then show "confined s r (rt_Handler (updateAuthed m p h) s r)"
    unfolding confined_def updateAuthed_def using ref by auto
qed

text \<open>\<^verbatim>\<open>createStack\<close> works on the stack that its body names.\<close>

lemma decodeBody_context [simp]:
  "decodeBody (r\<lparr>rq_Identity := i, rq_UpdateClaims := c\<rparr>) dec = decodeBody r dec"
  by (simp add: decodeBody_def)

lemma route_ok_createStack: "route_ok (userAuthed m p [] createStack)"
  unfolding route_ok_def
proof (intro allI impI)
  fix s r
  assume s: "\<not> NoAuth s" "quiet_crypter s"
  show "confined s r (rt_Handler (userAuthed m p [] createStack) s r)"
  proof (cases "validRouteScope r \<and> (\<exists>q. decodeBody r decode_createStack = Inr q \<and> validStorageSegment (sq_StackName q))")
    case False
    have "safe P (authMiddleware False [] createStack s r) T" for P T
    proof (rule safe_authMiddleware [OF s(1)])
      fix ident uc t T
      assume "validRouteScope r"
      with False obtain resp where "createStack s (r\<lparr>rq_Identity := Some ident, rq_UpdateClaims := uc\<rparr>) = Return resp"
        using createStack_refused [of "r\<lparr>rq_Identity := Some ident, rq_UpdateClaims := uc\<rparr>" s] by auto
      then show "safe P (createStack s (r\<lparr>rq_Identity := Some ident, rq_UpdateClaims := uc\<rparr>)) T" by simp
    qed
    then show ?thesis by (simp add: userAuthed_def confined_quiet)
  next
    case True
    then obtain q where valid: "validRouteScope r" and q: "decodeBody r decode_createStack = Inr q" "validStorageSegment (sq_StackName q)"
      by blast
    let ?org = "PathValue r ''org''" and ?project = "PathValue r ''project''" and ?stack = "sq_StackName q"
    have ref: "ref_ok ?org ?project ?stack"
      using validRouteScope_ref_ok [OF valid] validStorageSegment_no_slash [OF q(2)] by (simp add: ref_ok_def)
    have "safe (doc_policy C (stackKey ?org ?project ?stack) {ev. may_change s r ?org ?project ?stack ev})
        (authMiddleware False [] createStack s r) T" for C T
    proof (rule safe_authMiddleware [OF s(1)])
      fix ident uc t T
      let ?r = "r\<lparr>rq_Identity := Some ident, rq_UpdateClaims := uc\<rparr>"
      assume auth: "authenticated s False r t ident uc"
      show "safe (doc_policy C (stackKey ?org ?project ?stack) {ev. may_change s r ?org ?project ?stack ev}) (createStack s ?r) T"
      proof (cases "authorize s ?r Write ?org ?project ?stack")
        case (Some denied)
        then obtain resp where "createStack s ?r = Return resp"
          using createStack_refused [of ?r s] q by auto
        then show ?thesis by simp
      next
        case None
        have "uc = None" using auth by (auto simp: authenticated_def)
        moreover have "Allows (sv_authz s) (id_Groups ident) Write ?org ?project ?stack"
          using None s(1) by (simp add: authorize_def identity_def split: if_splits)
        ultimately have "create_stack_events \<subseteq> {ev. may_change s r ?org ?project ?stack ev}"
          using auth by (auto intro!: may_change_user)
        moreover have "safe (doc_policy C (stackKey ?org ?project ?stack) create_stack_events) (createStack s ?r) T"
          using safe_createStack [of ?r q s C T] valid q None by simp
        ultimately show ?thesis by (rule safe_events_mono [rotated])
      qed
    qed
    then show ?thesis unfolding confined_def userAuthed_def using ref by auto
  qed
qed
lemma update_events_sub:
  "checkpoint_events u \<subseteq> update_events u" "release_events u \<subseteq> update_events u" "lease_events u \<subseteq> update_events u"
  by (auto simp: update_events_def checkpoint_events_def)

lemma lease_startUpdate: "lease_events u \<subseteq> (\<Union>u. lease_events u)" "release_events u \<subseteq> (\<Union>u. release_events u)"
  by blast+

text \<open>Every handler, behind the middleware of its route.\<close>

lemmas route_oks =
  route_ok_quiet(1) [OF safe_readonly(1)] route_ok_quiet(1) [OF safe_readonly(2)] route_ok_quiet(1) [OF safe_readonly(3)]
  route_ok_quiet(1) [OF safe_readonly(4)] route_ok_quiet(1) [OF safe_readonly(5)] route_ok_quiet(1) [OF safe_readonly(6)]
  route_ok_quiet(1) [OF safe_readonly(7)] route_ok_quiet(1) [OF safe_readonly(8)] route_ok_quiet(1) [OF safe_readonly(9)]
  route_ok_quiet(1) [OF safe_readonly(10)] route_ok_quiet(1) [OF safe_readonly(11)] route_ok_quiet(1) [OF safe_readonly(12)]
  route_ok_quiet(1) [OF safe_readonly(13)] route_ok_quiet(1) [OF safe_readonly(14)]
  route_ok_quiet(2) [OF safe_readonly(15)] route_ok_quiet(1) [OF safe_encrypt(1)] route_ok_quiet(1) [OF safe_encrypt(2)]
  route_ok_createStack
  route_ok_user [where a = Write, OF safe_createUpdate disjI1 [OF refl]]
  route_ok_user [where a = Write, OF safe_importStack disjI1 [OF refl]]
  route_ok_user [where a = Write, OF safe_events_mono [OF safe_startUpdate lease_startUpdate(1)] disjI1 [OF refl]]
  route_ok_user [where a = Write, OF safe_events_mono [OF safe_cancelUpdate lease_startUpdate(2)] disjI1 [OF refl]]
  route_ok_user [where a = Delete, OF safe_deleteStack disjI2 [OF conjI [OF refl subset_refl]]]
  route_ok_update [OF safe_patchCheckpoint(1) update_events_sub(1)]
  route_ok_update [OF safe_patchCheckpoint(2) update_events_sub(1)]
  route_ok_update [OF safe_completeUpdate update_events_sub(2)]
  route_ok_update [OF safe_renewLease update_events_sub(3)]

lemma open_routes_ok: "list_all route_ok open_routes"
  by (auto simp: open_routes_def route_ok_def intro!: confined_quiet safe_readonly)

lemma routes_ok: "list_all route_ok routes"
  unfolding routes_def user_routes_def update_routes_def
  by (simp add: open_routes_ok route_oks)

lemma authenticated_path [simp]:
  "authenticated s upd (r\<lparr>rq_PathValues := pv, rq_Identity := i, rq_UpdateClaims := c\<rparr>) = authenticated s upd r"
  by (simp add: authenticated_def fun_eq_iff)

lemma confined_path:
  "confined s (r\<lparr>rq_PathValues := pv, rq_Identity := i, rq_UpdateClaims := c\<rparr>) p = confined s r p"
  by (simp add: confined_def may_change_def)

lemma mux_dispatch_confined:
  assumes "\<not> NoAuth s" "quiet_crypter s"
  shows "confined s r (mux_dispatch s meth segs r)"
proof (cases "find_route meth segs")
  case None
  then show ?thesis by (auto simp: mux_dispatch_def intro: confined_Return)
next
  case (Some m)
  obtain rt vals where m: "m = (rt, vals)" by (cases m)
  have "route_ok rt" using find_route_mem [of meth segs rt vals] routes_ok Some m by (auto simp: list_all_iff)
  then have "confined s (r\<lparr>rq_PathValues := zip (wild_names (rt_Path rt)) vals, rq_Identity := None, rq_UpdateClaims := None\<rparr>)
     (rt_Handler rt s (r\<lparr>rq_PathValues := zip (wild_names (rt_Path rt)) vals, rq_Identity := None, rq_UpdateClaims := None\<rparr>))"
    using assms unfolding route_ok_def by blast
  then show ?thesis unfolding confined_path by (simp add: mux_dispatch_def Some m)
qed

lemma ServeHTTP_confined:
  assumes "\<not> NoAuth s" "quiet_crypter s"
  shows "confined s r (ServeHTTP s meth path r)"
  unfolding ServeHTTP_def using mux_dispatch_confined [OF assms] by (simp add: confined_Return)

section \<open>Serving many requests at the same time\<close>

type_synonym http_request = "string \<times> string \<times> request"

type_synonym 'w service = "'w \<times> (nat \<Rightarrow> (http_request \<times> response prog) option)"

text \<open>
  Requests arrive at any time, each runs the program of its handler one step at a time, clients
  disconnect, and time passes. The label of a step is the request that acts.
\<close>

inductive serve_step ::
  "'w handler \<Rightarrow> ('w \<Rightarrow> string \<Rightarrow> (body \<times> string) option) \<Rightarrow> ('w \<Rightarrow> time) \<Rightarrow> Server \<Rightarrow>
     'w service \<Rightarrow> http_request option \<Rightarrow> 'w service \<Rightarrow> bool" for h objs clock srv where
  arrive: "cs i = None \<Longrightarrow>
     serve_step h objs clock srv (w, cs) None (w, cs(i \<mapsto> ((m, p, r), ServeHTTP srv m p r)))"
| act: "cs i = Some (q, p) \<Longrightarrow> step h p w = (p', w') \<Longrightarrow>
     serve_step h objs clock srv (w, cs) (Some q) (w', cs(i \<mapsto> (q, p')))"
| leave: "serve_step h objs clock srv (w, cs) None (w, cs(i := None))"
| wait: "objs w' = objs w \<Longrightarrow> clock w \<le> clock w' \<Longrightarrow> serve_step h objs clock srv (w, cs) None (w', cs)"

inductive serving ::
  "'w handler \<Rightarrow> ('w \<Rightarrow> string \<Rightarrow> (body \<times> string) option) \<Rightarrow> ('w \<Rightarrow> time) \<Rightarrow> Server \<Rightarrow> 'w service \<Rightarrow> bool"
  for h objs clock srv where
  idle: "serving h objs clock srv (w, \<lambda>_. None)"
| served: "serving h objs clock srv s \<Longrightarrow> serve_step h objs clock srv s a s' \<Longrightarrow> serving h objs clock srv s'"

context s3_service
begin

text \<open>What is left of a request is still confined, given clock readings in the past.\<close>

definition request_ok :: "Server \<Rightarrow> 'w \<Rightarrow> http_request \<Rightarrow> response prog \<Rightarrow> bool" where
  "request_ok srv w q p \<longleftrightarrow> (\<exists>org project stack T. ref_ok org project stack \<and> (\<forall>t \<in> T. t \<le> clock w) \<and>
     safe (doc_policy content (stackKey org project stack) {ev. may_change srv (snd (snd q)) org project stack ev}) p T)"

definition service_inv :: "Server \<Rightarrow> 'w service \<Rightarrow> bool" where
  "service_inv srv s = (case s of (w, cs) \<Rightarrow> \<forall>i q p. cs i = Some (q, p) \<longrightarrow> request_ok srv w q p)"

lemma request_ok_mono: "request_ok srv w q p \<Longrightarrow> clock w \<le> clock w' \<Longrightarrow> request_ok srv w' q p"
  unfolding request_ok_def by (meson order_trans)

lemma request_ok_start:
  assumes "\<not> NoAuth srv" "quiet_crypter srv"
  shows "request_ok srv w (m, p, r) (ServeHTTP srv m p r)"
  using ServeHTTP_confined [OF assms, of r m p] unfolding confined_def request_ok_def by fastforce

text \<open>One step of one request.\<close>

lemma request_step:
  assumes "request_ok srv w q p" "step h p w = (p', w')"
  shows "request_ok srv w' q p' \<and> clock w \<le> clock w' \<and>
    (ref_ok org project stack \<longrightarrow> (\<exists>T. (\<forall>t \<in> T. t \<le> clock w) \<and>
       doc_change {ev. may_change srv (snd (snd q)) org project stack ev} T
         (objs w (stackKey org project stack)) (objs w' (stackKey org project stack))))"
proof -
  obtain o' p0 s' T where ref: "ref_ok o' p0 s'" and T: "\<forall>t \<in> T. t \<le> clock w" and
    safe: "safe (doc_policy content (stackKey o' p0 s') {ev. may_change srv (snd (snd q)) o' p0 s' ev}) p T"
    using assms(1) unfolding request_ok_def by blast
  let ?P = "doc_policy content (stackKey o' p0 s') {ev. may_change srv (snd (snd q)) o' p0 s' ev}"
  have reads: "may_read ?P = (\<lambda>k b e. content k e = b)" by (simp add: doc_policy_def)
  from step_permitted [OF safe reads T assms(2)] obtain T' where
    step: "permitted ?P T w w'" "clock w \<le> clock w'" "safe ?P p' T'" "\<forall>t \<in> T'. t \<le> clock w'" by blast
  have "doc_change {ev. may_change srv (snd (snd q)) org project stack ev} T
         (objs w (stackKey org project stack)) (objs w' (stackKey org project stack))" if "ref_ok org project stack"
  proof -
    have "is_stack_key (stackKey org project stack)" using that by (auto simp: is_stack_key_def)
    from permitted_doc_change [OF step(1) this] show ?thesis
      using stackKey_inject [OF ref that] doc_change.same by (auto elim: doc_change.cases split: if_splits)
  qed
  with ref step T show ?thesis unfolding request_ok_def by blast
qed

lemma serve_step_inv:
  assumes "\<not> NoAuth srv" "quiet_crypter srv" "service_inv srv s" "serve_step h objs clock srv s a s'"
  shows "service_inv srv s' \<and>
    (ref_ok org project stack \<longrightarrow>
       objs (fst s') (stackKey org project stack) = objs (fst s) (stackKey org project stack) \<or>
       (\<exists>q T. a = Some q \<and> (\<forall>t \<in> T. t \<le> clock (fst s)) \<and>
          doc_change {ev. may_change srv (snd (snd q)) org project stack ev} T
            (objs (fst s) (stackKey org project stack)) (objs (fst s') (stackKey org project stack))))"
  using assms(4)
proof (cases rule: serve_step.cases)
  case (arrive cs i w m p r)
  then show ?thesis
    using assms(3) request_ok_start [OF assms(1,2), of w m p r] by (auto simp: service_inv_def)
next
  case (act cs i q p w p' w')
  have "request_ok srv w q p" using assms(3) act(1,4) by (cases q) (simp add: service_inv_def)
  note one = request_step [OF this act(5), of org project stack]
  have "service_inv srv s'"
    using assms(3) one request_ok_mono [of srv w _ _ w'] by (auto simp: act(1,3) service_inv_def)
  with one show ?thesis by (auto simp: act)
next
  case (leave w cs i)
  then show ?thesis using assms(3) by (auto simp: service_inv_def)
next
  case (wait w' w cs)
  then show ?thesis using assms(3) request_ok_mono [of srv w _ _ w'] by (auto simp: service_inv_def)
qed

lemma serving_inv:
  assumes "\<not> NoAuth srv" "quiet_crypter srv"
  shows "serving h objs clock srv s \<Longrightarrow> service_inv srv s"
proof (induction rule: serving.induct)
  case (idle w)
  then show ?case by (simp add: service_inv_def)
next
  case (served s a s')
  then show ?case using serve_step_inv [OF assms] by blast
qed

end

lemma doc_change_event:
  assumes "doc_change E T d d'" "d' \<noteq> d"
  obtains ev where "ev \<in> E" "doc_change {ev} T d d'"
  using assms(1)
proof (cases rule: doc_change.cases)
  case same
  then show thesis using assms(2) by simp
next
  case (created b st e)
  then show thesis using that [of Create] doc_change.created [of "{Create}"] by blast
next
  case (changed b st b' st' ev e e')
  then show thesis using that [of ev] doc_change.changed [of b st b' st' ev "{ev}"] by blast
next
  case (removed u g b st e)
  then show thesis using that [of "Remove u g"] doc_change.removed [of u g "{Remove u g}"] by blast
qed

text \<open>
  C2. End to end. Serve any requests at the same time, in any interleaving and with any
  failures of the service: whenever the document of a stack changes, the change is one step of
  the lock protocol, and the request that acts carries a token that was genuine and current at some
  time, for an identity whose groups the rules grant the right to write this very stack (or to
  delete it, and then the event is one of a deletion); an update token changes the
  document of its own stack only, in the name of its own update.
\<close>

theorem document_changes_are_authorised:
  assumes service: "s3_service h objs content clock" and srv: "\<not> NoAuth srv" "quiet_crypter srv"
    and run: "serving h objs clock srv s" "serve_step h objs clock srv s a s'" and ref: "ref_ok org project stack"
  shows "objs (fst s') (stackKey org project stack) = objs (fst s) (stackKey org project stack) \<or>
     (\<exists>meth path r T ev t ident uc. a = Some (meth, path, r) \<and> (\<forall>t \<in> T. t \<le> clock (fst s)) \<and>
        doc_change {ev} T (objs (fst s) (stackKey org project stack)) (objs (fst s') (stackKey org project stack)) \<and>
        authenticated srv (uc \<noteq> None) r t ident uc \<and>
        (case uc of
           Some c \<Rightarrow> Allows (sv_authz srv) (id_Groups ident) Write org project stack \<and>
             uc_Org c = org \<and> uc_Project c = project \<and> uc_Stack c = stack \<and> ev \<in> update_events (uc_UpdateID c)
         | None \<Rightarrow> Allows (sv_authz srv) (id_Groups ident) Write org project stack \<or>
             Allows (sv_authz srv) (id_Groups ident) Delete org project stack \<and> ev \<in> delete_events))"
proof -
  let ?k = "stackKey org project stack"
  consider "objs (fst s') ?k = objs (fst s) ?k"
    | q T where "a = Some q" "\<forall>t \<in> T. t \<le> clock (fst s)" "objs (fst s') ?k \<noteq> objs (fst s) ?k"
      "doc_change {ev. may_change srv (snd (snd q)) org project stack ev} T (objs (fst s) ?k) (objs (fst s') ?k)"
    using s3_service.serve_step_inv [OF service srv s3_service.serving_inv [OF service srv run(1)] run(2), of org project stack] ref
    by blast
  then show ?thesis
  proof cases
    case 2
    obtain ev where ev: "may_change srv (snd (snd q)) org project stack ev" "doc_change {ev} T (objs (fst s) ?k) (objs (fst s') ?k)"
      using doc_change_event [OF 2(4,3)] by blast
    obtain meth path r where q: "q = (meth, path, r)" by (cases q)
    from ev(1) q obtain t ident uc where who: "authenticated srv (uc \<noteq> None) r t ident uc"
      "case uc of
           Some c \<Rightarrow> Allows (sv_authz srv) (id_Groups ident) Write org project stack \<and>
             uc_Org c = org \<and> uc_Project c = project \<and> uc_Stack c = stack \<and> ev \<in> update_events (uc_UpdateID c)
         | None \<Rightarrow> Allows (sv_authz srv) (id_Groups ident) Write org project stack \<or>
             Allows (sv_authz srv) (id_Groups ident) Delete org project stack \<and> ev \<in> delete_events"
      unfolding may_change_def by auto
    show ?thesis using 2(1,2) ev(2) who q by blast
  qed blast
qed

text \<open>A deletion without a token changes nothing.\<close>

definition demo_delete :: http_request where
  "demo_delete = (''DELETE'', ''/api/stacks/acme/web/prod'', plain_request)"

theorem document_changes_are_authorised_witness:
  "\<exists>s'. serve_step ref_service ref_tagged bk_clock demo_server
       (world_at 0, (\<lambda>_. None)(0 \<mapsto> (demo_delete, ServeHTTP demo_server (fst demo_delete) (fst (snd demo_delete)) plain_request)))
       (Some demo_delete) s' \<and>
     ref_tagged (fst s') (stackKey ''acme'' ''web'' ''prod'') = ref_tagged (world_at 0) (stackKey ''acme'' ''web'' ''prod'')"
proof -
  let ?p = "ServeHTTP demo_server (fst demo_delete) (fst (snd demo_delete)) plain_request"
  let ?cs = "(\<lambda>_. None)(0 \<mapsto> (demo_delete, ?p)) :: nat \<Rightarrow> (http_request \<times> response prog) option"
  obtain p' w' where step: "step ref_service ?p (world_at 0) = (p', w')" by (cases "step ref_service ?p (world_at 0)")
  have "serve_step ref_service ref_tagged bk_clock demo_server (world_at 0, \<lambda>_. None) None (world_at 0, ?cs)"
    using arrive [of "\<lambda>_. None" 0 ref_service ref_tagged bk_clock demo_server "world_at 0" "fst demo_delete" "fst (snd demo_delete)" plain_request]
    by (simp add: demo_delete_def)
  then have serving: "serving ref_service ref_tagged bk_clock demo_server (world_at 0, ?cs)" by (rule served [OF idle])
  have act: "serve_step ref_service ref_tagged bk_clock demo_server (world_at 0, ?cs) (Some demo_delete) (w', ?cs(0 \<mapsto> (demo_delete, p')))"
    by (rule serve_step.act [OF _ step]) simp
  have quiet: "quiet_crypter demo_server" by (simp add: quiet_crypter_def demo_server_def NewServer_def)
  have ref: "ref_ok ''acme'' ''web'' ''prod''" by (simp add: ref_ok_def no_slash_def)
  have noauth: "\<not> authenticated demo_server b plain_request t ident uc" for b t ident uc
    by (simp add: authenticated_def plain_request_def no_header)
  have "ref_tagged (fst (w', ?cs(0 \<mapsto> (demo_delete, p')))) (stackKey ''acme'' ''web'' ''prod'') =
      ref_tagged (fst (world_at 0, ?cs)) (stackKey ''acme'' ''web'' ''prod'')"
    using document_changes_are_authorised [OF ref.svc.s3_service_axioms demo_server_auth quiet serving act ref] noauth
    unfolding demo_delete_def by blast
  with act show ?thesis by (intro exI [of _ "(w', ?cs(0 \<mapsto> (demo_delete, p')))"]) simp
qed

end
