(* ===== verification/API_Results.thy ===== *)
theory API_Results
  imports Store_Results API_Protocol
begin

text \<open>
  What the handlers answer and what they leave in the bucket, on a service without faults
  (\<open>s3_ideal\<close>): an update from its creation to its completion, import and export of a stack,
  and its deletion. The lemmas compose the results of the store's operations.
\<close>

section \<open>Requests and the state they work on\<close>

text \<open>The path of a request names a stack, and an update of it.\<close>

definition names_stack :: "request \<Rightarrow> string \<Rightarrow> string \<Rightarrow> string \<Rightarrow> bool" where
  "names_stack r org project stack \<longleftrightarrow> PathValue r ''org'' = org \<and> PathValue r ''project'' = project \<and>
     PathValue r ''stack'' = stack \<and> ref_ok org project stack"

definition names_update :: "request \<Rightarrow> string \<Rightarrow> string \<Rightarrow> string \<Rightarrow> string \<Rightarrow> string \<Rightarrow> bool" where
  "names_update r org project stack kind updateID \<longleftrightarrow> names_stack r org project stack \<and>
     PathValue r ''kind'' = kind \<and> PathValue r ''updateID'' = updateID"

lemmas names_defs = names_stack_def names_update_def

lemma acquired_lock:
  "acquire_spec now st u owner ttl = Inr l \<Longrightarrow> l_UpdateID l = u \<and> l_Owner l = owner \<and> l_ExpiresAt l = now + ttl"
  by (auto simp: acquire_spec_def granted_def split: option.splits if_splits)

lemma acquired_etag:
  "acquire_spec now st u owner ttl = Inr l \<Longrightarrow> (\<And>l0. st_Lock st = Some l0 \<Longrightarrow> l_etag l0 = []) \<Longrightarrow> l_etag l = []"
  by (auto simp: acquire_spec_def granted_def split: option.splits if_splits)

lemma update_keys_differ:
  "updateKey org project stack inc u \<noteq> latestCheckpointKey org project stack inc"
  "updateKey org project stack inc u \<noteq> historyCheckpointKey org project stack inc v"
  "updateKey org project stack inc u \<noteq> checkpointObjectKey sha org project stack inc d"
  by (simp_all add: updateKey_def latestCheckpointKey_def historyCheckpointKey_def checkpointObjectKey_def)

context s3_ideal
begin

lemma run_attempt [simp]:
  "run h (attempt p f k) w = (case run h p w of (x, w') \<Rightarrow> (case x of Inl err \<Rightarrow> run h (f err) w' | Inr v \<Rightarrow> run h (k v) w'))"
  by (simp add: attempt_def split: prod.split sum.split)

lemma run_NewUpdateID [simp]: "run h NewUpdateID w = (hex (rand 16 w), reseed 16 w)"
  by (simp add: NewUpdateID_def)

lemma reseed_state [simp]:
  "has_doc (reseed n w) k st = has_doc w k st" "has_update (reseed n w) k u = has_update w k u"
  by (simp_all add: has_doc_def has_update_def)

lemma has_update_put_doc [simp]: "k \<noteq> k' \<Longrightarrow> has_update (put_doc k st w) k' u = has_update w k' u"
  by (simp add: has_update_def)

lemma has_update_put [simp]: "clean_update u \<Longrightarrow> has_update (put_update k u w) k u"
  by (simp add: has_update_def put_update_def)

lemma objs_put_update [simp]: "objs (put_update k u w) = (objs w)(k \<mapsto> Doc (update_json u))"
  by (simp add: put_update_def)

text \<open>The update \<open>updateID\<close> with record \<open>u\<close> works on the stack with document \<open>st\<close> under the lock \<open>l\<close>.\<close>

definition working :: "'w \<Rightarrow> string \<Rightarrow> string \<Rightarrow> string \<Rightarrow> string \<Rightarrow> stack \<Rightarrow> lock \<Rightarrow> update \<Rightarrow> bool" where
  "working w org project stack updateID st l u \<longleftrightarrow>
     has_doc w (stackKey org project stack) st \<and> usesCanonicalLock st \<and> st_Lock st = Some l \<and>
     l_UpdateID l = updateID \<and> \<not> Expired l (clock w) \<and>
     has_update w (updateKey org project stack (st_Incarnation st) updateID) u"

section \<open>Creating an update\<close>

text \<open>Taking the lock for a new update and recording it, as \<^verbatim>\<open>createUpdate\<close> and \<^verbatim>\<open>importStack\<close> do.\<close>

lemma run_acquire_create:
  assumes ok: "ref_ok org project stack" and kind: "kind \<noteq> ''preview''"
    and doc: "has_doc w (stackKey org project stack) st" "usesCanonicalLock st"
    and free: "acquire_spec (clock w) st updateID owner ttl = Inr l"
    and new: "objs w (updateKey org project stack (st_Incarnation st) updateID) = None"
    and time: "time_marshals (clock w)" "time_marshals (clock w + ttl)" "0 < ttl"
  obtains w1 w2 st' where "run h (AcquireLock org project stack (st_Incarnation st) updateID owner ttl) w = (Inr l, w1)"
    "run h (CreateUpdate org project stack kind updateID) w1 =
       (Inr ((new_update (clock w) kind updateID (st_Version st + 1))\<lparr>u_Incarnation := st_Incarnation st\<rparr>), w2)"
    "working w2 org project stack updateID st' l (new_update (clock w) kind updateID (st_Version st + 1))"
    "st_Incarnation st' = st_Incarnation st" "st_Version st' = st_Version st + 1" "clock w2 = clock w"
    "\<forall>k. k \<noteq> stackKey org project stack \<longrightarrow> k \<noteq> updateKey org project stack (st_Incarnation st) updateID \<longrightarrow>
       objs w2 k = objs w k"
proof -
  let ?k = "stackKey org project stack" and ?key = "updateKey org project stack (st_Incarnation st) updateID"
  let ?st1 = "with_lock st (l_Generation l) (Some l)" and ?u = "new_update (clock w) kind updateID (st_Version st + 1)"
  let ?w1 = "put_doc ?k ?st1 w" and ?st' = "?st1\<lparr>st_Version := st_Version st + 1, st_LastUpdate := clock w\<rparr>"
  let ?w2 = "put_doc ?k ?st' (put_update ?key ?u ?w1)"
  note key = stackKey_not_object(5) [OF ok ok, of "st_Incarnation st" updateID] and l = acquired_lock [OF free]
  have store: "storable st" using doc(1) by (simp add: has_doc_def)
  have acq: "run h (AcquireLock org project stack (st_Incarnation st) updateID owner ttl) w = (Inr l, ?w1)"
    using run_AcquireLock [OF doc time(2)] free by simp
  have "l_etag l = []" "time_marshals (l_ExpiresAt l)"
    using acquired_etag [OF free] storable_lock [OF store] l time(2) by auto
  then have store1: "storable ?st1" using store by simp
  then have store': "storable ?st'" using time(1) by simp
  have live: "\<not> Expired l (clock w)" using l time by (simp add: Expired_def)
  have cre: "run h (CreateUpdate org project stack kind updateID) ?w1 = (Inr (?u\<lparr>u_Incarnation := st_Incarnation st\<rparr>), ?w2)"
    using run_CreateUpdate [OF ok has_doc_put [OF store1, of ?k w] _ _ _ _ kind refl, of l updateID] l live new time(1) key
    by (simp add: Let_def)
  have "working ?w2 org project stack updateID ?st' l ?u"
    using store' key l live by (simp add: working_def usesCanonicalLock_def with_lock_def)
  with acq cre show thesis by (rule that) simp_all
qed

lemma run_createUpdate:
  assumes r: "names_stack r org project stack" "PathValue r ''kind'' = kind" "validUpdateKind kind" "kind \<noteq> ''preview''"
    and doc: "has_doc w (stackKey org project stack) st" "usesCanonicalLock st"
    and free: "acquire_spec (clock w) st (hex (rand 16 w)) (Principal (identity r)) (LeaseDuration s) = Inr l"
    and new: "objs w (updateKey org project stack (st_Incarnation st) (hex (rand 16 w))) = None"
    and time: "time_marshals (clock w)" "time_marshals (clock w + LeaseDuration s)" "0 < LeaseDuration s"
  obtains w' st' where "run h (createUpdate s r) w = (writeJSON 200 (updateID_json (hex (rand 16 w))), w')"
    "working w' org project stack (hex (rand 16 w)) st' l (new_update (clock w) kind (hex (rand 16 w)) (st_Version st + 1))"
    "st_Incarnation st' = st_Incarnation st" "st_Version st' = st_Version st + 1" "clock w' = clock w"
    "\<forall>k. k \<noteq> stackKey org project stack \<longrightarrow> k \<noteq> updateKey org project stack (st_Incarnation st) (hex (rand 16 w)) \<longrightarrow>
       objs w' k = objs w k"
proof -
  have "ref_ok org project stack" using r by (simp add: names_defs)
  from run_acquire_create [OF this r(4), of "reseed 16 w" st, simplified, OF doc free new time]
  obtain w1 w2 st' where run:
    "run h (AcquireLock org project stack (st_Incarnation st) (hex (rand 16 w)) (Principal (identity r)) (LeaseDuration s)) (reseed 16 w) = (Inr l, w1)"
    "run h (CreateUpdate org project stack kind (hex (rand 16 w))) w1 =
       (Inr ((new_update (clock w) kind (hex (rand 16 w)) (st_Version st + 1))\<lparr>u_Incarnation := st_Incarnation st\<rparr>), w2)"
    and w2: "working w2 org project stack (hex (rand 16 w)) st' l (new_update (clock w) kind (hex (rand 16 w)) (st_Version st + 1))"
    "st_Incarnation st' = st_Incarnation st" "st_Version st' = st_Version st + 1" "clock w2 = clock w"
    "\<forall>k. k \<noteq> stackKey org project stack \<longrightarrow> k \<noteq> updateKey org project stack (st_Incarnation st) (hex (rand 16 w)) \<longrightarrow>
       objs w2 k = objs w k" by blast
  have "run h (createUpdate s r) w = (writeJSON 200 (updateID_json (hex (rand 16 w))), w2)"
    using r run by (simp add: createUpdate_def names_defs run_GetStack [OF doc(1)] createUpdate_record_api_def)
  then show thesis using w2 by (rule that)
qed

end

lemma clean_update_moves:
  "clean_update u \<Longrightarrow> clean_update (u\<lparr>u_Status := s, u_StartTime := t\<rparr>)"
  "clean_update u \<Longrightarrow> sm_wf m \<Longrightarrow>
     clean_update (u\<lparr>u_Status := s, u_Message := msg, u_ResourceChanges := m, u_EndTime := t\<rparr>)"
  by (cases u; simp add: clean_update_def persisted_update_def)+

context s3_ideal
begin

section \<open>Renewing the lease and starting\<close>

lemma run_requireLiveLock:
  assumes "names_stack r org project stack" "working w org project stack updateID st l u" "g = 0 \<or> g = l_Generation l"
  shows "run h (requireLiveLock r updateID g) w = (Inr l, w)"
  using assms run_GetLock [of w org project stack st]
  by (auto simp: requireLiveLock_def names_defs working_def)

lemma run_with_live_lock:
  assumes "names_stack r org project stack" "working w org project stack updateID st l u" "g = 0 \<or> g = l_Generation l"
  shows "run h (with_live_lock r updateID g k) w = run h (k l) w"
  using run_requireLiveLock [OF assms] by (simp add: with_live_lock_def)

lemma run_renew_working:
  assumes work: "working w org project stack updateID st l u" and ok: "ref_ok org project stack"
    and time: "time_marshals (clock w + ttl)" "0 < ttl"
  shows "\<exists>l' st' w'. run h (RenewLock org project stack updateID (l_Generation l) ttl) w = (Inr l', w') \<and>
    working w' org project stack updateID st' l' u \<and> clock w' = clock w \<and>
    (l_Generation l = 0 \<or> l_Generation l' = l_Generation l) \<and> l_ExpiresAt l' = clock w + ttl \<and>
    st_Incarnation st' = st_Incarnation st \<and> st_Version st' = st_Version st \<and>
    (\<forall>k. k \<noteq> stackKey org project stack \<longrightarrow> objs w' k = objs w k)"
proof -
  let ?k = "stackKey org project stack"
  have doc: "has_doc w ?k st" "usesCanonicalLock st" and lk: "st_Lock st = Some l" using work by (simp_all add: working_def)
  let ?l = "l\<lparr>l_Generation := settled st (l_Generation l), l_ExpiresAt := clock w + ttl\<rparr>"
  let ?st = "with_lock st (l_Generation ?l) (Some ?l)"
  have "renew_spec (clock w) st updateID (l_Generation l) ttl = Inr ?l"
    using work by (simp add: renew_spec_def working_def)
  then have run: "run h (RenewLock org project stack updateID (l_Generation l) ttl) w = (Inr ?l, put_doc ?k ?st w)"
    using run_RenewLock [OF doc time(1)] by simp
  have "storable st" using doc(1) by (simp add: has_doc_def)
  then have "storable ?st" using storable_lock lk time(1) by simp
  then have "working (put_doc ?k ?st w) org project stack updateID ?st ?l u"
    using work time(2) stackKey_not_object(5) [OF ok ok] by (simp add: working_def Expired_def)
  with run show ?thesis by (intro exI [of _ ?l] exI [of _ ?st] exI [of _ "put_doc ?k ?st w"]) (simp add: settled_def)
qed

lemma run_start_working:
  assumes work: "working w org project stack updateID st l u" and ok: "ref_ok org project stack"
    and status: "u_Status u = ''not-started''"
  shows "\<exists>w' u'. run h (StartUpdate org project stack updateID) w = (Inr (), w') \<and>
    working w' org project stack updateID st l u' \<and> u_Status u' = ''in-progress'' \<and> u_Kind u' = u_Kind u \<and>
    u_Version u' = u_Version u \<and> clock w' = clock w \<and>
    (\<forall>k. k \<noteq> updateKey org project stack (st_Incarnation st) updateID \<longrightarrow> objs w' k = objs w k)"
proof -
  let ?k = "updateKey org project stack (st_Incarnation st) updateID"
  let ?u = "u\<lparr>u_Status := ''in-progress'', u_StartTime := word_of_int (unix (clock w))\<rparr>"
  have doc: "has_doc w (stackKey org project stack) st" and upd: "has_update w ?k u" using work by (simp_all add: working_def)
  have run: "run h (StartUpdate org project stack updateID) w = (Inr (), put_update ?k ?u w)"
    using run_StartUpdate [OF doc upd] status by (simp add: start_spec_def)
  have "clean_update ?u" using upd by (simp add: has_update_def clean_update_moves)
  then have "working (put_update ?k ?u w) org project stack updateID st l ?u"
    using work stackKey_not_object(5) [OF ok ok] has_doc_put_update [OF doc] by (simp add: working_def)
  with run show ?thesis by (intro exI [of _ "put_update ?k ?u w"] exI [of _ ?u]) simp
qed

end

text \<open>The claims of the token for an update, as \<^verbatim>\<open>startUpdate\<close> and \<^verbatim>\<open>renewLease\<close> issue it.\<close>

definition claims_of :: "string \<Rightarrow> string \<Rightarrow> string \<Rightarrow> string \<Rightarrow> string \<Rightarrow> lock \<Rightarrow> UpdateClaims" where
  "claims_of org project stack kind updateID l = \<lparr>uc_UpdateID = updateID, uc_Org = org, uc_Project = project,
     uc_Stack = stack, uc_Kind = kind, uc_Generation = l_Generation l\<rparr>"

context s3_ideal
begin

lemma run_get_working:
  "working w org project stack updateID st l u \<Longrightarrow>
     run h (GetUpdate org project stack updateID) w = (Inr (u\<lparr>u_etag := utag u, u_Incarnation := st_Incarnation st\<rparr>), w)"
  by (rule run_GetUpdate) (simp_all add: working_def)

lemma run_startUpdate:
  assumes r: "names_update r org project stack kind updateID" "validUpdateKind kind" "updateID \<noteq> ''''"
    and work: "working w org project stack updateID st l u" "u_Status u = ''not-started''" "u_Kind u \<noteq> ''preview''"
    and laws: "jwt_laws (sv_jwt s)" "can_sign (sv_issuer s)" "validateIdentity (identity r) = None"
    and time: "time_marshals (clock w + LeaseDuration s)" "2 * second \<le> LeaseDuration s" "0 < clock w"
  shows "\<exists>token w' st' l' u'.
    run h (startUpdate s r) w = (writeJSON 200 (start_json u token (unix (clock w + LeaseDuration s))), w') \<and>
    working w' org project stack updateID st' l' u' \<and> u_Status u' = ''in-progress'' \<and> u_Kind u' = u_Kind u \<and>
    u_Version u' = u_Version u \<and> st_Incarnation st' = st_Incarnation st \<and> st_Version st' = st_Version st \<and>
    clock w' = clock w \<and>
    run h (VerifyScoped (sv_jwt s) (sv_issuer s) token) w' =
      (Inr (shown (identity r), Some (claims_of org project stack kind updateID l')), w') \<and>
    (\<forall>k. k \<noteq> stackKey org project stack \<longrightarrow> k \<noteq> updateKey org project stack (st_Incarnation st) updateID \<longrightarrow>
       objs w' k = objs w k)"
proof -
  have ok: "ref_ok org project stack" using r(1) by (simp add: names_defs)
  have pos: "0 < LeaseDuration s" using time(2) by simp
  obtain l' st' w1 where renew: "run h (RenewLock org project stack updateID (l_Generation l) (LeaseDuration s)) w = (Inr l', w1)"
    and w1: "working w1 org project stack updateID st' l' u" "clock w1 = clock w" "st_Incarnation st' = st_Incarnation st"
      "st_Version st' = st_Version st" "\<forall>k. k \<noteq> stackKey org project stack \<longrightarrow> objs w1 k = objs w k"
    using run_renew_working [OF work(1) ok time(1) pos] by blast
  obtain w2 u' where start: "run h (StartUpdate org project stack updateID) w1 = (Inr (), w2)"
    and w2: "working w2 org project stack updateID st' l' u'" "u_Status u' = ''in-progress''" "u_Kind u' = u_Kind u"
      "u_Version u' = u_Version u" "clock w2 = clock w1"
      "\<forall>k. k \<noteq> updateKey org project stack (st_Incarnation st') updateID \<longrightarrow> objs w2 k = objs w1 k"
    using run_start_working [OF w1(1) ok work(2)] by blast
  let ?uc = "claims_of org project stack kind updateID l'"
  have now: "h_now h w2 = (clock w, w2)" using w2(5) w1(2) by simp
  have valid: "clock w < unix (clock w + LeaseDuration s) * second" using time(2) by (simp add: unix_def)
  have "uc_UpdateID ?uc \<noteq> []" using r(3) by (simp add: claims_of_def)
  from issued_update_token [OF laws(1,2) time(2) laws(3) this now time(3) now order_refl] valid
  obtain token where token:
    "run h (IssueUpdate (sv_jwt s) (sv_issuer s) (identity r) ?uc (LeaseDuration s)) w2 =
       (Inr (token, unix (clock w + LeaseDuration s)), w2)"
    "run h (VerifyScoped (sv_jwt s) (sv_issuer s) token) w2 = (Inr (shown (identity r), Some ?uc), w2)"
    by auto
  have names: "names_stack r org project stack" using r(1) by (simp add: names_update_def)
  have "run h (startUpdate s r) w = (writeJSON 200 (start_json u token (unix (clock w + LeaseDuration s))), w2)"
    using r work(2,3) renew start token(1) run_with_live_lock [OF names work(1), of 0]
    by (simp add: startUpdate_def names_defs run_get_working [OF work(1)] startUpdate_issue_def claims_of_def start_json_def)
  with w1 w2 token(2) show ?thesis by (metis (no_types, lifting))
qed

end

context s3_ideal
begin

section \<open>Saving a checkpoint and completing\<close>

text \<open>The document names \<open>d\<close> as the latest checkpoint and as that of version \<open>v\<close>.\<close>

definition recorded ::
  "(json \<Rightarrow> string) \<Rightarrow> 'w \<Rightarrow> string \<Rightarrow> string \<Rightarrow> string \<Rightarrow> stack \<Rightarrow> int64 \<Rightarrow> json \<Rightarrow> bool" where
  "recorded sha w org project stack st v d \<longleftrightarrow>
     st_LatestCheckpointKey st = checkpointObjectKey sha org project stack (st_Incarnation st) d \<and>
     sm_get (st_CheckpointVersions st) (Itoa (sint v)) = Some (checkpointObjectKey sha org project stack (st_Incarnation st) d) \<and>
     objs w (checkpointObjectKey sha org project stack (st_Incarnation st) d) = Some (Doc d)"

lemma recorded_read:
  assumes "has_doc w (stackKey org project stack) st" "recorded sha w org project stack st v d"
  shows "run h (GetCheckpoint org project stack) w = (Inr d, w)"
    "run h (GetCheckpointVersion org project stack v) w = (Inr d, w)"
  using assms(2) unfolding recorded_def
  by (auto simp: GetCheckpoint_def GetCheckpointVersion_def run_GetStack [OF assms(1)] run_readCheckpoint Let_def)

lemma run_save_working:
  assumes work: "working w org project stack updateID st l u" and ok: "ref_ok org project stack" "updateID \<noteq> ''''"
    and fresh: "objs w (checkpointObjectKey sha org project stack (st_Incarnation st) d) \<in> {None, Some (Doc d)}"
  shows "\<exists>w' st'. run h (SaveCheckpoint sha org project stack (st_Incarnation st) updateID (l_Generation l) (st_Version st) d) w =
      (Inr (), w') \<and> working w' org project stack updateID st' l u \<and>
    recorded sha w' org project stack st' (st_Version st) d \<and> st_Incarnation st' = st_Incarnation st \<and>
    st_Version st' = st_Version st \<and> clock w' = clock w"
proof -
  let ?inc = "st_Incarnation st" and ?v = "st_Version st" and ?k = "stackKey org project stack"
  let ?key = "checkpointObjectKey sha org project stack ?inc d"
  have doc: "has_doc w ?k st" using work by (simp add: working_def)
  note keys = stackKey_not_object [OF ok(1) ok(1)]
  have may: "save_spec (clock w) st updateID (l_Generation l) ?v = Inr ()"
    using work ok(2) by (simp add: save_spec_def working_def)
  let ?st' = "record_checkpoint st ?v ?key"
  let ?w' = "store (latestCheckpointKey org project stack ?inc) (Some (Doc d))
         (store (historyCheckpointKey org project stack ?inc ?v) (Some (Doc d)) (put_doc ?k ?st' (with_object ?key d w)))"
  have run: "run h (SaveCheckpoint sha org project stack ?inc updateID (l_Generation l) ?v d) w = (Inr (), ?w')"
    using may by (simp add: run_SaveCheckpoint [OF ok(1) doc refl refl])
  have "has_doc ?w' ?k ?st'" using doc keys by (simp add: has_doc_def)
  moreover have "objs ?w' ?key = Some (Doc d)"
    using fresh keys(4) [symmetric] by (auto simp: with_object_def)
  moreover have "has_update ?w' (updateKey org project stack ?inc updateID) u"
    using work keys(5) [symmetric] update_keys_differ by (simp add: working_def has_update_def with_object_def)
  ultimately show ?thesis
    using run work
    by (intro exI [of _ ?w'] exI [of _ ?st'])
      (simp add: working_def recorded_def record_checkpoint_def usesCanonicalLock_def)
qed

lemma run_saveCheckpointForUpdate:
  assumes r: "names_stack r org project stack" "updateID \<noteq> ''''" "token_generation r = 0 \<or> token_generation r = l_Generation l"
    and work: "working w org project stack updateID st l u" "u_Status u = ''in-progress''" "u_Kind u \<noteq> ''preview''"
      "u_Version u = st_Version st"
    and fresh: "objs w (checkpointObjectKey (sv_sha s) org project stack (st_Incarnation st) d) \<in> {None, Some (Doc d)}"
    and time: "time_marshals (clock w + LeaseDuration s)" "0 < LeaseDuration s"
  shows "\<exists>w' st' l'. run h (saveCheckpointForUpdate s r org project stack updateID d) w = (WriteHeader 204, w') \<and>
    working w' org project stack updateID st' l' u \<and> recorded (sv_sha s) w' org project stack st' (st_Version st) d \<and>
    (l_Generation l = 0 \<or> l_Generation l' = l_Generation l) \<and>
    st_Incarnation st' = st_Incarnation st \<and> st_Version st' = st_Version st \<and> clock w' = clock w"
proof -
  have ok: "ref_ok org project stack" using r(1) by (simp add: names_defs)
  obtain l' st1 w1 where renew: "run h (RenewLock org project stack updateID (l_Generation l) (LeaseDuration s)) w = (Inr l', w1)"
    and w1: "working w1 org project stack updateID st1 l' u" "clock w1 = clock w" "st_Incarnation st1 = st_Incarnation st"
      "l_Generation l = 0 \<or> l_Generation l' = l_Generation l" "st_Version st1 = st_Version st" "\<forall>k. k \<noteq> stackKey org project stack \<longrightarrow> objs w1 k = objs w k"
    using run_renew_working [OF work(1) ok time] by blast
  have "objs w1 (checkpointObjectKey (sv_sha s) org project stack (st_Incarnation st1) d) \<in> {None, Some (Doc d)}"
    using fresh w1(3,6) stackKey_not_object(4) [OF ok ok] by metis
  from run_save_working [OF w1(1) ok r(2) this] obtain w2 st2 where save:
    "run h (SaveCheckpoint (sv_sha s) org project stack (st_Incarnation st) updateID (l_Generation l') (st_Version st) d) w1 = (Inr (), w2)"
    and w2: "working w2 org project stack updateID st2 l' u" "recorded (sv_sha s) w2 org project stack st2 (st_Version st) d"
      "st_Incarnation st2 = st_Incarnation st" "st_Version st2 = st_Version st" "clock w2 = clock w"
    unfolding w1(2,3,5) by blast
  have "run h (saveCheckpointForUpdate s r org project stack updateID d) w = (WriteHeader 204, w2)"
    using work renew save run_with_live_lock [OF r(1) work(1) r(3)]
    by (simp add: saveCheckpointForUpdate_def run_get_working [OF work(1)])
  with w1(4) w2 show ?thesis by blast
qed

end

context s3_ideal
begin

text \<open>The update is over: its record has the final status and the stack is unlocked.\<close>

definition finished :: "'w \<Rightarrow> string \<Rightarrow> string \<Rightarrow> string \<Rightarrow> string \<Rightarrow> stack \<Rightarrow> update \<Rightarrow> bool" where
  "finished w org project stack updateID st u \<longleftrightarrow>
     has_doc w (stackKey org project stack) st \<and> usesCanonicalLock st \<and> st_Lock st = None \<and>
     has_update w (updateKey org project stack (st_Incarnation st) updateID) u"

lemma run_complete_working:
  assumes work: "working w org project stack updateID st l u" and ok: "ref_ok org project stack"
    and status: "u_Status u = ''in-progress''" "status \<noteq> ''in-progress''" "sm_wf changes"
  shows "\<exists>w' u'. run h (CompleteUpdate org project stack updateID status message changes) w = (Inr (), w') \<and>
    working w' org project stack updateID st l u' \<and> u_Status u' = status \<and> u_Version u' = u_Version u \<and> u_Kind u' = u_Kind u \<and>
    clock w' = clock w \<and>
    (\<forall>k. k \<noteq> updateKey org project stack (st_Incarnation st) updateID \<longrightarrow> objs w' k = objs w k)"
proof -
  let ?k = "updateKey org project stack (st_Incarnation st) updateID"
  let ?u = "u\<lparr>u_Status := status, u_Message := message, u_ResourceChanges := changes, u_EndTime := word_of_int (unix (clock w))\<rparr>"
  have doc: "has_doc w (stackKey org project stack) st" and upd: "has_update w ?k u" using work by (simp_all add: working_def)
  have run: "run h (CompleteUpdate org project stack updateID status message changes) w = (Inr (), put_update ?k ?u w)"
    using run_CompleteUpdate [OF doc upd] status by (simp add: complete_spec_def)
  have "clean_update ?u" using upd status(3) by (simp add: has_update_def clean_update_moves)
  then have "working (put_update ?k ?u w) org project stack updateID st l ?u"
    using work stackKey_not_object(5) [OF ok ok] has_doc_put_update [OF doc] by (simp add: working_def)
  with run show ?thesis by (intro exI [of _ "put_update ?k ?u w"] exI [of _ ?u]) simp
qed

lemma run_release_working:
  assumes work: "working w org project stack updateID st l u" and ok: "ref_ok org project stack"
  shows "\<exists>w' st'. run h (releaseUpdateLock org project stack updateID (l_Generation l)) w = (Inr (), w') \<and>
    finished w' org project stack updateID st' u \<and> st_Incarnation st' = st_Incarnation st \<and> st_Version st' = st_Version st \<and>
    clock w' = clock w \<and> (recorded sha w org project stack st v d \<longrightarrow> recorded sha w' org project stack st' v d)"
proof -
  let ?k = "stackKey org project stack" and ?st = "with_lock st (l_Generation l) None"
  have doc: "has_doc w ?k st" "usesCanonicalLock st" and st: "storable st" using work by (simp_all add: working_def has_doc_def)
  have run: "run h (releaseUpdateLock org project stack updateID (l_Generation l)) w = (Inr (), put_doc ?k ?st w)"
    using work by (simp add: releaseUpdateLock_def run_ReleaseLock [OF doc] working_def)
  have "finished (put_doc ?k ?st w) org project stack updateID ?st u"
    using work st stackKey_not_object(5) [OF ok ok] by (simp add: finished_def working_def)
  moreover have "recorded sha w org project stack st v d \<longrightarrow> recorded sha (put_doc ?k ?st w) org project stack ?st v d"
    using stackKey_not_object(4) [OF ok ok, of sha "st_Incarnation st" d] by (simp add: recorded_def with_lock_def)
  ultimately show ?thesis using run by (intro exI [of _ "put_doc ?k ?st w"] exI [of _ ?st]) simp
qed

lemma recorded_frame:
  assumes "recorded sha w org project stack st v d"
    and "\<forall>k. k \<noteq> updateKey org project stack (st_Incarnation st) updateID \<longrightarrow> objs w' k = objs w k"
  shows "recorded sha w' org project stack st v d"
  using assms update_keys_differ(3) [of org project stack "st_Incarnation st" updateID sha d, symmetric]
  by (simp add: recorded_def)

lemma run_completeUpdate:
  assumes r: "names_update r org project stack kind updateID" "requireUpdateScope s r = None"
      "token_generation r = 0 \<or> token_generation r = l_Generation l"
      "decodeBody r decode_status = Inr status" "status = ''succeeded'' \<or> status = ''failed''"
    and work: "working w org project stack updateID st l u" "u_Status u = ''in-progress''" "u_Kind u \<noteq> ''preview''"
    and rec: "recorded sha w org project stack st v d"
  shows "\<exists>w' st' u'. run h (completeUpdate s r) w = (WriteHeader 204, w') \<and> finished w' org project stack updateID st' u' \<and>
    u_Status u' = status \<and> u_Version u' = u_Version u \<and> u_Kind u' = u_Kind u \<and>
    st_Incarnation st' = st_Incarnation st \<and> st_Version st' = st_Version st \<and>
    recorded sha w' org project stack st' v d \<and> clock w' = clock w"
proof -
  have names: "names_stack r org project stack" and ok: "ref_ok org project stack" using r(1) by (simp_all add: names_defs)
  have st: "status \<noteq> ''in-progress''" "u_Status u \<noteq> status" using r(5) work(2) by auto
  obtain w1 u' where complete: "run h (CompleteUpdate org project stack updateID status '''' []) w = (Inr (), w1)"
    and w1: "working w1 org project stack updateID st l u'" "u_Status u' = status" "u_Version u' = u_Version u"
      "u_Kind u' = u_Kind u" "clock w1 = clock w"
      "\<forall>k. k \<noteq> updateKey org project stack (st_Incarnation st) updateID \<longrightarrow> objs w1 k = objs w k"
    using run_complete_working [OF work(1) ok work(2) st(1) sm_wf_Nil] by blast
  obtain w2 st' where release: "run h (releaseUpdateLock org project stack updateID (l_Generation l)) w1 = (Inr (), w2)"
    and w2: "finished w2 org project stack updateID st' u'" "st_Incarnation st' = st_Incarnation st"
      "st_Version st' = st_Version st" "clock w2 = clock w" "recorded sha w2 org project stack st' v d"
    using run_release_working [OF w1(1) ok, of sha v d] recorded_frame [OF rec w1(6)] w1(5) by (metis (no_types, lifting))
  have "run h (completeUpdate s r) w = (WriteHeader 204, w2)"
    using r work(2,3) st complete release run_with_live_lock [OF names work(1) r(3)]
    by (auto simp: completeUpdate_def completeUpdate_finish_def release_then_def names_defs run_get_working [OF work(1)])
  with w1 w2 show ?thesis by (metis (no_types, lifting))
qed

lemma run_exportStack:
  assumes r: "names_stack r org project stack" "PathValue r ''version'' = '''' \<or> PathValue r ''version'' = Itoa (sint v)"
    and state: "finished w org project stack updateID st u" "recorded sha w org project stack st v d"
  shows "run h (exportStack s r) w = (writeJSON 200 d, w)"
proof -
  have doc: "has_doc w (stackKey org project stack) st" using state(1) by (simp add: finished_def)
  have "Atoi (Itoa (sint v)) = Some (sint v)" using sint_64_bounds [of v] by (intro Atoi_Itoa)
  then show ?thesis
    using r recorded_read [OF doc state(2)] by (auto simp: exportStack_def names_defs Let_def)
qed

end

section \<open>An update from beginning to end\<close>

text \<open>A request with the claims of an update token for its own path.\<close>

lemma scoped_request:
  assumes "names_update r org project stack kind updateID" "r' = r\<lparr>rq_UpdateClaims := Some (claims_of org project stack kind updateID l)\<rparr>"
  shows "names_update r' org project stack kind updateID" "requireUpdateScope s r' = None"
    "token_generation r' = l_Generation l" "decodeBody r' dec = decodeBody r dec"
  using assms
  by (simp_all add: names_defs PathValue_def requireUpdateScope_def scope_matches_def claims_of_def token_generation_def decodeBody_def)

context s3_ideal
begin

lemma created_and_started:
  assumes srv: "jwt_laws (sv_jwt s)" "can_sign (sv_issuer s)" "2 * second \<le> LeaseDuration s"
    and doc: "has_doc w (stackKey org project stack) st" "usesCanonicalLock st" "st_Lock st = None"
    and time: "0 < clock w" "time_marshals (clock w)" "time_marshals (clock w + LeaseDuration s)"
    and new: "updateID = hex (rand 16 w)" "objs w (updateKey org project stack (st_Incarnation st) updateID) = None"
    and kind: "validUpdateKind kind" "kind \<noteq> ''preview''"
    and create: "names_stack rc org project stack" "PathValue rc ''kind'' = kind"
    and start: "names_update rs org project stack kind updateID" "validateIdentity (identity rs) = None"
  obtains w1 w2 token st' l u where
    "run h (createUpdate s rc) w = (writeJSON 200 (updateID_json updateID), w1)"
    "run h (startUpdate s rs) w1 = (writeJSON 200 (start_json u token (unix (clock w + LeaseDuration s))), w2)"
    "run h (VerifyScoped (sv_jwt s) (sv_issuer s) token) w2 =
       (Inr (shown (identity rs), Some (claims_of org project stack kind updateID l)), w2)"
    "working w2 org project stack updateID st' l u" "u_Status u = ''in-progress''" "u_Kind u = kind"
    "u_Version u = st_Version st + 1" "st_Incarnation st' = st_Incarnation st" "st_Version st' = st_Version st + 1"
    "clock w2 = clock w" "\<forall>k. k \<noteq> stackKey org project stack \<longrightarrow>
      k \<noteq> updateKey org project stack (st_Incarnation st) updateID \<longrightarrow> objs w2 k = objs w k"
proof -
  have pos: "0 < LeaseDuration s" using srv(3) by simp
  have id: "updateID \<noteq> ''''" using new(1) rand_length [of 16 w] hex_length [of "rand 16 w"] by auto
  obtain l where free: "acquire_spec (clock w) st (hex (rand 16 w)) (Principal (identity rc)) (LeaseDuration s) = Inr l"
    using doc(3) by (simp add: acquire_spec_def)
  let ?u = "new_update (clock w) kind updateID (st_Version st + 1)"
  have u: "u_Status ?u = ''not-started''" "u_Kind ?u \<noteq> ''preview''" "u_Kind ?u = kind" "u_Version ?u = st_Version st + 1"
    using kind(2) by (simp_all add: new_update_def)
  obtain w1 st1 where created: "run h (createUpdate s rc) w = (writeJSON 200 (updateID_json updateID), w1)"
    and w1: "working w1 org project stack updateID st1 l ?u" "st_Incarnation st1 = st_Incarnation st"
      "st_Version st1 = st_Version st + 1" "clock w1 = clock w"
      "\<forall>k. k \<noteq> stackKey org project stack \<longrightarrow> k \<noteq> updateKey org project stack (st_Incarnation st) updateID \<longrightarrow> objs w1 k = objs w k"
    using run_createUpdate [OF create kind doc(1,2) free, folded new(1), OF new(2) time(2,3) pos] by metis
  obtain token w2 st2 l2 u2 where started:
    "run h (startUpdate s rs) w1 = (writeJSON 200 (start_json ?u token (unix (clock w + LeaseDuration s))), w2)"
    and w2: "working w2 org project stack updateID st2 l2 u2" "u_Status u2 = ''in-progress''" "u_Kind u2 = kind"
      "u_Version u2 = st_Version st + 1" "st_Incarnation st2 = st_Incarnation st" "st_Version st2 = st_Version st + 1"
      "clock w2 = clock w"
      "run h (VerifyScoped (sv_jwt s) (sv_issuer s) token) w2 =
        (Inr (shown (identity rs), Some (claims_of org project stack kind updateID l2)), w2)"
      "\<forall>k. k \<noteq> stackKey org project stack \<longrightarrow> k \<noteq> updateKey org project stack (st_Incarnation st) updateID \<longrightarrow> objs w2 k = objs w1 k"
    using run_startUpdate [OF start(1) kind(1) id w1(1) u(1,2) srv(1,2) start(2), unfolded w1(2-4) u(3,4), OF time(3) srv(3) time(1)]
    by blast
  have "start_json ?u token e = start_json u2 token e" for e using w2(4) u(4) by (simp add: start_json_def)
  note started = started [unfolded this]
  show thesis by (rule that [OF created started w2(8,1-7)]) (use w1(5) w2(9) in simp)
qed

lemma saved_and_completed:
  assumes work: "working w org project stack updateID st l u" "u_Status u = ''in-progress''" "u_Kind u \<noteq> ''preview''"
      "u_Version u = st_Version st" "updateID \<noteq> ''''"
    and time: "time_marshals (clock w + LeaseDuration s)" "0 < LeaseDuration s"
    and fresh: "objs w (checkpointObjectKey (sv_sha s) org project stack (st_Incarnation st) d) \<in> {None, Some (Doc d)}"
    and uc: "uc = claims_of org project stack kind updateID l"
    and save: "names_update rp org project stack kind updateID" "decodeBody rp decode_verbatim = Inr q"
      "vq_UntypedDeployment q = Some d"
    and complete: "names_update rk org project stack kind updateID" "decodeBody rk decode_status = Inr status"
      "status = ''succeeded'' \<or> status = ''failed''"
  obtains w1 w2 st' u' where
    "run h (patchCheckpointVerbatim s (rp\<lparr>rq_UpdateClaims := Some uc\<rparr>)) w = (WriteHeader 204, w1)"
    "run h (completeUpdate s (rk\<lparr>rq_UpdateClaims := Some uc\<rparr>)) w1 = (WriteHeader 204, w2)"
    "finished w2 org project stack updateID st' u'" "u_Status u' = status" "u_Kind u' = u_Kind u" "u_Version u' = u_Version u"
    "st_Incarnation st' = st_Incarnation st" "st_Version st' = st_Version st"
    "recorded (sv_sha s) w2 org project stack st' (st_Version st) d" "clock w2 = clock w"
proof -
  let ?rp = "rp\<lparr>rq_UpdateClaims := Some uc\<rparr>" and ?rk = "rk\<lparr>rq_UpdateClaims := Some uc\<rparr>"
  note rp = scoped_request [OF save(1), of ?rp l, folded uc, OF refl] and rk = scoped_request [OF complete(1), of ?rk l, folded uc, OF refl]
  have names: "names_stack ?rp org project stack" using rp(1) by (simp add: names_update_def)
  obtain w1 st1 l1 where saved: "run h (saveCheckpointForUpdate s ?rp org project stack updateID d) w = (WriteHeader 204, w1)"
    and w1: "working w1 org project stack updateID st1 l1 u" "recorded (sv_sha s) w1 org project stack st1 (st_Version st) d"
      "l_Generation l = 0 \<or> l_Generation l1 = l_Generation l" "st_Incarnation st1 = st_Incarnation st"
      "st_Version st1 = st_Version st" "clock w1 = clock w"
    using run_saveCheckpointForUpdate [OF names work(5) disjI2 [OF rp(3)] work(1-4) fresh time] by blast
  have patched: "run h (patchCheckpointVerbatim s ?rp) w = (WriteHeader 204, w1)"
    using saved rp(1) save(3) by (simp add: patchCheckpointVerbatim_def names_defs rp(2) rp(4) save(2))
  have gen: "token_generation ?rk = 0 \<or> token_generation ?rk = l_Generation l1" using rk(3) w1(3) by auto
  have body: "decodeBody ?rk decode_status = Inr status" by (simp add: rk(4) complete(2))
  obtain w2 st2 u2 where completed: "run h (completeUpdate s ?rk) w1 = (WriteHeader 204, w2)"
    and w2: "finished w2 org project stack updateID st2 u2" "u_Status u2 = status" "u_Version u2 = u_Version u"
      "u_Kind u2 = u_Kind u" "st_Incarnation st2 = st_Incarnation st" "st_Version st2 = st_Version st"
      "recorded (sv_sha s) w2 org project stack st2 (st_Version st) d" "clock w2 = clock w"
    using run_completeUpdate [OF rk(1,2) gen body complete(3) w1(1) work(2,3) w1(2)] unfolding w1(4-6) by blast
  with patched show thesis using that by blast
qed

end

context s3_ideal
begin

text \<open>What \<^verbatim>\<open>importStack\<close> does once its update is recorded.\<close>

lemma run_import_work:
  assumes work: "working w org project stack updateID st l u" and ok: "ref_ok org project stack" and id: "updateID \<noteq> []"
    and u: "u_Status u = ''not-started''" "u_Version u = st_Version st"
    and fresh: "objs w (checkpointObjectKey sha org project stack (st_Incarnation st) d) \<in> {None, Some (Doc d)}"
  obtains w1 w2 w3 w4 st' u' where "run h (StartUpdate org project stack updateID) w = (Inr (), w1)"
    "run h (SaveCheckpoint sha org project stack (st_Incarnation st) updateID (l_Generation l) (st_Version st) d) w1 = (Inr (), w2)"
    "run h (CompleteUpdate org project stack updateID ''succeeded'' ''import'' []) w2 = (Inr (), w3)"
    "run h (releaseUpdateLock org project stack updateID (l_Generation l)) w3 = (Inr (), w4)"
    "finished w4 org project stack updateID st' u'" "u_Status u' = ''succeeded''" "u_Kind u' = u_Kind u"
    "u_Version u' = u_Version u" "st_Version st' = st_Version st" "st_Incarnation st' = st_Incarnation st"
    "recorded sha w4 org project stack st' (st_Version st) d" "clock w4 = clock w"
proof -
  obtain w1 u1 where run1: "run h (StartUpdate org project stack updateID) w = (Inr (), w1)"
    and w1: "working w1 org project stack updateID st l u1" "u_Status u1 = ''in-progress''" "u_Kind u1 = u_Kind u"
      "u_Version u1 = u_Version u" "clock w1 = clock w"
      "\<forall>k. k \<noteq> updateKey org project stack (st_Incarnation st) updateID \<longrightarrow> objs w1 k = objs w k"
    using run_start_working [OF work ok u(1)] by blast
  have "objs w1 (checkpointObjectKey sha org project stack (st_Incarnation st) d) \<in> {None, Some (Doc d)}"
    using fresh w1(6) update_keys_differ(3) [of org project stack _ updateID, symmetric] by simp
  from run_save_working [OF w1(1) ok id this] obtain w2 st2 where
    run2: "run h (SaveCheckpoint sha org project stack (st_Incarnation st) updateID (l_Generation l) (st_Version st) d) w1 = (Inr (), w2)"
    and w2: "working w2 org project stack updateID st2 l u1" "recorded sha w2 org project stack st2 (st_Version st) d"
      "st_Incarnation st2 = st_Incarnation st" "st_Version st2 = st_Version st" "clock w2 = clock w"
    unfolding w1(5) by blast
  obtain w3 u3 where run3: "run h (CompleteUpdate org project stack updateID ''succeeded'' ''import'' []) w2 = (Inr (), w3)"
    and w3: "working w3 org project stack updateID st2 l u3" "u_Status u3 = ''succeeded''" "u_Version u3 = u_Version u"
      "u_Kind u3 = u_Kind u" "clock w3 = clock w"
      "\<forall>k. k \<noteq> updateKey org project stack (st_Incarnation st2) updateID \<longrightarrow> objs w3 k = objs w2 k"
    using run_complete_working [OF w2(1) ok w1(2), of "''succeeded''" "[]" "''import''"] unfolding w1(3,4) w2(5) by auto
  obtain w4 st4 where run4: "run h (releaseUpdateLock org project stack updateID (l_Generation l)) w3 = (Inr (), w4)"
    and w4: "finished w4 org project stack updateID st4 u3" "st_Incarnation st4 = st_Incarnation st"
      "st_Version st4 = st_Version st" "clock w4 = clock w" "recorded sha w4 org project stack st4 (st_Version st) d"
    using run_release_working [OF w3(1) ok, of sha "st_Version st" d] recorded_frame [OF w2(2) w3(6)]
    unfolding w2(3,4) w3(5) by blast
  show thesis by (rule that [OF run1 run2 run3 run4 w4(1) w3(2,4,3) w4(3,2,5,4)])
qed

lemma run_importStack:
  assumes r: "names_stack r org project stack" "decodeBody r (\<lambda>j. Some j) = Inr d"
    and doc: "has_doc w (stackKey org project stack) st" "usesCanonicalLock st"
    and free: "acquire_spec (clock w) st updateID (Principal (identity r)) (LeaseDuration s) = Inr l"
    and new: "updateID = hex (rand 16 w)" "objs w (updateKey org project stack (st_Incarnation st) updateID) = None"
      "objs w (checkpointObjectKey (sv_sha s) org project stack (st_Incarnation st) d) \<in> {None, Some (Doc d)}"
    and time: "time_marshals (clock w)" "time_marshals (clock w + LeaseDuration s)" "0 < LeaseDuration s"
  obtains w' st' u where "run h (importStack s r) w = (writeJSON 200 (JObj [(''updateId'', JStr updateID)]), w')"
    "finished w' org project stack updateID st' u" "u_Status u = ''succeeded''" "u_Kind u = ''import''"
    "u_Version u = st_Version st + 1" "st_Version st' = st_Version st + 1" "st_Incarnation st' = st_Incarnation st"
    "recorded (sv_sha s) w' org project stack st' (st_Version st + 1) d" "clock w' = clock w"
proof -
  let ?u = "new_update (clock w) ''import'' updateID (st_Version st + 1)"
  have ok: "ref_ok org project stack" using r by (simp add: names_defs)
  have id: "updateID \<noteq> ''''" using new(1) rand_length [of 16 w] hex_length [of "rand 16 w"] by auto
  have u: "u_Status ?u = ''not-started''" "u_Kind ?u = ''import''" "u_Version ?u = st_Version st + 1"
    by (simp_all add: new_update_def)
  obtain w1 w2 st2 where run1: "run h (AcquireLock org project stack (st_Incarnation st) updateID (Principal (identity r)) (LeaseDuration s))
      (reseed 16 w) = (Inr l, w1)"
    "run h (CreateUpdate org project stack ''import'' updateID) w1 = (Inr (?u\<lparr>u_Incarnation := st_Incarnation st\<rparr>), w2)"
    and w2: "working w2 org project stack updateID st2 l ?u" "st_Incarnation st2 = st_Incarnation st"
      "st_Version st2 = st_Version st + 1" "clock w2 = clock w"
      "\<forall>k. k \<noteq> stackKey org project stack \<longrightarrow> k \<noteq> updateKey org project stack (st_Incarnation st) updateID \<longrightarrow> objs w2 k = objs w k"
    using run_acquire_create [OF ok, of "''import''" "reseed 16 w" st, simplified, OF doc free new(2) time] by blast
  have "objs w2 (checkpointObjectKey (sv_sha s) org project stack (st_Incarnation st2) d) \<in> {None, Some (Doc d)}"
    using new(3) w2(2,5) stackKey_not_object(4) [OF ok ok, symmetric] update_keys_differ(3) [of org project stack _ updateID, symmetric]
    by simp
  from run_import_work [OF w2(1) ok id u(1) _ this] obtain w3 w4 w5 w6 st6 u6 where run:
    "run h (StartUpdate org project stack updateID) w2 = (Inr (), w3)"
    "run h (SaveCheckpoint (sv_sha s) org project stack (st_Incarnation st) updateID (l_Generation l) (st_Version st + 1) d) w3 = (Inr (), w4)"
    "run h (CompleteUpdate org project stack updateID ''succeeded'' ''import'' []) w4 = (Inr (), w5)"
    "run h (releaseUpdateLock org project stack updateID (l_Generation l)) w5 = (Inr (), w6)"
    and w6: "finished w6 org project stack updateID st6 u6" "u_Status u6 = ''succeeded''" "u_Kind u6 = ''import''"
      "u_Version u6 = st_Version st + 1" "st_Version st6 = st_Version st + 1" "st_Incarnation st6 = st_Incarnation st"
      "recorded (sv_sha s) w6 org project stack st6 (st_Version st + 1) d" "clock w6 = clock w"
    unfolding w2(2-4) u(2,3) by blast
  have "run h (importStack s r) w = (writeJSON 200 (JObj [(''updateId'', JStr updateID)]), w6)"
    using r run1 run u(3)
    by (simp add: importStack_def importStack_locked_def names_defs run_GetStack [OF doc(1)] new(1) releaseLockOnExit_def)
  from that [OF this w6] show thesis .
qed

end

text \<open>What can be read after an update is over.\<close>

definition readable :: "'w handler \<Rightarrow> 'w \<Rightarrow> string \<Rightarrow> string \<Rightarrow> string \<Rightarrow> string \<Rightarrow> string \<Rightarrow> int64 \<Rightarrow> string \<Rightarrow> bool" where
  "readable h w org project stack updateID kind v status \<longleftrightarrow> run h (GetLock org project stack) w = (Inl ErrNoLock, w) \<and>
     (\<exists>st e. run h (GetStack org project stack) w = (Inr (st\<lparr>st_etag := e\<rparr>), w) \<and> st_Version st = v) \<and>
     (\<exists>u. run h (GetUpdate org project stack updateID) w = (Inr u, w) \<and> u_Status u = status \<and> u_Kind u = kind \<and> u_Version u = v)"

context s3_ideal
begin

lemma finished_readable:
  assumes "finished w org project stack updateID st u" "st_Version st = v" "u_Status u = status" "u_Kind u = kind" "u_Version u = v"
  shows "readable h w org project stack updateID kind v status"
proof -
  have doc: "has_doc w (stackKey org project stack) st" "usesCanonicalLock st" "st_Lock st = None"
    and upd: "has_update w (updateKey org project stack (st_Incarnation st) updateID) u"
    using assms(1) by (simp_all add: finished_def)
  show ?thesis
    using assms(2-5) doc(3) unfolding readable_def run_GetLock [OF doc(1,2)] run_GetStack [OF doc(1)] run_GetUpdate [OF doc(1) upd]
    by fastforce
qed

end

text \<open>
  C8. The life of an update. On a service without faults and with a stack that nobody works on,
  \<^verbatim>\<open>createUpdate\<close> answers with a fresh update ID and takes the lock, \<^verbatim>\<open>startUpdate\<close> with a token that
  \<^verbatim>\<open>VerifyScoped\<close> accepts for this update, the requests that carry its claims save a
  checkpoint and complete the update, and afterwards the stack is unlocked, has the next version,
  the update has its final status, and \<^verbatim>\<open>exportStack\<close> returns the very deployment, both as the latest one
  and by its version.
\<close>

theorem update_lifecycle:
  assumes service: "s3_ideal h objs store etag pages clock rand reseed nf pf"
    and srv: "jwt_laws (sv_jwt s)" "can_sign (sv_issuer s)" "2 * second \<le> LeaseDuration s"
    and doc: "objs w (stackKey org project stack) = Some (Doc (stack_json st))" "storable st" "usesCanonicalLock st" "st_Lock st = None"
    and time: "0 < clock w" "time_marshals (clock w)" "time_marshals (clock w + LeaseDuration s)"
    and new: "updateID = hex (rand 16 w)" "objs w (updateKey org project stack (st_Incarnation st) updateID) = None"
      "objs w (checkpointObjectKey (sv_sha s) org project stack (st_Incarnation st) d) \<in> {None, Some (Doc d)}"
    and kind: "validUpdateKind kind" "kind \<noteq> ''preview''"
    and create: "names_stack rc org project stack" "PathValue rc ''kind'' = kind"
    and start: "names_update rs org project stack kind updateID" "validateIdentity (identity rs) = None"
    and save: "names_update rp org project stack kind updateID" "decodeBody rp decode_verbatim = Inr q"
      "vq_UntypedDeployment q = Some d"
    and complete: "names_update rk org project stack kind updateID" "decodeBody rk decode_status = Inr status"
      "status = ''succeeded'' \<or> status = ''failed''"
    and export: "names_stack re org project stack" "PathValue re ''version'' = '''' \<or> PathValue re ''version'' = Itoa (sint (st_Version st + 1))"
  shows "\<exists>w1 w2 w3 w4 token uc u.
    run h (createUpdate s rc) w = (writeJSON 200 (updateID_json updateID), w1) \<and>
    run h (startUpdate s rs) w1 = (writeJSON 200 (start_json u token (unix (clock w + LeaseDuration s))), w2) \<and>
    run h (VerifyScoped (sv_jwt s) (sv_issuer s) token) w2 = (Inr (shown (identity rs), Some uc), w2) \<and>
    uc_UpdateID uc = updateID \<and>
    run h (patchCheckpointVerbatim s (rp\<lparr>rq_UpdateClaims := Some uc\<rparr>)) w2 = (WriteHeader 204, w3) \<and>
    run h (completeUpdate s (rk\<lparr>rq_UpdateClaims := Some uc\<rparr>)) w3 = (WriteHeader 204, w4) \<and>
    readable h w4 org project stack updateID kind (st_Version st + 1) status \<and>
    run h (exportStack s re) w4 = (writeJSON 200 d, w4)"
proof -
  note I = service and ok = create(1) [unfolded names_defs, THEN conjunct2, THEN conjunct2, THEN conjunct2]
  have has: "s3_ideal.has_doc objs w (stackKey org project stack) st" using doc by (simp add: s3_ideal.has_doc_def [OF I])
  obtain w1 w2 token st2 l u where started:
    "run h (createUpdate s rc) w = (writeJSON 200 (updateID_json updateID), w1)"
    "run h (startUpdate s rs) w1 = (writeJSON 200 (start_json u token (unix (clock w + LeaseDuration s))), w2)"
    "run h (VerifyScoped (sv_jwt s) (sv_issuer s) token) w2 =
       (Inr (shown (identity rs), Some (claims_of org project stack kind updateID l)), w2)"
    and w2: "s3_ideal.working objs clock w2 org project stack updateID st2 l u" "u_Status u = ''in-progress''" "u_Kind u = kind"
    "u_Version u = st_Version st + 1" "st_Incarnation st2 = st_Incarnation st" "st_Version st2 = st_Version st + 1"
    "clock w2 = clock w" "\<forall>k. k \<noteq> stackKey org project stack \<longrightarrow>
      k \<noteq> updateKey org project stack (st_Incarnation st) updateID \<longrightarrow> objs w2 k = objs w k"
    by (rule s3_ideal.created_and_started [OF I srv has doc(3,4) time new(1,2) kind create start])
  have id: "updateID \<noteq> ''''" using new(1) s3_ideal.rand_length [OF I, of 16 w] hex_length [of "rand 16 w"] by auto
  have fresh: "objs w2 (checkpointObjectKey (sv_sha s) org project stack (st_Incarnation st2) d) \<in> {None, Some (Doc d)}"
    using new(3) w2(5,8) stackKey_not_object(4) [OF ok ok, symmetric] update_keys_differ(3) [of org project stack _ updateID, symmetric]
    by simp
  have now: "u_Kind u \<noteq> ''preview''" "u_Version u = st_Version st2" "time_marshals (clock w2 + LeaseDuration s)" "0 < LeaseDuration s"
    using kind(2) w2 time(3) srv(3) by simp_all
  let ?uc = "claims_of org project stack kind updateID l"
  obtain w3 w4 st4 u4 where fin:
    "run h (patchCheckpointVerbatim s (rp\<lparr>rq_UpdateClaims := Some ?uc\<rparr>)) w2 = (WriteHeader 204, w3)"
    "run h (completeUpdate s (rk\<lparr>rq_UpdateClaims := Some ?uc\<rparr>)) w3 = (WriteHeader 204, w4)"
    and w4: "s3_ideal.finished objs w4 org project stack updateID st4 u4" "u_Status u4 = status" "u_Kind u4 = u_Kind u" "u_Version u4 = u_Version u"
    "st_Incarnation st4 = st_Incarnation st2" "st_Version st4 = st_Version st2"
    "s3_ideal.recorded objs (sv_sha s) w4 org project stack st4 (st_Version st2) d"
    by (rule s3_ideal.saved_and_completed [OF I w2(1,2) now(1,2) id now(3,4) fresh refl save complete])
  have "readable h w4 org project stack updateID kind (st_Version st + 1) status"
    by (rule s3_ideal.finished_readable [OF I w4(1)]) (simp_all add: w4 w2)
  moreover have "run h (exportStack s re) w4 = (writeJSON 200 d, w4)"
    using s3_ideal.run_exportStack [OF I export w4(1)] w4(7) w2(6) by simp
  moreover have "uc_UpdateID ?uc = updateID" by (simp add: claims_of_def)
  ultimately show ?thesis using started fin by blast
qed

text \<open>A request of the demo identity for the demo stack, with a JSON body.\<close>

definition demo_request :: "string \<Rightarrow> json \<Rightarrow> request" where
  "demo_request updateID body = plain_request\<lparr>
     rq_PathValues := [(''org'', ''o''), (''project'', ''p''), (''stack'', ''s''), (''kind'', ''update''), (''updateID'', updateID)],
     rq_Identity := Some demo_identity, rq_Body := (rq_Body plain_request)\<lparr>rb_value := Some body, rb_eof := True\<rparr>\<rparr>"

lemma demo_names:
  "names_stack (demo_request u body) ''o'' ''p'' ''s''" "names_update (demo_request u body) ''o'' ''p'' ''s'' ''update'' u"
  "PathValue (demo_request u body) ''kind'' = ''update''" "PathValue (demo_request u body) ''version'' = ''''"
  "identity (demo_request u body) = demo_identity"
  by (simp_all add: names_defs demo_request_def PathValue_def lookup_or_empty_def demo_ref identity_def)

lemma demo_body: "decodeBody (demo_request u body) dec = (case dec body of None \<Rightarrow> Inl InvalidBody | Some x \<Rightarrow> Inr x)"
  by (simp add: decodeBody_def demo_request_def plain_request_def split: option.split)

lemma demo_lease: "LeaseDuration demo_server = 5 * minute" "jwt_laws (sv_jwt demo_server)" "can_sign (sv_issuer demo_server)"
  "sv_sha demo_server = (\<lambda>j. ''0'')"
  by (simp_all add: demo_server_def NewServer_def demo_config_def default_config_def unary_jwt_laws demo_issuer_signs)

definition demo_id :: string where
  "demo_id = hex (ref_rand 16 (demo_bucket None))"

lemma demo_new:
  "bk_clock (demo_bucket lk) = 50 * second"
  "st_Lock (demo_stack None) = None" "st_Incarnation (demo_stack None) = ''i''" "st_Version (demo_stack None) = 3"
  "ref_objs (demo_bucket None) (updateKey ''o'' ''p'' ''s'' ''i'' u) = None"
  "ref_objs (demo_bucket None) (checkpointObjectKey (\<lambda>j. ''0'') ''o'' ''p'' ''s'' ''i'' d) = None"
  by (simp_all add: demo_bucket_def ref_objs_def demo_key_def demo_stack_def stackKey_def updateKey_def checkpointObjectKey_def stackDataPrefix_def)

theorem update_lifecycle_witness:
  "\<exists>w1 w2 w3 w4 u token uc.
    run ref_service (createUpdate demo_server (demo_request '''' JNull)) (demo_bucket None) = (writeJSON 200 (updateID_json demo_id), w1) \<and>
    run ref_service (startUpdate demo_server (demo_request demo_id JNull)) w1 = (writeJSON 200 (start_json u token 350), w2) \<and>
    run ref_service (patchCheckpointVerbatim demo_server
      ((demo_request demo_id (JObj [(''untypedDeployment'', JInt 7)]))\<lparr>rq_UpdateClaims := Some uc\<rparr>)) w2 = (WriteHeader 204, w3) \<and>
    run ref_service (completeUpdate demo_server
      ((demo_request demo_id (JObj [(''status'', JStr ''succeeded'')]))\<lparr>rq_UpdateClaims := Some uc\<rparr>)) w3 = (WriteHeader 204, w4) \<and>
    run ref_service (exportStack demo_server (demo_request '''' JNull)) w4 = (writeJSON 200 (JInt 7), w4)"
proof -
  let ?save = "demo_request demo_id (JObj [(''untypedDeployment'', JInt 7)])"
    and ?complete = "demo_request demo_id (JObj [(''status'', JStr ''succeeded'')])"
  let ?q = "\<lparr>vq_Version = 0, vq_UntypedDeployment = Some (JInt 7), vq_SequenceNumber = 0\<rparr>"
  have bodies: "decodeBody ?save decode_verbatim = Inr ?q" "vq_UntypedDeployment ?q = Some (JInt 7)"
    "decodeBody ?complete decode_status = Inr ''succeeded''"
    unfolding demo_body by (simp_all add: decode_verbatim_def verbatim_field_def dec_raw_def decode_status_def string_field_def same_name_def)
  have lease: "2 * second \<le> LeaseDuration demo_server" "0 < bk_clock (demo_bucket None)" "time_marshals (bk_clock (demo_bucket None))"
    "time_marshals (bk_clock (demo_bucket None) + LeaseDuration demo_server)"
    by (simp_all add: demo_lease demo_new time_marshals_def)
  have fresh: "ref_objs (demo_bucket None) (updateKey ''o'' ''p'' ''s'' (st_Incarnation (demo_stack None)) demo_id) = None"
    "ref_objs (demo_bucket None) (checkpointObjectKey (sv_sha demo_server) ''o'' ''p'' ''s'' (st_Incarnation (demo_stack None)) (JInt 7)) \<in>
       {None, Some (Doc (JInt 7))}"
    by (simp_all add: demo_new demo_lease)
  have kind: "validUpdateKind ''update''" "''update'' \<noteq> ''preview''" by (simp_all add: validUpdateKind_def)
  have ident: "validateIdentity (identity (demo_request demo_id JNull)) = None" by (simp add: demo_names demo_issuer_signs)
  have "unix (bk_clock (demo_bucket None) + LeaseDuration demo_server) = 350" by (simp add: demo_new demo_lease unix_def)
  with update_lifecycle [where rc = "demo_request '''' JNull" and re = "demo_request '''' JNull", OF ref.s3_ideal_axioms demo_lease(2,3) lease(1) demo_object demo_storables(1) demo_canonical demo_new(2) lease(2-4) demo_id_def fresh kind
      demo_names(1,3) demo_names(2) ident demo_names(2) bodies(1,2) demo_names(2) bodies(3) disjI1 [OF refl] demo_names(1)
      disjI1 [OF demo_names(4)]]
  show ?thesis by metis
qed

context s3_ideal
begin

lemma run_importStack_held:
  assumes "names_stack r org project stack" "decodeBody r (\<lambda>j. Some j) = Inr d"
    and doc: "has_doc w (stackKey org project stack) st" "usesCanonicalLock st" and "time_marshals (clock w + LeaseDuration s)"
    and "st_Lock st = Some l" "l_UpdateID l \<noteq> hex (rand 16 w)" "\<not> Expired l (clock w)"
  shows "run h (importStack s r) w = (writeError 409 (''stack is locked by update '' @ l_UpdateID l), reseed 16 w)"
proof -
  have "acquire_spec (clock w) st (hex (rand 16 w)) (Principal (identity r)) (LeaseDuration s) = Inl (LockHeldError l)"
    using assms(6-8) by (simp add: acquire_spec_def)
  then show ?thesis
    using assms(1,2,5) doc run_AcquireLock [of "reseed 16 w" org project stack st]
    by (simp add: importStack_def names_defs run_GetStack [OF doc(1)] store_fail_def writeStoreError_def storeError_def)
qed

end

text \<open>
  C12. Import and export. \<^verbatim>\<open>importStack\<close> on a stack whose lock is free (or expired and not a deletion
  fence) answers 200, leaves a succeeded update of the next version and no lock, and then
  \<^verbatim>\<open>exportStack\<close> returns the imported deployment, as the latest one and by its version. While
  another update holds the live lock the import is refused with status 409 and changes nothing.
\<close>

theorem import_export_roundtrip:
  assumes service: "s3_ideal h objs store etag pages clock rand reseed nf pf"
    and doc: "objs w (stackKey org project stack) = Some (Doc (stack_json st))" "storable st" "usesCanonicalLock st"
    and time: "time_marshals (clock w)" "time_marshals (clock w + LeaseDuration s)" "0 < LeaseDuration s"
    and new: "updateID = hex (rand 16 w)" "objs w (updateKey org project stack (st_Incarnation st) updateID) = None"
      "objs w (checkpointObjectKey (sv_sha s) org project stack (st_Incarnation st) d) \<in> {None, Some (Doc d)}"
    and import: "names_stack r org project stack" "decodeBody r (\<lambda>j. Some j) = Inr d"
    and export: "names_stack re org project stack" "PathValue re ''version'' = '''' \<or> PathValue re ''version'' = Itoa (sint (st_Version st + 1))"
    and run: "run h (importStack s r) w = (resp, w')"
  shows "(\<forall>l. st_Lock st = Some l \<longrightarrow> l_UpdateID l \<noteq> updateID \<longrightarrow> \<not> Expired l (clock w) \<longrightarrow>
        resp = writeError 409 (''stack is locked by update '' @ l_UpdateID l) \<and> objs w' = objs w) \<and>
     ((case st_Lock st of None \<Rightarrow> True | Some l \<Rightarrow> Expired l (clock w) \<and> \<not> HasPrefix (l_UpdateID l) ''delete-'') \<longrightarrow>
       resp = writeJSON 200 (JObj [(''updateId'', JStr updateID)]) \<and>
       readable h w' org project stack updateID ''import'' (st_Version st + 1) ''succeeded'' \<and>
       run h (exportStack s re) w' = (writeJSON 200 d, w'))"
proof -
  note I = service
  have has: "s3_ideal.has_doc objs w (stackKey org project stack) st" using doc by (simp add: s3_ideal.has_doc_def [OF I])
  have held: "resp = writeError 409 (''stack is locked by update '' @ l_UpdateID l) \<and> objs w' = objs w"
    if "st_Lock st = Some l" "l_UpdateID l \<noteq> updateID" "\<not> Expired l (clock w)" for l
    using s3_ideal.run_importStack_held [OF I import has doc(3) time(2) that(1) _ that(3)] that(2) new(1) run
      s3_ideal.objs_reseed [OF I, of 16 w] by simp
  have free: "resp = writeJSON 200 (JObj [(''updateId'', JStr updateID)]) \<and>
       readable h w' org project stack updateID ''import'' (st_Version st + 1) ''succeeded'' \<and>
       run h (exportStack s re) w' = (writeJSON 200 d, w')"
    if "case st_Lock st of None \<Rightarrow> True | Some l \<Rightarrow> Expired l (clock w) \<and> \<not> HasPrefix (l_UpdateID l) ''delete-''"
  proof -
    from that obtain l where "acquire_spec (clock w) st updateID (Principal (identity r)) (LeaseDuration s) = Inr l"
      by (auto simp: acquire_spec_def deletionFence_def split: option.splits)
    from s3_ideal.run_importStack [OF I import has doc(3) this new time] obtain w1 st' u where
      imported: "run h (importStack s r) w = (writeJSON 200 (JObj [(''updateId'', JStr updateID)]), w1)"
      and w1: "s3_ideal.finished objs w1 org project stack updateID st' u" "u_Status u = ''succeeded''" "u_Kind u = ''import''"
        "u_Version u = st_Version st + 1" "st_Version st' = st_Version st + 1"
        "s3_ideal.recorded objs (sv_sha s) w1 org project stack st' (st_Version st + 1) d" by blast
    have "readable h w1 org project stack updateID ''import'' (st_Version st + 1) ''succeeded''"
      by (rule s3_ideal.finished_readable [OF I w1(1,5,2,3,4)])
    with s3_ideal.run_exportStack [OF I export w1(1,6)] imported run show ?thesis by simp
  qed
  from held free show ?thesis by blast
qed

theorem import_export_roundtrip_witness:
  "\<exists>w'. run ref_service (importStack demo_server (demo_request '''' (JInt 7))) (demo_bucket None) =
      (writeJSON 200 (JObj [(''updateId'', JStr demo_id)]), w') \<and>
    run ref_service (exportStack demo_server (demo_request '''' JNull)) w' = (writeJSON 200 (JInt 7), w')"
proof -
  obtain resp w' where run: "run ref_service (importStack demo_server (demo_request '''' (JInt 7))) (demo_bucket None) = (resp, w')"
    by (cases "run ref_service (importStack demo_server (demo_request '''' (JInt 7))) (demo_bucket None)")
  have time: "time_marshals (bk_clock (demo_bucket None))" "time_marshals (bk_clock (demo_bucket None) + LeaseDuration demo_server)"
    "0 < LeaseDuration demo_server"
    by (simp_all add: demo_lease demo_new time_marshals_def)
  have fresh: "ref_objs (demo_bucket None) (updateKey ''o'' ''p'' ''s'' (st_Incarnation (demo_stack None)) demo_id) = None"
    "ref_objs (demo_bucket None) (checkpointObjectKey (sv_sha demo_server) ''o'' ''p'' ''s'' (st_Incarnation (demo_stack None)) (JInt 7)) \<in>
       {None, Some (Doc (JInt 7))}"
    by (simp_all add: demo_new demo_lease)
  have body: "decodeBody (demo_request '''' (JInt 7)) (\<lambda>j. Some j) = Inr (JInt 7)" by (simp add: demo_body)
  show ?thesis
    using import_export_roundtrip [where re = "demo_request '''' JNull", OF ref.s3_ideal_axioms demo_object demo_storables(1) demo_canonical
      time demo_id_def fresh demo_names(1) body demo_names(1) disjI1 [OF demo_names(4)] run] run
    by (simp add: demo_new(2))
qed

section \<open>Deleting a stack\<close>

text \<open>
  What permits a deletion that is not forced: a checkpoint without resources, or the answer that there is
  none. The status of the refusal else.
\<close>

definition shows_empty :: "error + json \<Rightarrow> bool" where
  "shows_empty c = (case c of
      Inr d \<Rightarrow> checkpointHasResources d = Some False
    | Inl err \<Rightarrow> errors_Is err ErrCheckpointNotFound)"

definition refusal_status :: "error + json \<Rightarrow> nat" where
  "refusal_status c = (if c \<in> Inr ` {d. checkpointHasResources d = Some True} then 400 else 500)"

lemma run_deleteStack_check:
  assumes r: "names_stack r org project stack" and read: "run g (GetCheckpoint org project stack) v = (c, v')"
    and force: "Query_Get r ''force'' \<noteq> ''true''"
  shows "\<exists>x. run g (deleteStack_check r) v = (x, v') \<and>
    (if shows_empty c then x = None else \<exists>resp. x = Some resp \<and> rs_Status resp = refusal_status c)"
proof (cases c)
  case (Inl err)
  with assms show ?thesis
    by (auto simp: deleteStack_check_def names_defs shows_empty_def refusal_status_def internalError_def writeError_def writeJSON_def)
next
  case (Inr d)
  with assms show ?thesis
    by (cases "checkpointHasResources d")
      (auto simp: deleteStack_check_def names_defs shows_empty_def refusal_status_def internalError_def writeError_def writeJSON_def)
qed

text \<open>The deletion fails closed, whatever the service answers.\<close>

lemma deleteStack_fails_closed:
  assumes r: "names_stack r org project stack"
    and runs: "run g (GetStack org project stack) v = (Inr st, v1)" "run g NewUpdateID v1 = (i, v2)"
      "run g (deleteStack_lock s r st (''delete-'' @ i)) v2 = (Inr (u, l), v3)"
      "run g (GetCheckpoint org project stack) v3 = (c, v4)"
    and refused: "Query_Get r ''force'' \<noteq> ''true''" "\<not> shows_empty c"
  shows "\<exists>resp. run g (deleteStack s r) v =
     (resp, snd (run g (releaseLockOnExit org project stack u (l_Generation l)) v4)) \<and> rs_Status resp = refusal_status c"
proof -
  from run_deleteStack_check [OF r runs(4) refused(1)] refused(2) obtain resp where
    "run g (deleteStack_check r) v3 = (Some resp, v4)" "rs_Status resp = refusal_status c" by auto
  with r runs(1-3) show ?thesis by (simp add: deleteStack_def attempt_def names_defs split: prod.split)
qed

context s3_ideal
begin

lemma run_deleteStack_lock:
  assumes r: "names_stack r org project stack" and doc: "has_doc w (stackKey org project stack) st" "usesCanonicalLock st"
    and free: "acquire_spec (clock w) st u (Principal (identity r)) (LeaseDuration s) = Inr l"
    and time: "time_marshals (clock w + LeaseDuration s)" "0 < LeaseDuration s"
  obtains st' w' where "run h (deleteStack_lock s r (st\<lparr>st_etag := e\<rparr>) u) w = (Inr (u, l), w')"
    "w' = put_doc (stackKey org project stack) st' w" "st' = with_lock st (l_Generation l) (Some l)" "storable st'"
    "live_gen {clock w} (st_Lock st') u (l_Generation l)"
proof -
  have store: "storable st" using doc(1) by (simp add: has_doc_def)
  note l = acquired_lock [OF free]
  have "run h (deleteStack_lock s r (st\<lparr>st_etag := e\<rparr>) u) w =
      (Inr (u, l), put_doc (stackKey org project stack) (with_lock st (l_Generation l) (Some l)) w)"
    using r free run_AcquireLock [OF doc time(1)] by (simp add: deleteStack_lock_def names_defs Let_def)
  moreover have "storable (with_lock st (l_Generation l) (Some l))"
    using store acquired_etag [OF free] storable_lock [OF store] l time(1) by simp
  moreover have "live_gen {clock w} (Some l) u (l_Generation l)" using l time(2) by (simp add: Expired_def)
  ultimately show thesis by (intro that [OF _ refl refl]) simp_all
qed

end

text \<open>
  The checkpoint that belongs to a stack document, and what reading it gives.
\<close>

definition checkpoint_key :: "string \<Rightarrow> string \<Rightarrow> string \<Rightarrow> stack \<Rightarrow> string" where
  "checkpoint_key org project stack st = (if st_LatestCheckpointKey st = ''''
     then latestCheckpointKey org project stack (st_Incarnation st) else st_LatestCheckpointKey st)"

lemma checkpoint_key_lock: "checkpoint_key org project stack (with_lock st g l) = checkpoint_key org project stack st"
  by (simp add: checkpoint_key_def with_lock_def)

definition checkpoint_read :: "string \<Rightarrow> body option \<Rightarrow> error + json" where
  "checkpoint_read key b = (case b of
      None \<Rightarrow> Inl ErrCheckpointNotFound
    | Some Blob \<Rightarrow> Inl (Wrap (''decode '' @ key @ '': '') json_error)
    | Some (Doc d) \<Rightarrow> Inr d)"

context s3_ideal
begin

lemma run_GetCheckpoint_read:
  "has_doc w (stackKey org project stack) st \<Longrightarrow> run h (GetCheckpoint org project stack) w =
     (checkpoint_read (checkpoint_key org project stack st) (objs w (checkpoint_key org project stack st)), w)"
  by (auto simp: GetCheckpoint_def readCheckpoint_def run_GetStack checkpoint_key_def checkpoint_read_def isNotFound_def
      split: option.split body.split)

lemma run_deleteStack:
  assumes r: "names_stack r org project stack" and doc: "has_doc w (stackKey org project stack) st" "usesCanonicalLock st"
    and ref: "st_Org st = org" "st_Project st = project" "st_Name st = stack"
    and free: "case st_Lock st of None \<Rightarrow> True | Some l \<Rightarrow> Expired l (clock w)"
    and key: "checkpoint_key org project stack st = key" "key \<noteq> stackKey org project stack"
    and time: "time_marshals (clock w + LeaseDuration s)" "0 < LeaseDuration s"
    and run: "run h (deleteStack s r) w = (resp, w')"
  shows "if Query_Get r ''force'' = ''true'' \<or> shows_empty (checkpoint_read key (objs w key))
    then resp = WriteHeader 204 \<and> objs w' =
      (\<lambda>k. if k = stackKey org project stack \<or> belongs org project stack (st_Incarnation st) k then None else objs w k)
    else rs_Status resp = refusal_status (checkpoint_read key (objs w key)) \<and>
      (\<exists>g. objs w' = (objs w)(stackKey org project stack \<mapsto> Doc (stack_json (with_lock st g None))))"
proof -
  let ?k = "stackKey org project stack" and ?u = "''delete-'' @ hex (rand 16 w)" and ?c = "checkpoint_read key (objs w key)"
  have ok: "ref_ok org project stack" using r by (simp add: names_defs)
  obtain l where free': "acquire_spec (clock (reseed 16 w)) st ?u (Principal (identity r)) (LeaseDuration s) = Inr l"
    using free by (auto simp: acquire_spec_def HasPrefix_def split: option.splits)
  have doc0: "has_doc (reseed 16 w) ?k st" and time0: "time_marshals (clock (reseed 16 w) + LeaseDuration s)" using doc time by simp_all
  from run_deleteStack_lock [OF r doc0 doc(2) free' time0 time(2)]
  obtain st1 w1 where lock: "run h (deleteStack_lock s r (st\<lparr>st_etag := tag st\<rparr>) ?u) (reseed 16 w) = (Inr (?u, l), w1)"
    and w1: "w1 = put_doc ?k st1 (reseed 16 w)" "st1 = with_lock st (l_Generation l) (Some l)" "storable st1"
      "live_gen {clock w} (st_Lock st1) ?u (l_Generation l)" by (metis clock_reseed)
  have doc1: "has_doc w1 ?k st1" using w1 by simp
  have key1: "checkpoint_key org project stack st1 = key" using key(1) w1(2) by (simp add: checkpoint_key_lock)
  have obj1: "objs w1 key = objs w key" using key(2) w1(1) by simp
  have read: "run h (GetCheckpoint org project stack) w1 = (?c, w1)" using run_GetCheckpoint_read [OF doc1] key1 obj1 by simp
  show ?thesis
  proof (cases "Query_Get r ''force'' = ''true'' \<or> shows_empty ?c")
    case True
    have "run h (deleteStack_check r) w1 = (None, w1)"
      using True run_deleteStack_check [OF r read] by (cases "Query_Get r ''force'' = ''true''") (auto simp: deleteStack_check_def)
    then have start: "run h (deleteStack s r) w = run h (attempt (DeleteStack org project stack (st_Incarnation st) ?u (l_Generation l))
        (store_fail ''deleting stack failed'') (\<lambda>_. Return (WriteHeader 204))) w1"
      using r lock by (simp add: deleteStack_def names_defs run_GetStack [OF doc(1)])
    have ref1: "st_Org st1 = org" "st_Project st1 = project" "st_Name st1 = stack" "st_Incarnation st1 = st_Incarnation st"
      using ref w1(2) by (simp_all add: with_lock_def)
    have live: "live_gen {clock w1} (st_Lock st1) ?u (l_Generation l)" using w1(1,4) by simp
    obtain w2 where del: "run h (DeleteStack org project stack (st_Incarnation st) ?u (l_Generation l)) w1 = (Inr (), w2)"
      "objs w2 = (\<lambda>k. if k = ?k \<or> belongs org project stack (st_Incarnation st) k then None else objs w1 k)"
      using run_DeleteStack [OF ok doc1 ref1 live] by (auto simp: HasPrefix_def)
    have "resp = WriteHeader 204" "w' = w2" using run start del(1) by simp_all
    then show ?thesis using True del(2) w1(1) by (auto simp: fun_eq_iff)
  next
    case False
    have "run h (releaseLockOnExit org project stack ?u (l_Generation l)) w1 =
        ((), put_doc ?k (with_lock st1 (l_Generation l) None) w1)"
      using run_ReleaseLock [OF doc1] w1(2,4) by (auto simp: releaseLockOnExit_def releaseUpdateLock_def live_gen_def)
    with deleteStack_fails_closed [OF r run_GetStack [OF doc(1)] run_NewUpdateID lock read] False run
    have "w' = put_doc ?k (with_lock st1 (l_Generation l) None) w1" "rs_Status resp = refusal_status ?c" by auto
    moreover have "with_lock st1 (l_Generation l) None = with_lock st (l_Generation l) None"
      using w1(2) by (cases st) (simp add: with_lock_def)
    ultimately show ?thesis using False w1(1) by auto
  qed
qed

end

text \<open>
  C14. Deletion is guarded. On a service without faults and when no live lock stands in the way,
  \<^verbatim>\<open>deleteStack\<close> removes the stack with status 204 if the request is forced, the checkpoint has no
  resources or there is no checkpoint; then its document and exactly the objects of its
  incarnation are gone. Otherwise it refuses with status 400, or 500 when the checkpoint
  is malformed, and nothing but the lock fields of the document has changed. On any service,
  faults included, it fails closed: once the lock is taken, a request that is not forced
  goes on to delete only after a read that shows an empty or missing checkpoint; after
  every other answer, a failed read included, it refuses and does no more than release the lock.
\<close>

theorem deleteStack_guarded:
  assumes service: "s3_ideal h objs store etag pages clock rand reseed nf pf"
    and r: "names_stack r org project stack"
    and doc: "objs w (stackKey org project stack) = Some (Doc (stack_json st))" "storable st" "usesCanonicalLock st"
      "st_Org st = org" "st_Project st = project" "st_Name st = stack"
    and free: "case st_Lock st of None \<Rightarrow> True | Some l \<Rightarrow> Expired l (clock w)"
    and checkpoint: "checkpoint_key org project stack st = key" "key \<noteq> stackKey org project stack"
    and time: "time_marshals (clock w + LeaseDuration s)" "0 < LeaseDuration s"
    and run: "run h (deleteStack s r) w = (resp, w')"
  shows "(if Query_Get r ''force'' = ''true'' \<or> shows_empty (checkpoint_read key (objs w key))
     then resp = WriteHeader 204 \<and> objs w' =
       (\<lambda>k. if k = stackKey org project stack \<or> belongs org project stack (st_Incarnation st) k then None else objs w k)
     else rs_Status resp = refusal_status (checkpoint_read key (objs w key)) \<and>
       (\<exists>g. objs w' = (objs w)(stackKey org project stack \<mapsto> Doc (stack_json (with_lock st g None))))) \<and>
   (run g (GetStack org project stack) v = (Inr st', v1) \<and> run g NewUpdateID v1 = (i, v2) \<and>
    run g (deleteStack_lock s r st' (''delete-'' @ i)) v2 = (Inr (u, l), v3) \<and>
    run g (GetCheckpoint org project stack) v3 = (c, v4) \<and> Query_Get r ''force'' \<noteq> ''true'' \<and> \<not> shows_empty c \<longrightarrow>
      (\<exists>resp'. run g (deleteStack s r) v =
         (resp', snd (run g (releaseLockOnExit org project stack u (l_Generation l)) v4)) \<and> rs_Status resp' = refusal_status c))"
proof -
  have "s3_ideal.has_doc objs w (stackKey org project stack) st" using doc by (simp add: s3_ideal.has_doc_def [OF service])
  from s3_ideal.run_deleteStack [OF service r this doc(3-6) free checkpoint time run]
    deleteStack_fails_closed [OF r, of g v st' v1 i v2 s u l v3 c v4]
  show ?thesis by blast
qed

definition demo_deployment :: "json list \<Rightarrow> json" where
  "demo_deployment resources = JObj [(''deployment'', JObj [(''resources'', JArr resources)])]"

definition demo_saved :: "body \<Rightarrow> bucket" where
  "demo_saved b = (demo_bucket None)\<lparr>bk_objects := [
     (demo_key, Doc (stack_json ((demo_stack None)\<lparr>st_LatestCheckpointKey := ''o/p/s/c''\<rparr>))), (''o/p/s/c'', b)]\<rparr>"

text \<open>A checkpoint with a resource, an empty one, and one that is not a JSON text: its read fails.\<close>

theorem deleteStack_guarded_witness:
  "rs_Status (fst (run ref_service (deleteStack demo_server (demo_request '''' JNull)) (demo_saved (Doc (demo_deployment [JNull]))))) = 400 \<and>
   rs_Status (fst (run ref_service (deleteStack demo_server (demo_request '''' JNull)) (demo_saved (Doc (demo_deployment []))))) = 204 \<and>
   rs_Status (fst (run ref_service (deleteStack demo_server (demo_request '''' JNull)) (demo_saved Blob))) = 500"
proof -
  let ?st = "(demo_stack None)\<lparr>st_LatestCheckpointKey := ''o/p/s/c''\<rparr>" and ?r = "demo_request '''' JNull"
  have doc: "ref_objs (demo_saved b) (stackKey ''o'' ''p'' ''s'') = Some (Doc (stack_json ?st))"
    "ref_objs (demo_saved b) ''o/p/s/c'' = Some b" for b
    by (simp_all add: demo_saved_def ref_objs_def demo_key_def stackKey_def stackPrefix_def)
  have st: "storable ?st" "usesCanonicalLock ?st" "st_Org ?st = ''o''" "st_Project ?st = ''p''" "st_Name ?st = ''s''"
    "case st_Lock ?st of None \<Rightarrow> True | Some l \<Rightarrow> Expired l (bk_clock (demo_saved b))"
    "checkpoint_key ''o'' ''p'' ''s'' ?st = ''o/p/s/c''" "''o/p/s/c'' \<noteq> stackKey ''o'' ''p'' ''s''" for b
    using demo_storables(1) demo_canonical [of None]
    by (simp_all add: demo_stack_def storable_def clean_stack_def usesCanonicalLock_def stackKey_def stackPrefix_def marshal_stack_def
        checkpoint_key_def split: if_splits)
  have time: "time_marshals (bk_clock (demo_saved b) + LeaseDuration demo_server)" "0 < LeaseDuration demo_server" for b
    by (simp_all add: demo_lease demo_saved_def demo_new time_marshals_def)
  have force: "Query_Get ?r ''force'' \<noteq> ''true''"
    by (simp add: Query_Get_def demo_request_def plain_request_def lookup_or_empty_def)
  have res: "checkpointHasResources (demo_deployment rs) = Some (rs \<noteq> [])" for rs
    by (simp add: checkpointHasResources_def demo_deployment_def deployment_field_def resources_field_def same_name_def)
  define resp w' where "resp b = fst (run ref_service (deleteStack demo_server ?r) (demo_saved b))"
    and "w' b = snd (run ref_service (deleteStack demo_server ?r) (demo_saved b))" for b
  then have run: "run ref_service (deleteStack demo_server ?r) (demo_saved b) = (resp b, w' b)" for b by simp
  note guarded = conjunct1 [OF deleteStack_guarded [OF ref.s3_ideal_axioms demo_names(1) doc(1) st(1-8) time run]]
  have read: "rs_Status (resp (Doc (demo_deployment rs))) = (if rs = [] then 204 else 400)" for rs
    using guarded [of "Doc (demo_deployment rs)"] force unfolding doc(2)
    by (simp add: res WriteHeader_def shows_empty_def refusal_status_def checkpoint_read_def image_iff split: if_splits)
  have "rs_Status (resp Blob) = 500"
  proof -
    let ?w = "demo_saved Blob" and ?k = "stackKey ''o'' ''p'' ''s''" and ?u = "''delete-'' @ hex (ref_rand 16 (demo_saved Blob))"
    have has: "ref.has_doc ?w ?k ?st" "ref.has_doc (ref_reseed 16 ?w) ?k ?st"
      using doc(1) [of Blob] st(1) by (simp_all add: ref.has_doc_def)
    have time0: "time_marshals (bk_clock (ref_reseed 16 ?w) + LeaseDuration demo_server)" using time(1) [of Blob] by simp
    obtain l where free: "acquire_spec (bk_clock (ref_reseed 16 ?w)) ?st ?u (Principal (identity ?r)) (LeaseDuration demo_server) = Inr l"
      by (auto simp: acquire_spec_def demo_stack_def HasPrefix_def)
    from ref.run_deleteStack_lock [OF demo_names(1) has(2) st(2) free time0 time(2)]
    obtain st1 w1 where lock: "run ref_service (deleteStack_lock demo_server ?r (?st\<lparr>st_etag := ref.tag ?st\<rparr>) ?u) (ref_reseed 16 ?w) = (Inr (?u, l), w1)"
      and w1: "w1 = ref.put_doc ?k st1 (ref_reseed 16 ?w)" "st1 = with_lock ?st (l_Generation l) (Some l)" "storable st1" by metis
    have "ref.has_doc w1 ?k st1" using w1(1,3) by simp
    moreover have "ref_objs w1 ''o/p/s/c'' = Some Blob" using doc(2) [of Blob] st(8) w1(1) by simp
    ultimately have read: "run ref_service (GetCheckpoint ''o'' ''p'' ''s'') w1 = (checkpoint_read ''o/p/s/c'' (Some Blob), w1)"
      using ref.run_GetCheckpoint_read [of w1 "''o''" "''p''" "''s''" st1] st(7) w1(2) by (simp add: checkpoint_key_lock)
    have "\<not> shows_empty (checkpoint_read ''o/p/s/c'' (Some Blob))" "refusal_status (checkpoint_read ''o/p/s/c'' (Some Blob)) = 500"
      by (auto simp: checkpoint_read_def shows_empty_def refusal_status_def json_error_def)
    with deleteStack_guarded [OF ref.s3_ideal_axioms demo_names(1) doc(1) st(1-8) time run, of Blob ref_service ?w]
      ref.run_GetStack [OF has(1)] ref.run_NewUpdateID lock read force run [of Blob]
    show ?thesis by fastforce
  qed
  with read [of "[JNull]"] read [of "[]"] show ?thesis by (simp add: run)
qed

section \<open>Renewing a lease\<close>

context s3_ideal
begin

lemma run_renewLease:
  assumes srv: "jwt_laws (sv_jwt s)" "can_sign (sv_issuer s)" "validateIdentity (identity r) = None"
    and r: "names_update r org project stack kind updateID" "updateID \<noteq> ''''" "requireUpdateScope s r = None"
      "token_generation r = 0 \<or> token_generation r = l_Generation l" "decodeBody r decode_duration = Inr n"
    and state: "working w org project stack updateID st l u" "u_Kind u \<noteq> ''preview''"
    and time: "0 < clock w" "time_marshals (clock w + lease_duration n)"
  obtains resp w' l' where "run h (renewLease s r) w = (resp, w')"
    "run h (GetLock org project stack) w' = (Inr l', w')" "l_UpdateID l' = updateID"
    "l_ExpiresAt l' = clock w + lease_duration n"
    "if 2 * second \<le> lease_duration n
     then \<exists>token. resp = writeJSON 200 (JObj [(''token'', JStr token), (''tokenExpiration'', JInt (unix (clock w + lease_duration n)))]) \<and>
       run h (VerifyScoped (sv_jwt s) (sv_issuer s) token) w' =
         (Inr (shown (identity r), Some (claims_of org project stack kind updateID l')), w')
     else rs_Status resp = 500"
proof -
  note pos = lease_duration_range(1) [of n]
  have names: "names_stack r org project stack" and ok: "ref_ok org project stack" using r(1) by (simp_all add: names_defs)
  obtain l' st' w1 where renew: "run h (RenewLock org project stack updateID (l_Generation l) (lease_duration n)) w = (Inr l', w1)"
    and w1: "working w1 org project stack updateID st' l' u" "clock w1 = clock w" "l_ExpiresAt l' = clock w + lease_duration n"
    using run_renew_working [OF state(1) ok time(2) pos] by blast
  let ?uc = "claims_of org project stack kind updateID l'"
  have start: "run h (renewLease s r) w = run h (renewLease_issue s r (l_Generation l') (lease_duration n)) w1"
    using r(1,3,5) state(2) renew run_with_live_lock [OF names state(1) r(4)]
    by (simp add: renewLease_def names_defs run_get_working [OF state(1)] Let_def)
  have claims: "?uc = \<lparr>uc_UpdateID = PathValue r ''updateID'', uc_Org = PathValue r ''org'', uc_Project = PathValue r ''project'',
           uc_Stack = PathValue r ''stack'', uc_Kind = PathValue r ''kind'', uc_Generation = l_Generation l'\<rparr>"
    using r(1) by (simp add: names_defs claims_of_def)
  have now: "h_now h w1 = (clock w, w1)" using w1(2) by simp
  have id: "uc_UpdateID ?uc \<noteq> ''''" using r(2) by (simp add: claims_of_def)
  have lock: "run h (GetLock org project stack) w1 = (Inr l', w1)" "l_UpdateID l' = updateID"
    using w1(1) run_GetLock [of w1 org project stack st'] by (simp_all add: working_def)
  show thesis
  proof (cases "2 * second \<le> lease_duration n")
    case True
    have "clock w < unix (clock w + lease_duration n) * second" using True by (simp add: unix_def)
    with issued_update_token [OF srv(1,2) True srv(3) id now time(1) now order_refl]
    obtain token where token:
      "run h (IssueUpdate (sv_jwt s) (sv_issuer s) (identity r) ?uc (lease_duration n)) w1 =
         (Inr (token, unix (clock w + lease_duration n)), w1)"
      "run h (VerifyScoped (sv_jwt s) (sv_issuer s) token) w1 = (Inr (shown (identity r), Some ?uc), w1)"
      by auto
    then have "run h (renewLease s r) w =
        (writeJSON 200 (JObj [(''token'', JStr token), (''tokenExpiration'', JInt (unix (clock w + lease_duration n)))]), w1)"
      using start by (simp add: renewLease_issue_def claims [symmetric])
    from that [OF this lock w1(3)] True token(2) show thesis by auto
  next
    case False
    then have "run h (renewLease s r) w = (internalError (NewError ''token TTL must be at least 2s'') ''token issuance failed'', w1)"
      using start by (simp add: renewLease_issue_def IssueUpdate_def minimumTokenTTL_def)
    from that [OF this lock w1(3)] False show thesis by (simp add: internalError_def)
  qed
qed

end

text \<open>
  C15. Renewal of the lease. Whatever duration a client asks for (the product with a second
  wraps around in 64 bits), the lease that \<^verbatim>\<open>renewLease\<close> grants is positive and at most five minutes, and is
  the requested one for 1 to 300 seconds. The lock then expires exactly at the end of
  that lease. A lease of two seconds or more comes with a token of the same expiry that
  \<^verbatim>\<open>VerifyScoped\<close> accepts for this update and the renewed lock; below two seconds the
  answer is 500 although the lock has been cut down to the shorter lease.
\<close>

theorem renewLease_bounded:
  assumes service: "s3_ideal h objs store etag pages clock rand reseed nf pf"
    and srv: "jwt_laws (sv_jwt s)" "can_sign (sv_issuer s)" "validateIdentity (identity r) = None"
    and r: "names_update r org project stack kind updateID" "updateID \<noteq> ''''" "requireUpdateScope s r = None"
      "token_generation r = 0 \<or> token_generation r = l_Generation l" "decodeBody r decode_duration = Inr n"
    and doc: "objs w (stackKey org project stack) = Some (Doc (stack_json st))" "storable st" "usesCanonicalLock st"
      "st_Lock st = Some l" "l_UpdateID l = updateID" "\<not> Expired l (clock w)"
    and update: "objs w (updateKey org project stack (st_Incarnation st) updateID) = Some (Doc (update_json u))"
      "clean_update u" "u_Kind u \<noteq> ''preview''"
    and time: "0 < clock w" "time_marshals (clock w + lease_duration n)"
    and run: "run h (renewLease s r) w = (resp, w')"
  shows "0 < lease_duration n \<and> lease_duration n \<le> 300 * second \<and>
    (if 1 \<le> sint n \<and> sint n \<le> 300 then lease_duration n = sint n * second
     else \<bar>sint n\<bar> \<le> 9223372036 \<longrightarrow> lease_duration n = 300 * second) \<and>
    (\<exists>l'. run h (GetLock org project stack) w' = (Inr l', w') \<and> l_UpdateID l' = updateID \<and>
      l_ExpiresAt l' = clock w + lease_duration n \<and>
      (if 2 * second \<le> lease_duration n
       then \<exists>token. resp = writeJSON 200 (JObj [(''token'', JStr token), (''tokenExpiration'', JInt (unix (clock w + lease_duration n)))]) \<and>
         run h (VerifyScoped (sv_jwt s) (sv_issuer s) token) w' =
           (Inr (shown (identity r), Some (claims_of org project stack kind updateID l')), w')
       else rs_Status resp = 500))"
proof -
  have "s3_ideal.working objs clock w org project stack updateID st l u"
    using doc update by (simp add: s3_ideal.working_def [OF service] s3_ideal.has_doc_def [OF service] s3_ideal.has_update_def [OF service])
  from s3_ideal.run_renewLease [OF service srv r this update(3) time]
  obtain resp1 w1 l' where renewed: "run h (renewLease s r) w = (resp1, w1)"
    "run h (GetLock org project stack) w1 = (Inr l', w1)" "l_UpdateID l' = updateID" "l_ExpiresAt l' = clock w + lease_duration n"
    "if 2 * second \<le> lease_duration n
     then \<exists>token. resp1 = writeJSON 200 (JObj [(''token'', JStr token), (''tokenExpiration'', JInt (unix (clock w + lease_duration n)))]) \<and>
       run h (VerifyScoped (sv_jwt s) (sv_issuer s) token) w1 =
         (Inr (shown (identity r), Some (claims_of org project stack kind updateID l')), w1)
     else rs_Status resp1 = 500" by blast
  have "(if 1 \<le> sint n \<and> sint n \<le> 300 then lease_duration n = sint n * second
     else \<bar>sint n\<bar> \<le> 9223372036 \<longrightarrow> lease_duration n = 300 * second)"
    using lease_duration_exact [of n] by auto
  moreover have "resp1 = resp" "w1 = w'" using renewed(1) run by simp_all
  ultimately show ?thesis using lease_duration_range [of n] renewed(2-5) by blast
qed

definition demo_working :: bucket where
  "demo_working = (demo_bucket None)\<lparr>bk_objects := [
     (demo_key, Doc (stack_json (demo_stack (Some (demo_lock ''u1''))))),
     (updateKey ''o'' ''p'' ''s'' ''i'' ''u1'', Doc (update_json (new_update 0 ''update'' ''u1'' 3)))]\<rparr>"

theorem renewLease_bounded_witness:
  "let r = (demo_request ''u1'' (JObj [(''duration'', JInt 1)]))\<lparr>rq_UpdateClaims := Some (claims_of ''o'' ''p'' ''s'' ''update'' ''u1'' (demo_lock ''u1''))\<rparr>
   in rs_Status (fst (run ref_service (renewLease demo_server r) demo_working)) = 500 \<and>
     (\<exists>l w'. run ref_service (GetLock ''o'' ''p'' ''s'') (snd (run ref_service (renewLease demo_server r) demo_working)) = (Inr l, w') \<and>
        l_ExpiresAt l = 51 * second)"
proof -
  let ?l = "demo_lock ''u1''" and ?u = "new_update 0 ''update'' ''u1'' 3" and ?st = "demo_stack (Some (demo_lock ''u1''))"
  let ?base = "demo_request ''u1'' (JObj [(''duration'', JInt 1)])"
  let ?r = "?base\<lparr>rq_UpdateClaims := Some (claims_of ''o'' ''p'' ''s'' ''update'' ''u1'' ?l)\<rparr>"
  obtain resp w' where run: "run ref_service (renewLease demo_server ?r) demo_working = (resp, w')"
    by (cases "run ref_service (renewLease demo_server ?r) demo_working")
  have names: "names_update ?base ''o'' ''p'' ''s'' ''update'' ''u1''" by (rule demo_names)
  note r = scoped_request [OF names refl]
  have ident: "validateIdentity (identity ?r) = None" by (simp add: identity_def demo_request_def demo_issuer_signs)
  have body: "decodeBody ?r decode_duration = Inr 1"
    by (simp add: decodeBody_def demo_request_def plain_request_def decode_duration_def duration_field_def same_name_def)
  have lease: "lease_duration 1 = second" by (simp add: lease_duration_def)
  have doc: "ref_objs demo_working (stackKey ''o'' ''p'' ''s'') = Some (Doc (stack_json ?st))"
    "ref_objs demo_working (updateKey ''o'' ''p'' ''s'' (st_Incarnation ?st) ''u1'') = Some (Doc (update_json ?u))"
    by (simp_all add: demo_working_def ref_objs_def demo_key_def demo_stack_def stackKey_def updateKey_def stackDataPrefix_def)
  have st: "st_Lock ?st = Some ?l" "l_UpdateID ?l = ''u1''" "\<not> Expired ?l (bk_clock demo_working)" "u_Kind ?u \<noteq> ''preview''" "''u1'' \<noteq> []"
    "0 < bk_clock demo_working" "time_marshals (bk_clock demo_working + lease_duration 1)"
    by (simp_all add: demo_stack_def demo_lock_def Expired_def demo_working_def demo_new new_update_def lease time_marshals_def)
  note renewed = renewLease_bounded [OF ref.s3_ideal_axioms demo_lease(2,3) ident r(1) st(5) r(2) disjI2 [OF r(3)] body doc(1)
      demo_storables(2) demo_canonical st(1-3) doc(2) clean_new_update st(4,6,7) run]
  have "bk_clock demo_working = 50 * second" by (simp add: demo_working_def demo_new)
  with renewed show ?thesis unfolding Let_def run by (auto simp: lease)
qed

section \<open>Listing stacks\<close>

text \<open>The stacks that a listing shows to the caller of \<open>r\<close>.\<close>

definition shows_stack :: "Server \<Rightarrow> request \<Rightarrow> stack \<Rightarrow> bool" where
  "shows_stack s r st \<longleftrightarrow>
     (NoAuth s \<or> Allows (sv_authz s) (id_Groups (identity r)) Read (st_Org st) (st_Project st) (st_Name st)) \<and>
     (Query_Get r ''project'' = '''' \<or> st_Project st = Query_Get r ''project'')"

lemma listStacks_loop_filter:
  "listStacks_loop s r (Query_Get r ''project'') sts out = out @ map summary (filter (shows_stack s r) sts)"
  by (induction sts arbitrary: out) (auto simp: shows_stack_def authorizeListStack_def)

text \<open>
  C13. What a caller sees of the stacks. When the documents below the listed prefix can be read, the
  listing of an organization (or of all) answers with exactly the stacks stored there that
  the caller's groups may read, restricted to the project that the query asks for, each once and in the
  order of project and name; no other stack's name is shown, and nothing is changed.
\<close>

theorem listing_shows_readable_stacks:
  assumes service: "s3_ideal h objs store etag pages clock rand reseed nf pf"
    and readable: "\<forall>k b. objs w k = Some b \<and> HasPrefix k (if org = '''' then '''' else org @ ''/'') \<and>
       HasSuffix k ''/stack.json'' \<longrightarrow> storable (docs k) \<and> b = Doc (stack_json (docs k))"
    and run: "run h (listStacks s r org) w = (resp, w')"
  shows "\<exists>stacks ks. resp = writeJSON 200 (JObj [(''stacks'', JArr (map summary stacks))]) \<and> w' = w \<and>
     sorted (map stack_sort_name stacks) \<and> mset stacks = mset (map docs ks) \<and> distinct ks \<and>
     set ks = {k. objs w k \<noteq> None \<and> HasPrefix k (if org = '''' then '''' else org @ ''/'') \<and> HasSuffix k ''/stack.json'' \<and>
       shows_stack s r (docs k)}"
proof -
  have docs: "s3_ideal.has_doc objs w k (docs k)"
    if "objs w k \<noteq> None" "HasPrefix k (if org = '''' then '''' else org @ ''/'')" "HasSuffix k ''/stack.json''" for k
    using that readable by (auto simp: s3_ideal.has_doc_def [OF service])
  obtain stacks ks where all: "run h (ListStacks org) w = (Inr stacks, w)" "sorted (map stack_sort_name stacks)"
    "mset stacks = mset (map docs ks)" "distinct ks"
    "set ks = {k. objs w k \<noteq> None \<and> HasPrefix k (if org = '''' then '''' else org @ ''/'') \<and> HasSuffix k ''/stack.json''}"
    using s3_ideal.run_ListStacks [OF service docs] by blast
  let ?shown = "filter (shows_stack s r) stacks" and ?ks = "filter (shows_stack s r \<circ> docs) ks"
  have "resp = writeJSON 200 (JObj [(''stacks'', JArr (map summary ?shown))])" "w' = w"
    using run all(1) by (simp_all add: listStacks_def attempt_def Let_def listStacks_loop_filter)
  moreover have "sorted (map stack_sort_name ?shown)" using all(2) by (rule sorted_filter)
  moreover have "mset ?shown = mset (map docs ?ks)"
    by (simp only: mset_filter all(3)) (metis filter_map mset_filter)
  moreover have "distinct ?ks" using all(4) by simp
  moreover have "set ?ks = {k. objs w k \<noteq> None \<and> HasPrefix k (if org = '''' then '''' else org @ ''/'') \<and>
      HasSuffix k ''/stack.json'' \<and> shows_stack s r (docs k)}"
    by (simp add: all(5))
  ultimately show ?thesis by (intro exI [of _ ?shown] exI [of _ ?ks] conjI)
qed

theorem listing_shows_readable_stacks_witness:
  "\<exists>stacks. run ref_service (listStacks demo_server (demo_request '''' JNull) ''o'') (demo_bucket None) =
     (writeJSON 200 (JObj [(''stacks'', JArr (map summary stacks))]), demo_bucket None)"
proof -
  obtain resp w' where run: "run ref_service (listStacks demo_server (demo_request '''' JNull) ''o'') (demo_bucket None) = (resp, w')"
    by fastforce
  have "\<forall>k b. ref_objs (demo_bucket None) k = Some b \<and> HasPrefix k (if ''o'' = '''' then '''' else ''o'' @ ''/'') \<and>
      HasSuffix k ''/stack.json'' \<longrightarrow> storable (demo_stack None) \<and> b = Doc (stack_json (demo_stack None))"
    using demo_storables(1) by (auto simp: ref_objs_def demo_bucket_def split: if_splits)
  from listing_shows_readable_stacks [where docs = "\<lambda>_. demo_stack None", OF ref.s3_ideal_axioms this run] run
  show ?thesis by auto
qed

end
