(* ===== verification/Program.thy ===== *)
theory Program
  imports API_Protocol
begin

text \<open>
  The program (\<^verbatim>\<open>cmd/pulumi-backend/main.go\<close>): how the parts are put together at start-up and
  how serving ends. OIDC discovery, the AWS configuration, the listener and the HTTP server are
  not part of the repository; their results are the fields of \<open>program_env\<close> and the
  arguments of \<open>serve\<close>.
\<close>

section \<open>Start-up\<close>

record program_env =
  pe_config :: config_env
  pe_oidc :: "string \<Rightarrow> string \<Rightarrow> error + (string \<Rightarrow> error + (error + json smap) \<times> string)"
    \<comment> \<open>\<^verbatim>\<open>oidc.NewProvider\<close> for an issuer and the verifier for a client\<close>
  pe_aws :: "string \<Rightarrow> error option"
  pe_listen :: "string \<Rightarrow> error option"

definition config_path :: "string \<Rightarrow> (string \<Rightarrow> string) \<Rightarrow> string" where
  "config_path flag getenv =
     (let path = (if flag = '''' then getenv ''PULUMI_BACKEND_CONFIG'' else flag)
      in if path = '''' then ''config.yaml'' else path)"

primrec signing_keys :: "SigningKey list \<Rightarrow> string smap \<Rightarrow> string smap" where
  "signing_keys [] keys = keys"
| "signing_keys (key # rest) keys = signing_keys rest (sm_put (sk_ID key) (sk_Key key) keys)"

definition NewOIDCValidator :: "program_env \<Rightarrow> string \<Rightarrow> string \<Rightarrow> error + (string \<Rightarrow> error + Identity)" where
  "NewOIDCValidator env issuer clientID = (case pe_oidc env issuer clientID of
      Inl err \<Rightarrow> Inl (Wrap ''oidc provider: '' err)
    | Inr verify \<Rightarrow> Inr (Validate verify))"

text \<open>In local mode no validator is made; it is never called then.\<close>

definition build_server ::
  "program_env \<Rightarrow> ('b, 'g) crypto \<Rightarrow> jwt_lib \<Rightarrow> (json \<Rightarrow> string) \<Rightarrow> (string \<Rightarrow> string) \<Rightarrow> Config \<Rightarrow> error + Server" where
  "build_server env cl J sha sha256hex cfg =
     (case (if cfg_NoAuth cfg then Inr (\<lambda>raw. Inl (NewError '''')) else NewOIDCValidator env (cfg_Issuer cfg) (cfg_ClientID cfg)) of
        Inl err \<Rightarrow> Inl (Wrap ''oidc validator: '' err)
      | Inr oidcValidator \<Rightarrow> (case NewCrypter (cfg_SecretsKey cfg) of
          Inl err \<Rightarrow> Inl (Wrap ''secrets crypter: '' err)
        | Inr c \<Rightarrow> (case pe_aws env (cfg_Region cfg) of
            Some err \<Rightarrow> Inl (Wrap ''aws config: '' err)
          | None \<Rightarrow> Inr (NewServer cfg
              \<lparr>ti_Keys = signing_keys (cfg_SigningKeys cfg) [], ti_ActiveKeyID = cfg_ActiveSigningKey cfg, ti_TTL = cfg_TokenTTL cfg\<rparr>
              oidcValidator (Some (secrets_crypter cl c)) J sha sha256hex))))"

section \<open>Serving and shutting down\<close>

record http_server =
  hs_Addr :: string
  hs_ReadHeaderTimeout :: duration
  hs_ReadTimeout :: duration
  hs_WriteTimeout :: duration
  hs_IdleTimeout :: duration
  hs_MaxHeaderBytes :: nat

definition newHTTPServer :: "string \<Rightarrow> http_server" where
  "newHTTPServer addr = \<lparr>hs_Addr = addr, hs_ReadHeaderTimeout = 10 * second, hs_ReadTimeout = minute,
     hs_WriteTimeout = 2 * minute, hs_IdleTimeout = 2 * minute, hs_MaxHeaderBytes = 1048576\<rparr>"

text \<open>\<^verbatim>\<open>http.ErrServerClosed\<close>, by its text.\<close>

definition ErrServerClosed :: error where
  "ErrServerClosed = NewError ''http: Server closed''"

text \<open>
  What ends serving: \<^verbatim>\<open>Serve\<close> returned by itself, or the context was cancelled, with the
  results of \<^verbatim>\<open>Shutdown\<close> and \<^verbatim>\<open>Close\<close> and the error that \<^verbatim>\<open>Serve\<close> then returned.
\<close>

datatype serve_end = ServeReturned error | ContextDone "error option" "error option" error

definition unless_closed :: "error \<Rightarrow> error option" where
  "unless_closed err = (if errors_Is err ErrServerClosed then None else Some err)"

text \<open>\<^verbatim>\<open>errors.Join\<close> of errors that may be nil; a single one stands for itself.\<close>

fun join_errors :: "error option list \<Rightarrow> error option" where
  "join_errors [] = None"
| "join_errors (None # es) = join_errors es"
| "join_errors (Some e # es) = (case join_errors es of None \<Rightarrow> Some e | Some e' \<Rightarrow> Some (Join e e'))"

fun serve :: "serve_end \<Rightarrow> error option" where
  "serve (ServeReturned err) = unless_closed err"
| "serve (ContextDone (Some shutdownErr) closeErr serveErr) = join_errors [Some shutdownErr, closeErr, unless_closed serveErr]"
| "serve (ContextDone None closeErr serveErr) = unless_closed serveErr"

definition run_program ::
  "program_env \<Rightarrow> (nat \<Rightarrow> string list) \<Rightarrow> ('b, 'g) crypto \<Rightarrow> jwt_lib \<Rightarrow> (json \<Rightarrow> string) \<Rightarrow> (string \<Rightarrow> string) \<Rightarrow>
     string \<Rightarrow> (Server \<Rightarrow> http_server \<Rightarrow> serve_end) \<Rightarrow> error option" where
  "run_program env order cl J sha sha256hex path serving_ends = (case Load (pe_config env) order path of
      Inl err \<Rightarrow> Some (Wrap ''load config: '' err)
    | Inr cfg \<Rightarrow> (case build_server env cl J sha sha256hex cfg of
        Inl err \<Rightarrow> Some err
      | Inr server \<Rightarrow> (case pe_listen env (cfg_Listen cfg) of
          Some err \<Rightarrow> Some (Wrap ''listen: '' err)
        | None \<Rightarrow> (case serve (serving_ends server (newHTTPServer (cfg_Listen cfg))) of
            Some err \<Rightarrow> Some (Wrap ''serve: '' err)
          | None \<Rightarrow> None))))"

section \<open>What start-up achieves\<close>

text \<open>The key ring holds every configured key under its ID.\<close>

lemma signing_keys_get:
  "distinct (map sk_ID ks) \<Longrightarrow> sm_get (signing_keys ks m) i =
     (case find (\<lambda>k. sk_ID k = i) ks of Some k \<Rightarrow> Some (sk_Key k) | None \<Rightarrow> sm_get m i)"
proof (induction ks arbitrary: m)
  case (Cons k ks)
  have "find (\<lambda>x. sk_ID x = sk_ID k) ks = None" using Cons.prems by (auto simp: find_None_iff image_iff)
  then show ?case using Cons by (auto split: option.split)
qed simp

lemma signing_keys_lookup:
  assumes "distinct (map sk_ID ks)" "k \<in> set ks"
  shows "sm_get (signing_keys ks m) (sk_ID k) = Some (sk_Key k)"
proof -
  have "find (\<lambda>x. sk_ID x = sk_ID k) ks = Some k"
    using assms by (induction ks) (auto simp: image_iff)
  then show ?thesis by (simp add: signing_keys_get [OF assms(1)])
qed

lemma secrets_crypter_quiet: "safe P (cr_Encrypt (secrets_crypter cl c) org project stack x) T"
  by (simp add: secrets_crypter_def Encrypt_def split: sum.split)

text \<open>What \<^verbatim>\<open>validate\<close> leaves in an accepted configuration.\<close>

lemma accepted_config:
  assumes "\<And>i. scope_order (order i)" "validate order getenv c0 = Inr c"
  shows "distinct (map sk_ID (cfg_SigningKeys c))" "\<forall>k \<in> set (cfg_SigningKeys c). sk_ID k \<noteq> '''' \<and> 32 \<le> length (sk_Key k)"
    "cfg_ActiveSigningKey c \<in> sk_ID ` set (cfg_SigningKeys c)"
    "\<exists>root. base64_decode (cfg_SecretsKey c) = Some root \<and> length root = 32"
    "2 * second \<le> cfg_TokenTTL c" "5 * minute \<le> cfg_LeaseDuration c" "cfg_NoAuth c \<Longrightarrow> isLoopbackListen (cfg_Listen c)"
proof -
  from assms(2) [unfolded validate_chain] obtain val where
    v: "validate_mode c0 = None" "usable_keys getenv c0" "validateSecretsKey val = None" "validate_rest order c = None"
    and c: "c = c0\<lparr>cfg_SigningKeys := map (resolve_key getenv) (cfg_SigningKeys c0), cfg_SecretsKey := val\<rparr>"
    by blast
  have ids: "sk_ID (resolve_key getenv k) = sk_ID k" for k by (simp add: resolve_key_def)
  show "distinct (map sk_ID (cfg_SigningKeys c))" "cfg_ActiveSigningKey c \<in> sk_ID ` set (cfg_SigningKeys c)"
    using v(2) by (simp_all add: c usable_keys_def ids comp_def image_image)
  show "\<forall>k \<in> set (cfg_SigningKeys c). sk_ID k \<noteq> '''' \<and> 32 \<le> length (sk_Key k)"
    using v(2) by (auto simp: c usable_keys_def usable_key_def resolve_key_def)
  show "\<exists>root. base64_decode (cfg_SecretsKey c) = Some root \<and> length root = 32"
    using v(3) by (simp add: c validateSecretsKey_iff)
  show "2 * second \<le> cfg_TokenTTL c" "5 * minute \<le> cfg_LeaseDuration c"
    using v(4) by (simp_all add: validate_rest_iff [OF assms(1)])
  show "cfg_NoAuth c \<Longrightarrow> isLoopbackListen (cfg_Listen c)"
    using v(1) by (simp add: c validate_mode_iff)
qed

lemma Load_validated:
  assumes "Load env order path = Inr cfg"
  obtains c0 where "validate order (ce_Getenv env) c0 = Inr cfg"
  using assms by (auto simp: Load_def split: sum.splits yaml_next.splits)

text \<open>
  C11. A configuration that \<^verbatim>\<open>Load\<close> accepts starts. If OIDC discovery (in local mode it is
  skipped), the AWS configuration and the listener succeed, the program comes up without an
  error and serves until serving ends, and the server it has built can do its work: every
  configured key verifies tokens under its ID and has at least 32 bytes, the active one signs,
  the TTL admits tokens and the leases last at least five minutes, secrets are sealed under a
  root key of 32 bytes, and without authentication it listens on a loopback address only. A
  graceful shutdown ends the program without an error.
\<close>

theorem accepted_configuration_starts:
  assumes order: "\<And>i. scope_order (order i)" and load: "Load (pe_config env) order path = Inr cfg"
    and oidc: "cfg_NoAuth cfg \<or> pe_oidc env (cfg_Issuer cfg) (cfg_ClientID cfg) = Inr verify"
    and aws: "pe_aws env (cfg_Region cfg) = None" and listen: "pe_listen env (cfg_Listen cfg) = None"
  shows "\<exists>s c. build_server env cl J sha sha256hex cfg = Inr s \<and> sv_cfg s = cfg \<and> can_sign (sv_issuer s) \<and>
     (\<forall>k \<in> set (cfg_SigningKeys cfg). sm_get (ti_Keys (sv_issuer s)) (sk_ID k) = Some (sk_Key k) \<and> 32 \<le> length (sk_Key k)) \<and>
     2 * second \<le> ti_TTL (sv_issuer s) \<and> 5 * minute \<le> LeaseDuration s \<and>
     sv_crypter s = Some (secrets_crypter cl c) \<and> length (rootKey c) = 32 \<and> quiet_crypter s \<and>
     (if NoAuth s then isLoopbackListen (cfg_Listen cfg) else sv_oidc s = Validate verify) \<and>
     run_program env order cl J sha sha256hex path serving_ends =
       map_option (Wrap ''serve: '') (serve (serving_ends s (newHTTPServer (cfg_Listen cfg)))) \<and>
     (serving_ends s (newHTTPServer (cfg_Listen cfg)) = ContextDone None closeErr ErrServerClosed \<longrightarrow>
       run_program env order cl J sha sha256hex path serving_ends = None)"
proof -
  obtain c0 where "validate order (ce_Getenv (pe_config env)) c0 = Inr cfg" by (rule Load_validated [OF load])
  note ok = accepted_config [OF order this]
  from ok(4) obtain root where root: "base64_decode (cfg_SecretsKey cfg) = Some root" "length root = 32" by blast
  let ?c = "\<lparr>rootKey = root\<rparr>" and ?oidc = "if cfg_NoAuth cfg then \<lambda>raw. Inl (NewError '''') else Validate verify"
  define s where "s = NewServer cfg \<lparr>ti_Keys = signing_keys (cfg_SigningKeys cfg) [],
    ti_ActiveKeyID = cfg_ActiveSigningKey cfg, ti_TTL = cfg_TokenTTL cfg\<rparr> ?oidc (Some (secrets_crypter cl ?c)) J sha sha256hex"
  have "NewCrypter (cfg_SecretsKey cfg) = Inr ?c" using root by (simp add: NewCrypter_def keySize_def)
  then have built: "build_server env cl J sha sha256hex cfg = Inr s"
    using oidc aws by (auto simp: build_server_def NewOIDCValidator_def s_def)
  have keys: "sm_get (signing_keys (cfg_SigningKeys cfg) []) (sk_ID k) = Some (sk_Key k)" "32 \<le> length (sk_Key k)"
    "sk_ID k \<noteq> ''''" if "k \<in> set (cfg_SigningKeys cfg)" for k
    using that signing_keys_lookup [OF ok(1)] ok(2) by auto
  obtain k where "k \<in> set (cfg_SigningKeys cfg)" "cfg_ActiveSigningKey cfg = sk_ID k" using ok(3) by auto
  with keys [of k] have sign: "can_sign (sv_issuer s)" by (auto simp: can_sign_def s_def NewServer_def)
  have quiet: "quiet_crypter s" by (simp add: quiet_crypter_def s_def NewServer_def secrets_crypter_quiet)
  have run: "run_program env order cl J sha sha256hex path serving_ends =
      map_option (Wrap ''serve: '') (serve (serving_ends s (newHTTPServer (cfg_Listen cfg))))"
    by (simp add: run_program_def load built listen split: option.split)
  have fields: "sv_cfg s = cfg" "ti_TTL (sv_issuer s) = cfg_TokenTTL cfg" "sv_crypter s = Some (secrets_crypter cl ?c)"
    "ti_Keys (sv_issuer s) = signing_keys (cfg_SigningKeys cfg) []" "sv_oidc s = ?oidc"
    by (simp_all add: s_def NewServer_def)
  show ?thesis
    using built sign quiet run keys ok(5-7) root(2) fields
    by (intro exI [of _ s] exI [of _ ?c]) (simp add: unless_closed_def ErrServerClosed_def)
qed

text \<open>A local set-up: the file decodes to \<open>local_config\<close>, and nothing outside fails.\<close>

definition local_env :: program_env where
  "local_env = \<lparr>pe_config = \<lparr>ce_ReadFile = (\<lambda>path. Inr ''yaml''), ce_Decode = (\<lambda>raw cfg. Inr local_config),
     ce_Next = (\<lambda>raw. YamlEOF), ce_Getenv = local_getenv\<rparr>,
     pe_oidc = (\<lambda>issuer client. Inl (NewError ''offline'')), pe_aws = (\<lambda>region. None), pe_listen = (\<lambda>addr. None)\<rparr>"

abbreviation scope_fields :: "nat \<Rightarrow> string list" where
  "scope_fields \<equiv> \<lambda>_. [''organizations'', ''projects'', ''stacks'']"

lemma scope_fields_order: "scope_order (scope_fields i)"
  by (auto simp: scope_order_def)

lemma local_load:
  "Load (pe_config local_env) scope_fields ''config.yaml'' =
     Inr (local_config\<lparr>cfg_SigningKeys := [\<lparr>sk_ID = ''k1'', sk_Key = replicate 32 CHR ''k''\<rparr>]\<rparr>)"
proof -
  have "resolved local_getenv ''env:KEY'' = Some (replicate 32 CHR ''k'')"
    by (simp add: resolved_def CutPrefix_def HasPrefix_def local_getenv_def)
  then have "validate scope_fields local_getenv local_config =
      Inr (local_config\<lparr>cfg_SigningKeys := [\<lparr>sk_ID = ''k1'', sk_Key = replicate 32 CHR ''k''\<rparr>]\<rparr>)"
    using local_listen local_secret [of local_getenv]
    unfolding validate_chain validate_mode_iff validate_rest_iff [of scope_fields, OF scope_fields_order]
    by (simp add: local_config_def default_config_def usable_keys_def usable_key_def resolve_key_def validateSecretsKey_iff)
  then show ?thesis by (simp add: Load_def local_env_def local_config_def default_config_def)
qed

theorem accepted_configuration_starts_witness:
  "\<exists>s. build_server local_env plain_crypto unary_jwt (\<lambda>j. ''0'') (\<lambda>raw. ''0'')
      (local_config\<lparr>cfg_SigningKeys := [\<lparr>sk_ID = ''k1'', sk_Key = replicate 32 CHR ''k''\<rparr>]\<rparr>) = Inr s \<and>
     run_program local_env scope_fields plain_crypto unary_jwt (\<lambda>j. ''0'') (\<lambda>raw. ''0'') ''config.yaml''
      (\<lambda>s hs. ContextDone None None ErrServerClosed) = None \<and> can_sign (sv_issuer s) \<and>
     sm_get (ti_Keys (sv_issuer s)) ''k1'' = Some (replicate 32 CHR ''k'')"
proof -
  let ?cfg = "local_config\<lparr>cfg_SigningKeys := [\<lparr>sk_ID = ''k1'', sk_Key = replicate 32 CHR ''k''\<rparr>]\<rparr>"
  have "cfg_NoAuth ?cfg \<or> pe_oidc local_env (cfg_Issuer ?cfg) (cfg_ClientID ?cfg) = Inr (\<lambda>raw. Inl (NewError ''offline''))"
    "pe_aws local_env (cfg_Region ?cfg) = None" "pe_listen local_env (cfg_Listen ?cfg) = None"
    by (simp_all add: local_config_def local_env_def)
  from accepted_configuration_starts [OF scope_fields_order local_load this, of plain_crypto unary_jwt "\<lambda>j. ''0''" "\<lambda>raw. ''0''"
      "\<lambda>s hs. ContextDone None None ErrServerClosed" None]
  obtain s where s: "build_server local_env plain_crypto unary_jwt (\<lambda>j. ''0'') (\<lambda>raw. ''0'') ?cfg = Inr s" "can_sign (sv_issuer s)"
    "\<forall>k \<in> set (cfg_SigningKeys ?cfg). sm_get (ti_Keys (sv_issuer s)) (sk_ID k) = Some (sk_Key k) \<and> 32 \<le> length (sk_Key k)"
    "run_program local_env scope_fields plain_crypto unary_jwt (\<lambda>j. ''0'') (\<lambda>raw. ''0'') ''config.yaml'' (\<lambda>s hs. ContextDone None None ErrServerClosed) = None"
    by blast
  then show ?thesis by (intro exI [of _ s]) simp
qed

end
