(* ===== verification/Store_Cost.thy ===== *)
theory Store_Cost
  imports Store_System
begin

text \<open>
  How many requests the operations of the store send. Every page of a listing is a request, and
  how many pages there are is up to the service, which says after each page whether another one
  follows: a listing is assumed to end. Besides that, whatever the service
  answers, conflicts on every attempt included, the number of requests is bounded.
\<close>

section \<open>Counting requests\<close>

text \<open>
  The requests of one listing: the paginators of \<^verbatim>\<open>s3store.go\<close> send the first one in any case, one for
  each page, and one more when the listing breaks off with an error.
\<close>

definition page_requests :: "string list list \<times> s3_error option \<Rightarrow> nat" where
  "page_requests r = (case snd r of None \<Rightarrow> max 1 (length (fst r)) | Some e \<Rightarrow> Suc (length (fst r)))"

text \<open>
  The requests to the bucket that a run sends; the clock and the random generator are free. When
  a document of a page cannot be read, \<^verbatim>\<open>ListStacks\<close> and \<^verbatim>\<open>ListUpdates\<close> do not ask for the pages after
  it; they are counted nevertheless.
\<close>

primrec requests :: "'w handler \<Rightarrow> 'a prog \<Rightarrow> 'w \<Rightarrow> nat" where
  "requests h (Return x) = (\<lambda>w. 0)"
| "requests h (GetObject k f) = (\<lambda>w. case h_get h k w of (r, w') \<Rightarrow> Suc (requests h (f r) w'))"
| "requests h (PutObject k b inm im f) = (\<lambda>w. case h_put h k b inm im w of (r, w') \<Rightarrow> Suc (requests h (f r) w'))"
| "requests h (DeleteObject k im f) = (\<lambda>w. case h_delete h k im w of (r, w') \<Rightarrow> Suc (requests h (f r) w'))"
| "requests h (DeleteObjects ks f) = (\<lambda>w. case h_delete_many h ks w of (r, w') \<Rightarrow> Suc (requests h (f r) w'))"
| "requests h (ListObjects p f) = (\<lambda>w. case h_list h p w of (r, w') \<Rightarrow> page_requests r + requests h (f r) w')"
| "requests h (TimeNow f) = (\<lambda>w. case h_now h w of (r, w') \<Rightarrow> requests h (f r) w')"
| "requests h (RandRead n f) = (\<lambda>w. case h_rand h n w of (r, w') \<Rightarrow> requests h (f r) w')"

text \<open>
  \<open>costs N P p n\<close>: for all replies with listings of at most \<open>N\<close> keys that take at most \<open>P\<close> requests
  each, \<open>p\<close> sends at most \<open>n\<close> requests.
\<close>

primrec costs :: "nat \<Rightarrow> nat \<Rightarrow> 'a prog \<Rightarrow> nat \<Rightarrow> bool" where
  "costs N P (Return x) = (\<lambda>n. True)"
| "costs N P (GetObject k f) = (\<lambda>n. 0 < n \<and> (\<forall>r. costs N P (f r) (n - 1)))"
| "costs N P (PutObject k b inm im f) = (\<lambda>n. 0 < n \<and> (\<forall>r. costs N P (f r) (n - 1)))"
| "costs N P (DeleteObject k im f) = (\<lambda>n. 0 < n \<and> (\<forall>r. costs N P (f r) (n - 1)))"
| "costs N P (DeleteObjects ks f) = (\<lambda>n. 0 < n \<and> (\<forall>r. costs N P (f r) (n - 1)))"
| "costs N P (ListObjects p f) = (\<lambda>n. P \<le> n \<and>
     (\<forall>r. length (concat (fst r)) \<le> N \<and> page_requests r \<le> P \<longrightarrow> costs N P (f r) (n - P)))"
| "costs N P (TimeNow f) = (\<lambda>n. \<forall>r. costs N P (f r) n)"
| "costs N P (RandRead k f) = (\<lambda>n. \<forall>r. costs N P (f r) n)"

lemma one_more: "0 < n \<Longrightarrow> m \<le> n - 1 \<Longrightarrow> Suc m \<le> (n :: nat)"
  by simp

text \<open>The longest listing that a run receives.\<close>

primrec listed :: "'w handler \<Rightarrow> 'a prog \<Rightarrow> 'w \<Rightarrow> nat" where
  "listed h (Return x) = (\<lambda>w. 0)"
| "listed h (GetObject k f) = (\<lambda>w. case h_get h k w of (r, w') \<Rightarrow> listed h (f r) w')"
| "listed h (PutObject k b inm im f) = (\<lambda>w. case h_put h k b inm im w of (r, w') \<Rightarrow> listed h (f r) w')"
| "listed h (DeleteObject k im f) = (\<lambda>w. case h_delete h k im w of (r, w') \<Rightarrow> listed h (f r) w')"
| "listed h (DeleteObjects ks f) = (\<lambda>w. case h_delete_many h ks w of (r, w') \<Rightarrow> listed h (f r) w')"
| "listed h (ListObjects p f) = (\<lambda>w. case h_list h p w of (r, w') \<Rightarrow>
     max (length (concat (fst r))) (listed h (f r) w'))"
| "listed h (TimeNow f) = (\<lambda>w. case h_now h w of (r, w') \<Rightarrow> listed h (f r) w')"
| "listed h (RandRead n f) = (\<lambda>w. case h_rand h n w of (r, w') \<Rightarrow> listed h (f r) w')"

text \<open>The largest number of requests of one listing.\<close>

primrec listing_requests :: "'w handler \<Rightarrow> 'a prog \<Rightarrow> 'w \<Rightarrow> nat" where
  "listing_requests h (Return x) = (\<lambda>w. 0)"
| "listing_requests h (GetObject k f) = (\<lambda>w. case h_get h k w of (r, w') \<Rightarrow> listing_requests h (f r) w')"
| "listing_requests h (PutObject k b inm im f) = (\<lambda>w. case h_put h k b inm im w of (r, w') \<Rightarrow> listing_requests h (f r) w')"
| "listing_requests h (DeleteObject k im f) = (\<lambda>w. case h_delete h k im w of (r, w') \<Rightarrow> listing_requests h (f r) w')"
| "listing_requests h (DeleteObjects ks f) = (\<lambda>w. case h_delete_many h ks w of (r, w') \<Rightarrow> listing_requests h (f r) w')"
| "listing_requests h (ListObjects p f) = (\<lambda>w. case h_list h p w of (r, w') \<Rightarrow>
     max (page_requests r) (listing_requests h (f r) w'))"
| "listing_requests h (TimeNow f) = (\<lambda>w. case h_now h w of (r, w') \<Rightarrow> listing_requests h (f r) w')"
| "listing_requests h (RandRead n f) = (\<lambda>w. case h_rand h n w of (r, w') \<Rightarrow> listing_requests h (f r) w')"

lemma costs_requests: "costs N P p n \<Longrightarrow> listed h p w \<le> N \<Longrightarrow> listing_requests h p w \<le> P \<Longrightarrow> requests h p w \<le> n"
proof (induction p arbitrary: n w)
  case (ListObjects q f)
  obtain r w' where list: "h_list h q w = (r, w')" by fastforce
  with ListObjects.prems have "costs N P (f r) (n - P)" "page_requests r \<le> P" "P \<le> n"
    "listed h (f r) w' \<le> N" "listing_requests h (f r) w' \<le> P" by (cases r; simp)+
  with ListObjects.IH [OF rangeI, of r "n - P" w'] list show ?case by simp
qed (auto split: prod.splits intro!: one_more)

section \<open>A calculus of costs\<close>

lemma costs_mono: "costs N P p a \<Longrightarrow> a \<le> b \<Longrightarrow> costs N P p b"
proof (induction p arbitrary: a b)
  case (ListObjects q f)
  have "costs N P (f r) (b - P)" if "length (concat (fst r)) \<le> N \<and> page_requests r \<le> P" for r
  proof -
    have "costs N P (f r) (a - P)" using ListObjects.prems(1) that by (cases r) simp
    then show ?thesis by (rule ListObjects.IH [OF rangeI]) (use ListObjects.prems(2) in simp)
  qed
  with ListObjects.prems show ?case by simp
qed (simp_all, (metis diff_le_mono less_le_trans rangeI)+)

lemma costs_seq: "costs N P p a \<Longrightarrow> (\<And>x. costs N P (g x) b) \<Longrightarrow> costs N P (call p g) (a + b)"
proof (induction p arbitrary: a)
  case (Return x)
  then show ?case using costs_mono [of N P "g x" b "a + b"] by simp
next
  case (ListObjects q f)
  have "costs N P (call (f r) g) (a + b - P)" if "length (concat (fst r)) \<le> N \<and> page_requests r \<le> P" for r
  proof -
    have "costs N P (f r) (a - P)" "P \<le> a" using ListObjects.prems(1) that by (cases r; simp)+
    with ListObjects.IH [OF rangeI, of r "a - P"] ListObjects.prems(2) show ?thesis by simp
  qed
  with ListObjects.prems(1) show ?case by simp
qed (rename_tac a, case_tac a, simp_all)+

lemma costs_call [cost]:
  "costs N P p a \<Longrightarrow> a \<le> n \<Longrightarrow> (\<And>x. costs N P (g x) (n - a)) \<Longrightarrow> costs N P (call p g) n"
  using costs_seq [of N P p a g "n - a"] by simp

lemma costs_check [cost]:
  "costs N P p a \<Longrightarrow> a \<le> n \<Longrightarrow> (\<And>x. costs N P (g x) (n - a)) \<Longrightarrow> costs N P (check p g) n"
  unfolding check_def by (rule costs_call) (auto split: sum.split)

lemma costs_leaf [cost]:
  "costs N P (Return x) n"
  "(\<And>t. costs N P (f1 t) n) \<Longrightarrow> costs N P (TimeNow f1) n"
  "(\<And>s. costs N P (f2 s) n) \<Longrightarrow> costs N P (RandRead k f2) n"
  by simp_all

lemma costs_cases [cost]:
  "costs N P p n \<Longrightarrow> costs N P q n \<Longrightarrow> costs N P (if b then p else q) n"
  "(\<And>e. costs N P (f e) n) \<Longrightarrow> (\<And>x. costs N P (g x) n) \<Longrightarrow> costs N P (case r of Inl e \<Rightarrow> f e | Inr x \<Rightarrow> g x) n"
  "costs N P p n \<Longrightarrow> (\<And>x. costs N P (g' x) n) \<Longrightarrow> costs N P (case o' of None \<Rightarrow> p | Some x \<Rightarrow> g' x) n"
  "(\<And>x y. costs N P (k x y) n) \<Longrightarrow> costs N P (case xy of (x, y) \<Rightarrow> k x y) n"
  by (auto split: sum.split option.split prod.split)

section \<open>The bounds of the operations\<close>

lemma costs_get [THEN costs_mono, cost]: "costs N P (getWithETag key dec) 1"
  by (simp add: getWithETag_def split: sum.split s3_error.split prod.split body.split option.split)

lemma costs_get_object [THEN costs_mono, cost]: "costs N P (get_object key dec) 1"
  unfolding get_object_def by (rule cost order_refl | simp)+

lemma costs_put_attempts: "costs N P (put_attempts k key b inm im) (Suc k)"
  by (induction k) (auto split: sum.split)

lemma costs_delete_attempts: "costs N P (delete_attempts k key e) (Suc k)"
  by (induction k) (auto split: sum.split)

lemma costs_attempts [THEN costs_mono, cost]: "costs N P (put_attempts 2 key b inm im) 3" "costs N P (delete_attempts 2 key e) 3"
  using costs_put_attempts [of N P 2] costs_delete_attempts [of N P 2] by (simp_all add: numeral_eq_Suc)

lemma costs_delete [THEN costs_mono, cost]: "costs N P (deleteIfMatch key e) 3"
  unfolding deleteIfMatch_def by (rule cost order_refl | simp)+

lemma costs_putConditional [THEN costs_mono, cost]: "costs N P (putConditional key b inm im) 3"
  unfolding putConditional_def by (rule cost order_refl)+

lemma costs_put [THEN costs_mono, cost]: "costs N P (put_object key b inm) 3" "costs N P (putIfMatch key b e) 3"
  unfolding put_object_def putIfMatch_def by (rule cost order_refl | simp)+

lemma costs_putJSON [THEN costs_mono, cost]: "costs N P (putJSON key v inm) 3" "costs N P (putJSONIfMatch key v e) 3"
  unfolding putJSON_def putJSONIfMatch_def by (rule cost order_refl | simp)+

lemma costs_GetStack [THEN costs_mono, cost]: "costs N P (GetStack org project stack) 1" "costs N P (getLegacyLock org project stack) 1"
  unfolding GetStack_def getLegacyLock_def by (rule cost order_refl | simp)+

lemma costs_readCheckpoint: "0 < n \<Longrightarrow> costs N P (readCheckpoint key) n"
  by (simp add: readCheckpoint_def split: sum.split prod.split body.split)

lemma costs_read [THEN costs_mono, cost]:
  "costs N P (GetUpdate org project stack u) 2" "costs N P (GetLock org project stack) 2"
  "costs N P (GetCheckpoint org project stack) 2" "costs N P (GetCheckpointVersion org project stack v) 2"
  unfolding GetUpdate_def GetLock_def GetCheckpoint_def GetCheckpointVersion_def Let_def
  by (rule cost costs_readCheckpoint order_refl | simp)+

lemma costs_NewUpdateID [THEN costs_mono, cost]: "costs N P NewUpdateID 0"
  by (simp add: NewUpdateID_def)

lemma costs_update [THEN costs_mono, cost]:
  "costs N P (StartUpdate org project stack u) 5" "costs N P (CompleteUpdate org project stack u status m c) 5"
  "costs N P (CreateStack org project stack) 3"
  unfolding StartUpdate_def CompleteUpdate_def CreateStack_def Let_def
  by (rule cost order_refl | simp)+

lemma costs_admit [THEN costs_mono, cost]: "costs N P (saveCheckpoint_admit st u g v) 0"
  unfolding saveCheckpoint_admit_def by (rule cost order_refl | simp)+

lemma costs_saveCheckpoint_loop [THEN costs_mono, cost]:
  "costs N P (saveCheckpoint_loop k org project stack inc u g v d ok) (4 * k + 6)"
proof (induction k)
  case (Suc k)
  note IH = costs_mono [OF Suc.IH]
  show ?case unfolding saveCheckpoint_loop.simps Let_def by (rule cost IH order_refl | simp)+
qed simp

lemma costs_SaveCheckpoint [THEN costs_mono, cost]:
  "costs N P (SaveCheckpoint sha org project stack inc u g v d) 30"
  unfolding SaveCheckpoint_def Let_def by (rule cost order_refl | simp)+

lemma costs_commitUpdateVersion_loop [THEN costs_mono, cost]:
  "costs N P (commitUpdateVersion_loop k org project stack u inc g v) (4 * k)"
proof (induction k)
  case (Suc k)
  note IH = costs_mono [OF Suc.IH]
  show ?case unfolding commitUpdateVersion_loop.simps Let_def by (rule cost IH order_refl | simp)+
qed simp

lemma costs_commitUpdateVersion [THEN costs_mono, cost]:
  "costs N P (commitUpdateVersion org project stack u inc g v) 20"
  "costs N P (rollbackUpdate key e err') 3"
  unfolding commitUpdateVersion_def rollbackUpdate_def by (rule cost order_refl | simp)+

lemma costs_previewBarrier [THEN costs_mono, cost]:
  "costs N P (previewBarrier k org project stack inc key e u) (4 * k + 3)"
proof (induction k)
  case (Suc k)
  note IH = costs_mono [OF Suc.IH]
  show ?case unfolding previewBarrier.simps by (rule cost IH order_refl | simp)+
qed (simp add: costs_commitUpdateVersion)

lemma costs_CreateUpdate [THEN costs_mono, cost]:
  "costs N P (CreateUpdate org project stack kind u) 27"
  unfolding CreateUpdate_def createUpdate_record_def createUpdate_existing_def Let_def
  by (rule cost order_refl | simp)+

lemma costs_legacy [THEN costs_mono, cost]:
  "costs N P (deleteLegacyLock org project stack lock) 3" "costs N P (acquireLock_legacy st org project stack) 1"
  "costs N P (current_lock st org project stack) 1"
  unfolding deleteLegacyLock_def acquireLock_legacy_def current_lock_def
  by (rule cost order_refl | simp)+

lemma costs_switch [THEN costs_mono, cost]: "costs N P (acquireLock_switch st legacy u owner ttl) 0"
  unfolding acquireLock_switch_def acquireLock_from_legacy_def acquireLock_new_def
  by (rule cost order_refl | simp)+

lemma costs_acquireLock_loop [THEN costs_mono, cost]:
  "costs N P (acquireLock_loop k org project stack inc u owner ttl) (5 * k + 3)"
proof (induction k)
  case (Suc k)
  note IH = costs_mono [OF Suc.IH]
  show ?case unfolding acquireLock_loop.simps Let_def by (rule cost IH order_refl | simp)+
qed simp

lemma costs_renewLock_loop [THEN costs_mono, cost]:
  "costs N P (renewLock_loop k org project stack u g ttl) (5 * k + 3)"
proof (induction k)
  case (Suc k)
  note IH = costs_mono [OF Suc.IH]
  show ?case unfolding renewLock_loop.simps Let_def by (rule cost IH order_refl | simp)+
qed simp

lemma costs_releaseLock_loop [THEN costs_mono, cost]:
  "costs N P (releaseLock_loop k org project stack u g) (5 * k + 3)"
proof (induction k)
  case (Suc k)
  note IH = costs_mono [OF Suc.IH]
  show ?case unfolding releaseLock_loop.simps Let_def by (rule cost IH order_refl | simp)+
qed simp

lemma costs_lock [THEN costs_mono, cost]:
  "costs N P (AcquireLock org project stack inc u owner ttl) 28"
  "costs N P (RenewLock org project stack u g ttl) 28"
  "costs N P (ReleaseLock org project stack u g) 28"
  unfolding AcquireLock_def RenewLock_def ReleaseLock_def by (rule cost order_refl | simp)+

lemma costs_listStacks_pages [THEN costs_mono, cost]:
  "costs N P (listStacks_pages pages acc) (length (concat pages))"
proof (induction pages arbitrary: acc)
  case (Cons page pages)
  have "costs N P (listStacks_page page acc) (length page)" for acc
  proof (induction page arbitrary: acc)
    case (Cons key page)
    note IH = costs_mono [OF Cons.IH]
    show ?case unfolding listStacks_page.simps by (rule cost IH order_refl | simp)+
  qed simp
  note page = costs_mono [OF this] and IH = costs_mono [OF Cons.IH]
  show ?case unfolding listStacks_pages.simps by (rule cost page IH order_refl | simp)+
qed simp

lemma costs_listUpdates_pages [THEN costs_mono, cost]:
  "costs N P (listUpdates_pages pages inc acc) (length (concat pages))"
proof (induction pages arbitrary: acc)
  case (Cons page pages)
  have "costs N P (listUpdates_page page inc acc) (length page)" for acc
  proof (induction page arbitrary: acc)
    case (Cons key page)
    note IH = costs_mono [OF Cons.IH]
    show ?case unfolding listUpdates_page.simps by (rule cost IH order_refl | simp)+
  qed simp
  note page = costs_mono [OF this] and IH = costs_mono [OF Cons.IH]
  show ?case unfolding listUpdates_pages.simps by (rule cost page IH order_refl | simp)+
qed simp

lemma costs_ListObjects [cost]:
  "P \<le> n \<Longrightarrow> (\<And>pages e. length (concat pages) \<le> N \<Longrightarrow> costs N P (g pages e) (n - P)) \<Longrightarrow>
   costs N P (ListObjects p (\<lambda>(pages, e). g pages e)) n"
  by simp

lemma costs_list [THEN costs_mono, cost]:
  "costs N P (ListStacks org) (P + N)" "costs N P (ListUpdates org project stack) (1 + P + N)"
  unfolding ListStacks_def ListUpdates_def Let_def
  by (rule cost order_refl | simp)+

lemma costs_validateDeletionFence [THEN costs_mono, cost]: "costs N P (validateDeletionFence st u g) 1"
  unfolding validateDeletionFence_def by (rule cost order_refl | simp)+

text \<open>The keys are deleted in batches of 1000, each after a look at the fence.\<close>

lemma costs_deleteObjects_loop: "costs N P (deleteObjects_loop st u g objects) (2 * ((length objects + 999) div 1000))"
proof (induction "length objects" arbitrary: objects rule: less_induct)
  case less
  show ?case
  proof (cases objects)
    case Nil
    then show ?thesis by (subst deleteObjects_loop.simps) simp
  next
    case (Cons a list)
    define B where "B = (length objects + 999) div 1000"
    have "(length (drop 1000 objects) + 999) div 1000 + 1 \<le> B"
      using Cons by (cases "length objects \<le> 1000") (auto simp: B_def)
    then have "costs N P (deleteObjects_loop st u g (drop 1000 objects)) (2 * B - 1 - 1)"
      by (intro costs_mono [OF less]) (use Cons in auto)
    moreover have "2 \<le> 2 * B" using Cons by (auto simp: B_def)
    ultimately show ?thesis unfolding B_def [symmetric]
      by (subst deleteObjects_loop.simps)
        (auto intro!: costs_check [OF costs_validateDeletionFence [OF order_refl]] split: sum.split list.split prod.split)
  qed
qed

text \<open>What is listed are at most \<open>N\<close> keys.\<close>

lemma costs_listing:
  assumes "P \<le> n" "\<And>objects. length objects \<le> N \<Longrightarrow> costs N P (k objects) (n - P)"
  shows "costs N P (check (listStackIncarnationObjects org project stack inc) k) n"
proof -
  have len: "length (filter A (filter B xs)) \<le> N" if "length xs \<le> N" for A B and xs :: "string list"
    using that le_trans length_filter_le by metis
  have len': "length (filter A xs) \<le> N" if "length xs \<le> N" for A and xs :: "string list"
    using that le_trans length_filter_le by metis
  show ?thesis using assms
    by (auto simp: listStackIncarnationObjects_def listObjectsExcept_def Let_def check_def len len'
      split: option.split)
qed

lemma costs_DeleteStack [THEN costs_mono, cost]:
  "costs N P (DeleteStack org project stack inc u g) (5 + 2 * P + 2 * ((N + 999) div 1000))"
proof -
  have loop: "costs N P (deleteObjects_loop st u g objects) n"
    if "length objects \<le> N" "2 * ((N + 999) div 1000) \<le> n" for st objects n
    by (rule costs_mono [OF costs_deleteObjects_loop]) (use that div_le_mono [of "length objects + 999" "N + 999" 1000] in simp)
  show ?thesis unfolding DeleteStack_def by (rule costs_listing loop cost order_refl | assumption | simp)+
qed

lemma costs_forget [cost]: "costs N P p n \<Longrightarrow> costs N P (forget p) n"
  unfolding forget_def using costs_seq [of N P p n "\<lambda>_. Return ()" 0] by simp

section \<open>Every operation is bounded\<close>

text \<open>The bound of each operation, for listings of at most \<open>N\<close> keys in at most \<open>P\<close> requests.\<close>

fun op_bound :: "nat \<Rightarrow> nat \<Rightarrow> store_op \<Rightarrow> nat" where
  "op_bound N P (Op_CreateStack org project stack) = 3"
| "op_bound N P (Op_GetStack org project stack) = 1"
| "op_bound N P (Op_ListStacks org) = P + N"
| "op_bound N P (Op_DeleteStack org project stack incarnation updateID generation) =
     5 + 2 * P + 2 * ((N + 999) div 1000)"
| "op_bound N P (Op_GetCheckpoint org project stack) = 2"
| "op_bound N P (Op_GetCheckpointVersion org project stack version) = 2"
| "op_bound N P (Op_SaveCheckpoint org project stack incarnation updateID generation version deployment) = 30"
| "op_bound N P (Op_CreateUpdate org project stack kind updateID) = 27"
| "op_bound N P (Op_GetUpdate org project stack updateID) = 2"
| "op_bound N P (Op_StartUpdate org project stack updateID) = 5"
| "op_bound N P (Op_CompleteUpdate org project stack updateID status message resourceChanges) = 5"
| "op_bound N P (Op_ListUpdates org project stack) = 1 + P + N"
| "op_bound N P (Op_AcquireLock org project stack incarnation updateID owner ttl) = 28"
| "op_bound N P (Op_RenewLock org project stack updateID generation ttl) = 28"
| "op_bound N P (Op_ReleaseLock org project stack updateID generation) = 28"
| "op_bound N P (Op_GetLock org project stack) = 2"

lemma costs_op: "costs N P (op_prog sha op) (op_bound N P op)"
  by (cases op; simp only: op_prog.simps op_bound.simps; (rule cost order_refl)+)

text \<open>
  C10. The requests of every operation of the store are bounded, whatever the service answers: by
  a constant, or, for the operations that list, by the number of requests of a listing (one for
  each page; a deletion lists twice) plus a constant and one request per listed key (\<^verbatim>\<open>ListStacks\<close>, \<^verbatim>\<open>ListUpdates\<close>) or two per thousand
  keys (\<^verbatim>\<open>DeleteStack\<close>). Conflicts and lost conditional writes are retried, but only as often as
  the loops allow. That the service ends a listing at some page is not claimed.
\<close>

theorem requests_bounded:
  "requests h (op_prog sha op) w \<le>
     op_bound (listed h (op_prog sha op) w) (listing_requests h (op_prog sha op) w) op"
  by (rule costs_requests [OF costs_op]) simp_all

end
