(* ===== verification/Responses.thy ===== *)
theory Responses
  imports Routes Store_Cost
begin

text \<open>
  The form of the responses. Whatever the requests and whatever the bucket, the clock and the
  random generator answer, the response of the server has one of a fixed set of statuses and a body of
  the form that belongs to it. The proofs follow the text of the handlers by a small
  calculus for results of programs.
\<close>

section \<open>Results for all replies\<close>

text \<open>
  \<open>yields Q p\<close>: whatever replies \<open>p\<close> receives, its result satisfies \<open>Q\<close>. Listings have fewer than
  \<open>2^62\<close> keys, so that the number of what is listed is an \<^verbatim>\<open>int\<close> in Go with room for one more page.
\<close>

primrec yields :: "('a \<Rightarrow> bool) \<Rightarrow> 'a prog \<Rightarrow> bool" where
  "yields Q (Return x) = Q x"
| "yields Q (GetObject k f) = (\<forall>r. yields Q (f r))"
| "yields Q (PutObject k b inm im f) = (\<forall>r. yields Q (f r))"
| "yields Q (DeleteObject k im f) = (\<forall>r. yields Q (f r))"
| "yields Q (DeleteObjects ks f) = (\<forall>r. yields Q (f r))"
| "yields Q (ListObjects p f) = (\<forall>pages e. length (concat pages) < 2 ^ 62 \<longrightarrow> yields Q (f (pages, e)))"
| "yields Q (TimeNow f) = (\<forall>r. yields Q (f r))"
| "yields Q (RandRead n f) = (\<forall>r. yields Q (f r))"

lemma yields_run: "yields Q p \<Longrightarrow> listed h p w < 2 ^ 62 \<Longrightarrow> Q (fst (run h p w))"
proof (induction p arbitrary: w)
  case (ListObjects q f)
  obtain pages e w' where list: "h_list h q w = ((pages, e), w')" by (metis surj_pair)
  with ListObjects.prems have "yields Q (f (pages, e))" "listed h (f (pages, e)) w' < 2 ^ 62" by simp_all
  from ListObjects.IH [OF rangeI this] list show ?case by simp
qed (simp_all split: prod.splits)

lemma yields_bind: "yields R p \<Longrightarrow> (\<And>x. R x \<Longrightarrow> yields Q (g x)) \<Longrightarrow> yields Q (call p g)"
proof (induction p)
  case (ListObjects q f)
  then show ?case by (simp add: ListObjects.IH [OF rangeI])
qed simp_all

lemma yields_any: "yields (\<lambda>_. True) p"
  by (induction p) simp_all

lemma yields_call [result]: "(\<And>x. yields Q (g x)) \<Longrightarrow> yields Q (call p g)"
  by (rule yields_bind [OF yields_any])

lemma yields_attempt [result]:
  "(\<And>err. yields Q (failed err)) \<Longrightarrow> (\<And>x. yields Q (k x)) \<Longrightarrow> yields Q (attempt p failed k)"
  unfolding attempt_def by (rule yields_call) (simp split: sum.split)

lemma yields_leaf [result]: "(\<And>t. yields Q (f t)) \<Longrightarrow> yields Q (TimeNow f)" "Q x \<Longrightarrow> yields Q (Return x)"
  by simp_all

lemma yields_cases [result]:
  "(b \<Longrightarrow> yields Q p) \<Longrightarrow> (\<not> b \<Longrightarrow> yields Q q) \<Longrightarrow> yields Q (if b then p else q)"
  "(\<And>e. z = Inl e \<Longrightarrow> yields Q (f e)) \<Longrightarrow> (\<And>x. z = Inr x \<Longrightarrow> yields Q (g x)) \<Longrightarrow>
     yields Q (case z of Inl e \<Rightarrow> f e | Inr x \<Rightarrow> g x)"
  "(z' = None \<Longrightarrow> yields Q p) \<Longrightarrow> (\<And>x. z' = Some x \<Longrightarrow> yields Q (g' x)) \<Longrightarrow>
     yields Q (case z' of None \<Rightarrow> p | Some x \<Rightarrow> g' x)"
  "(\<And>x y. yields Q (k x y)) \<Longrightarrow> yields Q (case xy of (x, y) \<Rightarrow> k x y)"
  "yields Q p \<Longrightarrow> (\<And>x xs. yields Q (g'' x xs)) \<Longrightarrow> yields Q (case zs of [] \<Rightarrow> p | x # xs \<Rightarrow> g'' x xs)"
  by (auto split: sum.split option.split prod.split list.split)

section \<open>The form of a response\<close>

text \<open>The texts that the server sends with status 500.\<close>

definition internal_messages :: "string list" where
  "internal_messages = [
     ''acquiring lock failed'', ''cancelling update failed'', ''committing pending update failed'', ''completing import failed'',
     ''completing update failed'', ''creating import update failed'', ''creating stack failed'', ''creating update failed'',
     ''deleting stack failed'', ''encryption failed'', ''listing stacks failed'', ''listing updates failed'',
     ''locking stack for deletion failed'', ''reading checkpoint failed'', ''reading stack checkpoint failed'',
     ''reading stack failed'', ''reading stack for deletion failed'', ''reading update failed'', ''reading update lock failed'',
     ''releasing update lock failed'', ''renewing deletion lock failed'', ''renewing lease failed'',
     ''renewing pending update lock failed'', ''renewing update lock failed'', ''saving checkpoint failed'',
     ''saving initial state failed'', ''secrets encryption unavailable'', ''starting import update failed'',
     ''starting update failed'', ''token issuance failed'']"

definition error_response :: "response \<Rightarrow> bool" where
  "error_response resp \<longleftrightarrow> (\<exists>code message. resp = writeError code message \<and> code \<in> {400, 401, 403, 404, 409, 413, 500} \<and>
     (code = 500 \<longrightarrow> message \<in> set internal_messages))"

definition proper_response :: "response \<Rightarrow> bool" where
  "proper_response resp \<longleftrightarrow>
     (\<exists>j. resp = writeJSON 200 j) \<or> resp = WriteHeader 204 \<or> error_response resp \<or>
     resp = \<lparr>rs_Status = 200, rs_Body = TextBody ''ok''\<rparr> \<or>
     resp \<in> {http_Error ''Method Not Allowed'' 405, http_Error ''404 page not found'' 404}"

abbreviation proper :: "response prog \<Rightarrow> bool" where
  "proper p \<equiv> yields proper_response p"

lemma error_writeError:
  "code \<in> {400, 401, 403, 404, 409, 413, 500} \<Longrightarrow> (code = 500 \<longrightarrow> m \<in> set internal_messages) \<Longrightarrow>
     error_response (writeError code m)"
  unfolding error_response_def by blast

lemma error_intro [result]:
  "code \<in> {400, 401, 403, 404, 409, 413} \<Longrightarrow> error_response (writeError code m)"
  "m \<in> set internal_messages \<Longrightarrow> error_response (writeError 500 m)"
  "m \<in> set internal_messages \<Longrightarrow> error_response (internalError err m)"
  "m \<in> set internal_messages \<Longrightarrow> error_response (writeStoreError err m)"
  by (auto simp: internalError_def writeStoreError_def storeError_def error_writeError split: option.split)

lemma decode_error_intro [result]: "error_response (writeDecodeError err m)"
  by (simp add: writeDecodeError_def error_intro)

lemma proper_intro [result]:
  "proper_response (writeJSON 200 j)" "proper_response (WriteHeader 204)" "error_response resp \<Longrightarrow> proper_response resp"
  by (auto simp: proper_response_def)

lemma proper_fail [result]: "m \<in> set internal_messages \<Longrightarrow> proper (store_fail m err)"
  by (simp add: store_fail_def proper_intro error_intro)

lemmas message = internal_messages_def

section \<open>The handlers\<close>

lemma proper_auth [result]:
  "proper (capabilities s r)" "proper (whoami s r)" "proper (defaultOrg s r)" "proper (listUserStacks s r)"
  "proper (listOrgStacks s r)" "proper (tokenExchange s r)"
  unfolding capabilities_def whoami_def defaultOrg_def listUserStacks_def listOrgStacks_def listStacks_def tokenExchange_def Let_def
  by (intro result; simp add: message)+

lemma proper_healthz [result]: "proper (healthz s r)"
  by (simp add: healthz_def proper_response_def)

text \<open>Routines that answer themselves, or hand a value on.\<close>

abbreviation answers :: "(response + 'a) prog \<Rightarrow> bool" where
  "answers p \<equiv> yields (\<lambda>x. case x of Inl resp \<Rightarrow> proper_response resp | Inr v \<Rightarrow> True) p"

lemma proper_or [result]:
  assumes "answers p" "\<And>v. proper (k v)"
  shows "proper (call p (\<lambda>x. case x of Inl resp \<Rightarrow> Return resp | Inr v \<Rightarrow> k v))"
  using assms by (intro yields_bind [OF assms(1)]) (auto split: sum.splits)

lemma proper_or_pair [result]:
  assumes "answers p" "\<And>u v. proper (k u v)"
  shows "proper (call p (\<lambda>x. case x of Inl resp \<Rightarrow> Return resp | Inr (u, v) \<Rightarrow> k u v))"
  using assms by (intro yields_bind [OF assms(1)]) (auto split: sum.splits)

lemma answers_locks [result]: "answers (requireLiveLock r updateID g)" "answers (own_lock r)"
  "answers (deleteStack_lock s r st u)" "answers (encryptOne r c x)"
  unfolding requireLiveLock_def own_lock_def deleteStack_lock_def encryptOne_def Let_def
  by (intro result; simp add: message result)+

lemma proper_live_lock [result]: "(\<And>l. proper (k l)) \<Longrightarrow> proper (with_live_lock r updateID g k)"
  "(\<And>l. proper (k' l)) \<Longrightarrow> proper (with_own_lock r u k')"
  unfolding with_live_lock_def with_own_lock_def by (intro result; simp)+

lemma proper_release [result]: "proper (release_then r g)" "proper (release_own r lock)"
  unfolding release_own_def release_then_def by (intro result; simp add: message)+

lemma proper_scope: "requireUpdateScope s r = Some resp \<Longrightarrow> error_response resp"
  "authorize s r a org project stack = Some resp \<Longrightarrow> error_response resp"
  "authorizeProject s r a org project = Some resp \<Longrightarrow> error_response resp"
  "requireCrypter s = Inl resp \<Longrightarrow> error_response resp"
  "decryptOne r c ct = Inl resp \<Longrightarrow> error_response resp"
  by (auto simp: requireUpdateScope_def authorize_def authorizeProject_def requireCrypter_def decryptOne_def message
      intro!: result split: if_splits option.splits sum.splits)

lemma proper_updates [result]:
  "proper (createUpdate s r)" "proper (startUpdate s r)" "proper (getUpdateStatus s r)" "proper (patchCheckpoint s r)"
  "proper (patchCheckpointVerbatim s r)" "proper (completeUpdate s r)" "proper (renewLease s r)" "proper (cancelUpdate s r)"
  "proper (discardEvents s r)" "proper (getLatestUpdate s r)" "proper (getUpdateByVersion s r)"
  unfolding createUpdate_def createUpdate_held_def createUpdate_record_api_def startUpdate_def startUpdate_issue_def
    getUpdateStatus_def patchCheckpoint_def patchCheckpointVerbatim_def saveCheckpointForUpdate_def completeUpdate_def
    completeUpdate_again_def completeUpdate_finish_def renewLease_def renewLease_issue_def cancelUpdate_def discardEvents_def
    getLatestUpdate_def getUpdateByVersion_def Let_def
  by (intro result; simp add: message proper_scope)+

lemma proper_stacks [result]:
  "proper (createStack s r)" "proper (headProject s r)" "proper (getStack s r)" "proper (exportStack s r)"
  "proper (encryptValue s r)" "proper (decryptValue s r)"
  unfolding createStack_def createStack_state_def headProject_def getStack_def exportStack_def encryptValue_def decryptValue_def Let_def
  by (intro result; simp add: message proper_scope)+

lemma proper_keep: "proper p \<Longrightarrow> proper (call p (\<lambda>resp. call (q resp) (\<lambda>_. Return resp)))"
  by (erule yields_bind) (rule yields_call, simp)

lemma proper_importStack [result]: "proper (importStack s r)"
  unfolding importStack_def importStack_locked_def Let_def by (intro proper_keep result; simp add: message)

lemma proper_deleteStack [result]: "proper (deleteStack s r)"
proof -
  have check: "yields (\<lambda>x. case x of None \<Rightarrow> True | Some resp \<Rightarrow> proper_response resp) (deleteStack_check r)"
    unfolding deleteStack_check_def by (intro result; simp add: message result)
  have step: "proper (call (deleteStack_check r) (\<lambda>refused. case refused of
      Some resp \<Rightarrow> call (p resp) (\<lambda>_. Return resp) | None \<Rightarrow> q))" if "proper q" for p :: "response \<Rightarrow> unit prog" and q
    by (rule yields_bind [OF check]) (auto intro!: yields_call that split: option.splits)
  show ?thesis unfolding deleteStack_def Let_def by (intro proper_or_pair step result; simp add: message)
qed

lemma proper_batch [result]: "proper (batchEncrypt s r)" "proper (batchDecrypt s r)"
proof -
  have enc: "proper (batchEncrypt_loop r c ps out)" for c ps out
    by (induction ps arbitrary: out) (simp_all add: proper_or answers_locks result)
  have dec: "proper_response (batchDecrypt_loop r c cts out)" for c cts out
    by (induction cts arbitrary: out) (auto intro!: result dest: proper_scope split: sum.splits)
  show "proper (batchEncrypt s r)" "proper (batchDecrypt s r)"
    unfolding batchEncrypt_def batchDecrypt_def by (intro enc dec result; simp add: proper_scope message)+
qed

text \<open>The history has at most as many updates as the listing has keys.\<close>

abbreviation lists_below :: "nat \<Rightarrow> (error + 'a list) prog \<Rightarrow> bool" where
  "lists_below n p \<equiv> yields (\<lambda>x. case x of Inl err \<Rightarrow> True | Inr xs \<Rightarrow> length xs < n) p"

lemma lists_check: "yields R p \<Longrightarrow> (\<And>x. R (Inr x) \<Longrightarrow> lists_below n (g x)) \<Longrightarrow> lists_below n (check p g)"
  unfolding check_def by (erule yields_bind) (auto split: sum.split)

lemma lists_page: "length updates + length page < n \<Longrightarrow> lists_below n (listUpdates_page page inc updates)"
proof (induction page arbitrary: updates)
  case (Cons key page)
  then show ?case unfolding listUpdates_page.simps by (intro lists_check [OF yields_any]) simp
qed simp

lemma lists_pages: "length updates + length (concat pages) < n \<Longrightarrow> lists_below n (listUpdates_pages pages inc updates)"
proof (induction pages arbitrary: updates)
  case (Cons page pages)
  have "length updates + length page < n - length (concat pages)" using Cons.prems by simp
  from lists_page [OF this] show ?case
    unfolding listUpdates_pages.simps by (rule lists_check) (use Cons.IH in simp)
qed simp

lemma lists_ListUpdates: "lists_below (2 ^ 62) (ListUpdates org project stack)"
proof -
  have pages: "lists_below n (check (listUpdates_pages pages inc []) (\<lambda>updates. case err of
      Some e \<Rightarrow> Return (Inl (f e)) | None \<Rightarrow> Return (Inr (sort_key key updates))))"
    if "length (concat pages) < n" for pages inc err f n and key :: "update \<Rightarrow> int"
    by (rule lists_check [OF lists_pages [of _ _ n]]) (use that in \<open>simp_all split: option.split\<close>)
  show ?thesis unfolding ListUpdates_def Let_def
    by (rule lists_check [OF yields_any]) (simp only: yields.simps prod.case, intro allI impI pages)
qed

lemma proper_getStackUpdates [result]: "proper (getStackUpdates s r)"
proof -
  have page: "proper_response (page_response r (historicalUpdates updates))" if "length updates < 2 ^ 62" for updates
  proof -
    have "length (historicalUpdates updates) < 2 ^ 62"
      unfolding historicalUpdates_def by (rule le_less_trans [OF length_filter_le that])
    from page_response_spec [OF this] show ?thesis by (simp add: proper_intro error_intro split: option.split)
  qed
  show ?thesis
    unfolding getStackUpdates_def attempt_def
    by (rule yields_bind [OF lists_ListUpdates]) (auto simp: message intro!: result page split: sum.splits)
qed

section \<open>The server\<close>

lemma proper_admit [result]: "(\<And>r. proper (nxt s r)) \<Longrightarrow> proper (admit s a nxt r ident uc)"
  unfolding admit_def Let_def by (intro result; simp add: proper_scope split: if_splits)

lemma proper_authMiddleware [result]: "(\<And>r. proper (nxt s r)) \<Longrightarrow> proper (authMiddleware u a nxt s r)"
  unfolding authMiddleware_def Let_def by (intro result; simp)

lemma proper_routes: "rt \<in> set routes \<Longrightarrow> proper (rt_Handler rt s r)"
  by (simp add: routes_def open_routes_def user_routes_def update_routes_def userAuthed_def updateAuthed_def)
    (elim disjE; simp add: result)

lemma proper_dispatch: "proper (mux_dispatch s method segs r)"
  unfolding mux_dispatch_def
  by (auto simp: proper_response_def intro: proper_routes dest: find_route_mem split: option.split)

text \<open>
  C9. The form of the responses. For every request, every server state and whatever the bucket
  and the other services answer, as long as no listing has \<open>2^62\<close> keys: a path that is not clean is
  redirected and the target \<^verbatim>\<open>*\<close> refused with 400; for every other request the response is one of
  these: 200 with a JSON document (the text \<^verbatim>\<open>ok\<close> for \<^verbatim>\<open>/healthz\<close>), 204 without a body, an error 400,
  401, 403, 404, 409, 413 or 500 whose JSON body repeats the code and carries a message, or
  the plain 404 and 405 of the router. With status 500 the message is one of the fixed texts, so
  that nothing of an internal error reaches the client. In particular the 64-bit
  arithmetic and the slice expression of the paging of histories do not panic for any query
  (panics are represented for that code only).
\<close>

theorem responses_are_proper:
  assumes "listed h (ServeHTTP s method path r) w < 2 ^ 62"
  shows "(if path = ''*'' then fst (run h (ServeHTTP s method path r) w) = WriteHeader 400
     else if method \<noteq> ''CONNECT'' \<and> cleanPath path \<noteq> path then fst (run h (ServeHTTP s method path r) w) = mux_redirect
     else proper_response (fst (run h (ServeHTTP s method path r) w))) \<and>
   fst (run h (ServeHTTP s method path r) w) \<noteq> panicked"
proof -
  have proper: "proper_response (fst (run h (mux_dispatch s method (path_segments path) r) w))"
    if "listed h (mux_dispatch s method (path_segments path) r) w < 2 ^ 62"
    by (rule yields_run [OF proper_dispatch that])
  have "\<not> proper_response panicked"
    by (auto simp: proper_response_def error_response_def panicked_def writeError_def writeJSON_def WriteHeader_def http_Error_def)
  moreover have "WriteHeader 400 \<noteq> panicked" "mux_redirect \<noteq> panicked"
    by (simp_all add: panicked_def mux_redirect_def WriteHeader_def)
  ultimately show ?thesis using assms proper unfolding ServeHTTP_def by (auto split: if_splits)
qed

text \<open>A method that no route has, and a path with a doubled slash.\<close>

lemma no_put: "find_route ''PUT'' segs = None"
proof -
  have "mux_match [] segs = None" for segs by (induction segs) simp_all
  moreover have "method_table ''PUT'' = []"
    by (simp add: method_table_def routes_def open_routes_def user_routes_def update_routes_def userAuthed_def updateAuthed_def)
  ultimately show ?thesis by (simp add: find_route_def)
qed

theorem responses_are_proper_witness:
  "proper_response (fst (run ref_service (ServeHTTP demo_server ''PUT'' ''/healthz'' plain_request) (world_at 0))) \<and>
   fst (run ref_service (ServeHTTP demo_server ''GET'' ''//healthz'' plain_request) (world_at 0)) = mux_redirect"
proof -
  have clean: "cleanPath ''/healthz'' = ''/healthz''" "cleanPath ''//healthz'' = ''/healthz''" by code_simp+
  have "listed ref_service (ServeHTTP demo_server ''PUT'' ''/healthz'' plain_request) (world_at 0) = 0"
    "listed ref_service (ServeHTTP demo_server ''GET'' ''//healthz'' plain_request) (world_at 0) = 0"
    by (simp_all add: ServeHTTP_def mux_dispatch_def no_put clean)
  with responses_are_proper [of ref_service demo_server "''PUT''" "''/healthz''" plain_request "world_at 0"]
    responses_are_proper [of ref_service demo_server "''GET''" "''//healthz''" plain_request "world_at 0"] clean
  show ?thesis by simp
qed

section \<open>Where the mapping of errors deviates\<close>

text \<open>
  The texts of conflicts are not fixed: when the rollback of an update's record fails, the
  conflict that is reported carries the text of the failed request to the bucket.
\<close>

lemma conflict_shows_failed_request:
  assumes "h_delete h key etag w = (Inl (ClientError t), w')" "etag \<noteq> ''''"
  shows "run h (attempt (rollbackUpdate key etag ErrConcurrentMutation) (store_fail message) k) w =
    (writeError 409 (''concurrent state mutation'' @ [CHR 0x0A] @ ''rollback update record: delete '' @ key @ '': '' @ t), w')"
proof -
  have "run h (delete_attempts 2 key etag) w = (Inl (ClientError t), w')"
    using assms(1) by (simp add: numeral_2_eq_2 isConditionalConflict_def)
  with assms(2) show ?thesis
    by (simp add: rollbackUpdate_def deleteIfMatch_def attempt_def store_fail_def writeStoreError_def storeError_def)
qed

text \<open>
  A stack that does not exist is a 404 for \<^verbatim>\<open>getStack\<close> and a 500 for the history of the same
  stack.
\<close>

lemma missing_stack_statuses:
  assumes "h_get h (stackKey (PathValue r ''org'') (PathValue r ''project'') (PathValue r ''stack'')) w = (Inl (NoSuchKey t), w')"
  shows "run h (getStack s r) w = (writeError 404 ''stack not found'', w')"
    and "run h (getStackUpdates s r) w = (writeError 500 ''listing updates failed'', w')"
    and "run h (getLatestUpdate s r) w = (writeError 500 ''listing updates failed'', w')"
  using assms
  by (simp_all add: getStack_def getStackUpdates_def getLatestUpdate_def attempt_def ListUpdates_def GetStack_def getWithETag_def
      isNotFound_def store_fail_def writeStoreError_def storeError_def internalError_def Let_def)

end
