(* ===== verification/Store_Invariant.thy ===== *)
theory Store_Invariant
  imports Store_System
begin

text \<open>
  An invariant of all stack documents, over all executions of the concurrent system of
  \<open>Store_System\<close>.
\<close>

section \<open>Sound documents\<close>

text \<open>
  A sound document: it has an incarnation; its lock carries a generation that is not above the
  fence, and not the generation 0 of the first version of the program; its latest checkpoint is the
  one recorded for some version. The fence counts 64 bits; when it is used up, generations are no
  longer unique, and nothing more is claimed of them.
\<close>

definition sound_doc :: "stack \<Rightarrow> bool" where
  "sound_doc st \<longleftrightarrow> st_Incarnation st \<noteq> '''' \<and>
     (\<forall>l. st_Lock st = Some l \<longrightarrow> l_Generation l \<le> st_Fence st \<and> (st_Fence st \<noteq> - 1 \<longrightarrow> l_Generation l \<noteq> 0)) \<and>
     (st_CheckpointVersions st = [] \<and> st_LatestCheckpointKey st = '''' \<or>
      (\<exists>v. sm_get (st_CheckpointVersions st) v = Some (st_LatestCheckpointKey st)))"

lemma fresh_sound: "fresh_doc st \<Longrightarrow> sound_doc st"
  by (simp add: fresh_doc_def sound_doc_def)

lemma sound_step:
  assumes "doc_step T ev st st'" "sound_doc st"
  shows "sound_doc st'"
proof -
  have succ: "st_Fence st + 1 \<noteq> 0 \<and> st_Fence st < st_Fence st + 1" if "st_Fence st \<noteq> - 1"
    using word_less_succ [OF that] that by (simp add: eq_neg_iff_add_eq_0)
  have keep: "max a b = - 1" if "a = - 1" for a b :: uint64
    using that by (simp add: max_def word_order.extremum_unique)
  show ?thesis
    using assms(1)
  proof (cases rule: doc_step.cases)
    case (grant l)
    then show ?thesis using assms(2) keep [of "st_Fence st" "l_Generation l"] word_not_simps(1)
      by (auto simp: sound_doc_def with_lock_def)
  next
    case (renew u l g t)
    then show ?thesis using assms(2) succ keep [of "st_Fence st" g]
      by (auto simp: sound_doc_def with_lock_def)
  next
    case (save_state u g v key)
    then show ?thesis using assms(2) by (auto simp: sound_doc_def record_checkpoint_def)
  qed (use assms(2) in \<open>auto simp: sound_doc_def with_lock_def\<close>)
qed

text \<open>The object under \<open>k\<close> is absent, or a sound document.\<close>

definition sound_at :: "('w \<Rightarrow> string \<Rightarrow> (body \<times> string) option) \<Rightarrow> 'w system \<Rightarrow> string \<Rightarrow> bool" where
  "sound_at objs s k \<longleftrightarrow> objs (fst s) k = None \<or> (\<exists>st. doc_at objs s k st \<and> sound_doc st)"

lemma sound_change:
  assumes "doc_change E T (objs (fst s) k) (objs (fst s') k)" "sound_at objs s k"
  shows "sound_at objs s' k"
  using assms(1)
proof (cases rule: doc_change.cases)
  case same
  with assms(2) show ?thesis by (simp add: sound_at_def doc_at_def)
next
  case (created b st e)
  then show ?thesis using fresh_sound by (auto simp: sound_at_def doc_at_def)
next
  case (changed b st b' st' ev e e')
  then have "sound_doc st" using assms(2) by (auto simp: sound_at_def doc_at_def)
  with changed sound_step show ?thesis by (auto simp: sound_at_def doc_at_def)
qed (simp add: sound_at_def)

text \<open>
  C3. Soundness of the stored documents. Suppose that at the start every stack document of the
  bucket is sound or absent, as in an empty bucket. Then this is so in every state that the
  clients can reach from there, whatever the interleaving of their requests and whichever
  requests fail: no document is ever torn, loses its incarnation, holds a lock beyond its fence or
  points to a checkpoint that it does not record.
\<close>

theorem stored_documents_stay_sound:
  assumes service: "s3_service h objs content clock"
    and start: "\<forall>org project stack. ref_ok org project stack \<longrightarrow> sound_at objs (w, \<lambda>_. None) (stackKey org project stack)"
    and run: "(\<lambda>s s'. \<exists>a. sys_step h objs clock sha s a s')\<^sup>*\<^sup>* (w, \<lambda>_. None) s"
    and ok: "ref_ok org project stack"
  shows "sound_at objs s (stackKey org project stack)"
proof -
  have "reachable h objs clock sha s \<and> sound_at objs s (stackKey org project stack)"
    using run
  proof (induction rule: rtranclp_induct)
    case base
    show ?case using start ok by (simp add: reachable.start)
  next
    case (step s s')
    then obtain a where a: "sys_step h objs clock sha s a s'" by blast
    have key: "is_stack_key (stackKey org project stack)" using ok by (auto simp: is_stack_key_def)
    from s3_service.reachable_change [OF service _ a] step.IH key obtain T where
      "doc_change (label_events a (stackKey org project stack)) T (objs (fst s) (stackKey org project stack))
         (objs (fst s') (stackKey org project stack))" by blast
    with step.IH a sound_change reachable.step show ?case by blast
  qed
  then show ?thesis ..
qed

text \<open>The release of a lock, from the first request to the last.\<close>

lemma demo_execution: "(\<lambda>s s'. \<exists>a. ref_step s a s')\<^sup>*\<^sup>* (demo_bucket (Some (demo_lock ''u1'')), \<lambda>_. None) (demo_state 2)"
proof -
  have "\<exists>a. ref_step (demo_bucket (Some (demo_lock ''u1'')), \<lambda>_. None) a (demo_state 0)"
    using begin_op [where cs = "\<lambda>_. None" and i = 0 and op = demo_op and h = ref_service and objs = ref_tagged and clock = bk_clock]
    by (intro exI [of _ None]) (simp add: solo_def op_ok_def demo_ref)
  moreover have "\<exists>a. ref_step (demo_state 0) a (demo_state 1)" "\<exists>a. ref_step (demo_state 1) a (demo_state 2)"
    by (rule exI, rule demo_steps)+
  ultimately show ?thesis by (rule rtranclp.rtrancl_into_rtrancl [OF rtranclp.rtrancl_into_rtrancl [OF r_into_rtranclp]])
qed

lemma demo_sound_start:
  assumes "ref_ok org project stack"
  shows "sound_at ref_tagged (demo_bucket (Some (demo_lock ''u1'')), \<lambda>_. None) (stackKey org project stack)"
proof (cases "stackKey org project stack = demo_key")
  case True
  have "sound_doc (demo_stack (Some (demo_lock ''u1'')))"
    by (simp add: sound_doc_def demo_stack_def zero_stack_def demo_lock_def)
  then show ?thesis using demo_doc [of "(demo_bucket (Some (demo_lock ''u1'')), \<lambda>_. None)" "Some ''u1''"] True
    by (auto simp: sound_at_def)
next
  case False
  then show ?thesis by (simp add: sound_at_def with_etag_def demo_bucket_def ref_objs_def)
qed

theorem stored_documents_stay_sound_witness: "sound_at ref_tagged (demo_state 2) demo_key"
  using stored_documents_stay_sound [OF ref.svc.s3_service_axioms _ demo_execution demo_ref] demo_sound_start
  by (simp add: demo_key_def)

end
