(* ===== verification/Spec2Isabelle.thy ===== *)
theory Spec2Isabelle
  imports API_Results Program Store_Cost Responses Store_Invariant
begin

text \<open>
  A verification development of the Pulumi state backend: an HTTP service in Go
  (\<^verbatim>\<open>src/cmd\<close>, \<^verbatim>\<open>src/internal\<close>) that speaks the REST API of the Pulumi CLI and keeps all state in
  one S3 bucket.

  \<^bold>\<open>The program and its parts.\<close> \<^verbatim>\<open>main\<close> loads the configuration, builds the parts and serves. The
  server (\<^verbatim>\<open>internal/api\<close>) routes a request, authenticates it by a backend token
  (\<^verbatim>\<open>internal/authn\<close>), authorizes it by static group rules (\<^verbatim>\<open>internal/authz\<close>), and runs a
  handler, which works through the \<^verbatim>\<open>Store\<close> interface (\<^verbatim>\<open>internal/store\<close>) on the bucket or
  seals secrets (\<^verbatim>\<open>internal/secrets\<close>). Servers share nothing but the bucket: mutual
  exclusion of updates, fencing of superseded holders and deletion are a protocol of
  conditional writes on one document per stack, \<^verbatim>\<open>stack.json\<close>.

  \<^bold>\<open>How code is modelled.\<close> A routine that talks to the outside is a \<^emph>\<open>program\<close> (type \<open>prog\<close> in
  \<open>S3_Client\<close>): a tree of the requests it sends to the bucket, the clock and the random
  generator, in the order of the source, with a branch for every reply. \<open>run\<close> executes a
  program against a handler in one go, \<open>step\<close> one request at a time. Go's \<^verbatim>\<open>if err != nil\<close> is
  \<open>check\<close> or \<open>attempt\<close>; errors are values of the datatype \<open>error\<close> with wrapping and
  joining as in the source. \<^verbatim>\<open>uint64\<close> and \<^verbatim>\<open>int\<close> values that are stored are
  64-bit words, and arithmetic on \<^verbatim>\<open>int\<close> (lease durations, paging) wraps around in 64 bits; times are
  integers in nanoseconds. Run-time panics are represented where the code divides and slices by numbers of
  the client (paging); elsewhere the model has no panics, and nothing is claimed about them. Code outside the repository is a
  parameter: the handler for S3 (\<open>s3_service\<close> and \<open>s3_ideal\<close> state what the program relies on), the
  JWT codec (\<open>jwt_laws\<close>), HKDF and AES-GCM (\<open>crypto_laws\<close>), SHA-256, OIDC, YAML, the file system and
  the environment. Each law has an instance on which it is shown to hold (\<open>ref_service\<close>,
  \<open>unary_jwt\<close>, \<open>plain_crypto\<close>).

  \<^bold>\<open>The theories.\<close>

  \<^item> \<open>Prelude\<close>: rule collections, Go strings and numbers. \<open>Json\<close>: \<^verbatim>\<open>encoding/json\<close> on
    syntax trees. \<open>Net\<close>: \<^verbatim>\<open>net.SplitHostPort\<close>, \<^verbatim>\<open>net.ParseIP\<close>, \<^verbatim>\<open>IsLoopback\<close>.
  \<^item> \<open>Authz\<close> (\<^verbatim>\<open>authz.go\<close>): decisions equal the declarative meaning of the rules, default deny;
    what start-up validation accepts.
  \<^item> \<open>Store\<close> (\<^verbatim>\<open>store.go\<close>): documents, errors; encoding and decoding are inverse.
  \<^item> \<open>S3_Client\<close>: programs, handlers, the two interfaces of the service, the calculus \<open>wp\<close> of the
    writes a program may issue. \<open>S3_Keys\<close>: the key layout; keys of different stacks never meet.
    \<open>S3_Store\<close> (\<^verbatim>\<open>s3store.go\<close>): every operation with its retry loops.
  \<^item> \<open>Lock_Protocol\<close>: the abstract protocol \<open>doc_step\<close> of a stack document, and that every
    operation writes the document only by events of its own. \<open>Store_System\<close>: any number of
    clients with interleaved requests, crashes and faults; the system refines the protocol,
    hence mutual exclusion, fencing, changes of the state by the holder of the lock (or by the
    seeding of a new stack), deletion fences.
    \<open>Store_Invariant\<close>: the stored documents stay sound. \<open>Store_Cost\<close>: how many
    requests an operation sends, the pages of listings included.
  \<^item> \<open>Lock_Contract\<close>: the stack lock as an interface, with what its clients may conclude; the
    operations of \<^verbatim>\<open>S3Store\<close> implement it. \<open>Store_Results\<close>: on a service without faults, the result and the effect of each operation:
    lock grants against their specification, checkpoints, versions, the state machine of
    updates, exact deletion and listing.
  \<^item> \<open>Secrets\<close> (\<^verbatim>\<open>secrets.go\<close>), \<open>Authn\<close> (\<^verbatim>\<open>authn.go\<close>), \<open>Config\<close> (\<^verbatim>\<open>config.go\<close>): round trips
    and separation of secrets by stack; tokens are accepted exactly when genuine, current and
    of the right kind; accepted configurations.
  \<^item> \<open>Server\<close> (\<^verbatim>\<open>server.go\<close>), \<open>Updates\<close>, \<open>Stacks\<close>, \<open>Crypto_API\<close>, \<open>Auth_API\<close>
    (\<^verbatim>\<open>updates.go\<close>, \<^verbatim>\<open>stacks.go\<close>, \<^verbatim>\<open>crypto.go\<close>, \<^verbatim>\<open>auth.go\<close>), \<open>Routes\<close>: the gate, the handlers
    with all their store calls, the route table, and of \<^verbatim>\<open>http.ServeMux\<close> the cleaning of paths with
    its redirects and the matching; the gate theorem, path validation, paging, batches of secrets.
  \<^item> \<open>API_Protocol\<close>: requests served concurrently change a stack document only with a token that
    grants it. \<open>API_Results\<close>: the life of an update from its creation to the export of
    its state, import, deletion, renewal and listing at the level of HTTP responses.
    \<open>Responses\<close>: the form of all responses. \<open>Program\<close> (\<^verbatim>\<open>main.go\<close>): an accepted configuration
    starts and can do its work.

  \<^bold>\<open>Loops and bounds.\<close> The retry loops of the source are \<^verbatim>\<open>for range 5\<close> around an optimistic
  update and \<^verbatim>\<open>for range 3\<close> around a single conditional request; they are recursion on the
  attempts left, with the numbers of the source (the argument counts the attempts after the
  first for single requests). No other fuel is used; the bulk deletion recurses on the keys left. The three loops
  over the pages of a listing are one node \<open>ListObjects\<close> of a program, whose reply is the list of pages: each page counts as
  a request, the theorems hold for every split into pages, and that a listing ends is an assumption about the service.
  The 64-bit fence can be used up after \<open>2^64 - 1\<close> grants; theorems about generations say so.

  \<^bold>\<open>Not modelled.\<close> Response headers, log output, timeouts and the cancellation of contexts (a
  cancelled request is a failed one), the HTTP server itself, gzip and the reading of bodies (their outcome is part of the request),
  the command-line flag and signal handling of \<^verbatim>\<open>main\<close>, and the texts of JSON decoding
  errors. Tests, documentation and vendored packages are not part of the program.
\<close>

end
